theory Spec2Isabelle
  imports Main "HOL-Library.Word"
begin

unbundle bit_operations_syntax

section \<open>Block driver for the Virtual Disk Image (VDI) format: the model\<close>

text \<open>
  A shallow embedding of \<^verbatim>\<open>block/vdi.c\<close>. Every C function that is modelled keeps its
  name. The in-memory driver state is a record that is passed in and returned, the host
  file behind \<^verbatim>\<open>s->hd\<close> is a second record that is threaded through every call
  of \<^verbatim>\<open>bdrv_read\<close> and \<^verbatim>\<open>bdrv_write\<close>, and a C return code is an \<open>int\<close>.
  Undefined behaviour of the C program (a division by zero, an array access or a copy
  outside the allocation) is the value \<open>None\<close> / \<open>Undefined\<close>.
\<close>

subsection \<open>Machine integers, bytes and byte order\<close>

type_synonym byte = "8 word"
type_synonym u32 = "32 word"
type_synonym u64 = "64 word"

text \<open>A sector is the unit of all host I/O: \<^verbatim>\<open>SECTOR_SIZE\<close> bytes.\<close>

type_synonym sector = "byte list"

abbreviation SECTOR_SIZE :: nat where
  "SECTOR_SIZE \<equiv> 512"

definition KiB :: nat where
  "KiB = 1024"

definition MiB :: nat where
  "MiB = KiB * KiB"

definition VDI_SIGNATURE :: u32 where
  "VDI_SIGNATURE = 0xbeda107f"

definition VDI_VERSION_1_1 :: u32 where
  "VDI_VERSION_1_1 = 0x00010001"

definition VDI_TYPE_DYNAMIC :: u32 where
  "VDI_TYPE_DYNAMIC = 1"

definition VDI_TYPE_STATIC :: u32 where
  "VDI_TYPE_STATIC = 2"

text \<open>\<^verbatim>\<open>#define VDI_UNALLOCATED UINT32_MAX\<close>\<close>

definition VDI_UNALLOCATED :: u32 where
  "VDI_UNALLOCATED = 0xffffffff"

text \<open>\<^verbatim>\<open>#define VDI_TEXT "<<< QEMU VM Virtual Disk Image >>>\n"\<close>: 35 characters.\<close>

definition VDI_TEXT :: "byte list" where
  "VDI_TEXT = map of_char ''<<< QEMU VM Virtual Disk Image >>>'' @ [0x0a]"

text \<open>The bytes of a 32-bit and of a 64-bit value, least significant byte first.\<close>

definition le_bytes32 :: "u32 \<Rightarrow> byte list" where
  "le_bytes32 w = [ucast w, ucast (drop_bit 8 w), ucast (drop_bit 16 w), ucast (drop_bit 24 w)]"

definition word_of_le32 :: "byte list \<Rightarrow> u32" where
  "word_of_le32 bs = ucast (bs ! 0) OR push_bit 8 (ucast (bs ! 1))
     OR push_bit 16 (ucast (bs ! 2)) OR push_bit 24 (ucast (bs ! 3))"

definition le_bytes64 :: "u64 \<Rightarrow> byte list" where
  "le_bytes64 w = le_bytes32 (ucast w) @ le_bytes32 (ucast (drop_bit 32 w))"

definition word_of_le64 :: "byte list \<Rightarrow> u64" where
  "word_of_le64 bs = ucast (word_of_le32 (take 4 bs)) OR push_bit 32 (ucast (word_of_le32 (drop 4 bs)))"

text \<open>
  Modelled from the spec: the byte-order helpers \<^verbatim>\<open>le32_to_cpu\<close>, \<^verbatim>\<open>cpu_to_le32\<close>,
  \<^verbatim>\<open>le32_to_cpus\<close>, \<^verbatim>\<open>cpu_to_le32s\<close> and their 64-bit forms come from QEMU's
  \<^verbatim>\<open>bswap.h\<close>, which is not among the sources. The spec says that all multi-byte
  integers are little-endian on disk and are converted to host byte order at the point of
  use. The byte order of the host is the parameter \<open>be\<close> (\<open>True\<close> on a big-endian host):
  on a little-endian host the helpers are the identity, on a big-endian host they
  reverse the bytes.
\<close>

definition bswap32 :: "u32 \<Rightarrow> u32" where
  "bswap32 x = word_of_le32 (rev (le_bytes32 x))"

definition bswap64 :: "u64 \<Rightarrow> u64" where
  "bswap64 x = word_of_le64 (rev (le_bytes64 x))"

definition le32_to_cpu :: "bool \<Rightarrow> u32 \<Rightarrow> u32" where
  "le32_to_cpu be x = (if be then bswap32 x else x)"

definition cpu_to_le32 :: "bool \<Rightarrow> u32 \<Rightarrow> u32" where
  "cpu_to_le32 be x = (if be then bswap32 x else x)"

definition le64_to_cpu :: "bool \<Rightarrow> u64 \<Rightarrow> u64" where
  "le64_to_cpu be x = (if be then bswap64 x else x)"

definition cpu_to_le64 :: "bool \<Rightarrow> u64 \<Rightarrow> u64" where
  "cpu_to_le64 be x = (if be then bswap64 x else x)"

text \<open>
  How the host keeps an integer variable in memory (\<open>mem32\<close>, \<open>mem64\<close>) and how it
  loads one from memory (\<open>ld32\<close>, \<open>ld64\<close>): this is what a cast between
  \<^verbatim>\<open>uint8_t *\<close> and a structure pointer, and a \<^verbatim>\<open>memcpy\<close> of a structure, observe.
\<close>

definition mem32 :: "bool \<Rightarrow> u32 \<Rightarrow> byte list" where
  "mem32 be w = (if be then rev (le_bytes32 w) else le_bytes32 w)"

definition mem64 :: "bool \<Rightarrow> u64 \<Rightarrow> byte list" where
  "mem64 be w = (if be then rev (le_bytes64 w) else le_bytes64 w)"

definition segment :: "nat \<Rightarrow> nat \<Rightarrow> 'a list \<Rightarrow> 'a list" where
  "segment off len xs = take len (drop off xs)"

definition ld32 :: "bool \<Rightarrow> byte list \<Rightarrow> nat \<Rightarrow> u32" where
  "ld32 be m off = (if be then word_of_le32 (rev (segment off 4 m)) else word_of_le32 (segment off 4 m))"

definition ld64 :: "bool \<Rightarrow> byte list \<Rightarrow> nat \<Rightarrow> u64" where
  "ld64 be m off = (if be then word_of_le64 (rev (segment off 8 m)) else word_of_le64 (segment off 8 m))"

text \<open>A character array of fixed size \<open>n\<close> as it lies in memory.\<close>

definition fixed :: "nat \<Rightarrow> byte list \<Rightarrow> byte list" where
  "fixed n xs = take n xs @ replicate (n - length xs) 0"

subsection \<open>The header\<close>

text \<open>
  \<^verbatim>\<open>typedef struct { char text[0x40]; uint32_t signature; ... } VdiHeader;\<close>
  The first field is called \<open>hdr_text\<close> here. The structure has no padding and
  \<^verbatim>\<open>sizeof(VdiHeader)\<close> is 512: \<open>signature\<close> lies at byte offset 64, \<open>version\<close> at 68.
\<close>

record VdiHeader =
  hdr_text :: "byte list"
  signature :: u32
  version :: u32
  header_size :: u32
  image_type :: u32
  image_flags :: u32
  description :: "byte list"
  offset_blockmap :: u32
  offset_data :: u32
  cylinders :: u32
  heads :: u32
  sectors :: u32
  sector_size :: u32
  unused1 :: u32
  disk_size :: u64
  block_size :: u32
  block_extra :: u32
  blocks_in_image :: u32
  blocks_allocated :: u32
  uuid_image :: "byte list"
  uuid_last_snap :: "byte list"
  uuid_link :: "byte list"
  uuid_parent :: "byte list"
  unused2 :: "u64 list"

abbreviation sizeof_VdiHeader :: nat where
  "sizeof_VdiHeader \<equiv> 512"

text \<open>The structure as the bytes it occupies in the memory of the host.\<close>

definition mem_of_VdiHeader :: "bool \<Rightarrow> VdiHeader \<Rightarrow> byte list" where
  "mem_of_VdiHeader be h =
     fixed 64 (hdr_text h) @ mem32 be (signature h) @ mem32 be (version h)
     @ mem32 be (header_size h) @ mem32 be (image_type h) @ mem32 be (image_flags h)
     @ fixed 256 (description h)
     @ mem32 be (offset_blockmap h) @ mem32 be (offset_data h) @ mem32 be (cylinders h)
     @ mem32 be (heads h) @ mem32 be (sectors h) @ mem32 be (sector_size h)
     @ mem32 be (unused1 h) @ mem64 be (disk_size h)
     @ mem32 be (VdiHeader.block_size h) @ mem32 be (block_extra h)
     @ mem32 be (blocks_in_image h) @ mem32 be (blocks_allocated h)
     @ fixed 16 (uuid_image h) @ fixed 16 (uuid_last_snap h)
     @ fixed 16 (uuid_link h) @ fixed 16 (uuid_parent h)
     @ fixed 56 (concat (map (mem64 be) (unused2 h)))"

text \<open>The structure that a pointer cast \<^verbatim>\<open>(VdiHeader *)buf\<close> sees in a buffer.\<close>

definition VdiHeader_of_mem :: "bool \<Rightarrow> byte list \<Rightarrow> VdiHeader" where
  "VdiHeader_of_mem be m =
     \<lparr> hdr_text = segment 0 64 m,
       signature = ld32 be m 64,
       version = ld32 be m 68,
       header_size = ld32 be m 72,
       image_type = ld32 be m 76,
       image_flags = ld32 be m 80,
       description = segment 84 256 m,
       offset_blockmap = ld32 be m 340,
       offset_data = ld32 be m 344,
       cylinders = ld32 be m 348,
       heads = ld32 be m 352,
       sectors = ld32 be m 356,
       sector_size = ld32 be m 360,
       unused1 = ld32 be m 364,
       disk_size = ld64 be m 368,
       block_size = ld32 be m 376,
       block_extra = ld32 be m 380,
       blocks_in_image = ld32 be m 384,
       blocks_allocated = ld32 be m 388,
       uuid_image = segment 392 16 m,
       uuid_last_snap = segment 408 16 m,
       uuid_link = segment 424 16 m,
       uuid_parent = segment 440 16 m,
       unused2 = map (\<lambda>i. ld64 be m (456 + 8 * i)) [0..<7] \<rparr>"

definition vdi_header_to_cpu :: "bool \<Rightarrow> VdiHeader \<Rightarrow> VdiHeader" where
  "vdi_header_to_cpu be header =
     header\<lparr> signature := le32_to_cpu be (signature header),
             version := le32_to_cpu be (version header),
             header_size := le32_to_cpu be (header_size header),
             image_type := le32_to_cpu be (image_type header),
             image_flags := le32_to_cpu be (image_flags header),
             offset_blockmap := le32_to_cpu be (offset_blockmap header),
             offset_data := le32_to_cpu be (offset_data header),
             cylinders := le32_to_cpu be (cylinders header),
             heads := le32_to_cpu be (heads header),
             sectors := le32_to_cpu be (sectors header),
             sector_size := le32_to_cpu be (sector_size header),
             disk_size := le64_to_cpu be (disk_size header),
             block_size := le32_to_cpu be (VdiHeader.block_size header),
             block_extra := le32_to_cpu be (block_extra header),
             blocks_in_image := le32_to_cpu be (blocks_in_image header),
             blocks_allocated := le32_to_cpu be (blocks_allocated header) \<rparr>"

definition vdi_header_to_le :: "bool \<Rightarrow> VdiHeader \<Rightarrow> VdiHeader" where
  "vdi_header_to_le be header =
     header\<lparr> signature := cpu_to_le32 be (signature header),
             version := cpu_to_le32 be (version header),
             header_size := cpu_to_le32 be (header_size header),
             image_type := cpu_to_le32 be (image_type header),
             image_flags := cpu_to_le32 be (image_flags header),
             offset_blockmap := cpu_to_le32 be (offset_blockmap header),
             offset_data := cpu_to_le32 be (offset_data header),
             cylinders := cpu_to_le32 be (cylinders header),
             heads := cpu_to_le32 be (heads header),
             sectors := cpu_to_le32 be (sectors header),
             sector_size := cpu_to_le32 be (sector_size header),
             disk_size := cpu_to_le64 be (disk_size header),
             block_size := cpu_to_le32 be (VdiHeader.block_size header),
             block_extra := cpu_to_le32 be (block_extra header),
             blocks_in_image := cpu_to_le32 be (blocks_in_image header),
             blocks_allocated := cpu_to_le32 be (blocks_allocated header) \<rparr>"

subsection \<open>Probe\<close>

text \<open>
  \<^verbatim>\<open>static int vdi_probe(const uint8_t *buf, int buf_size, const char *filename)\<close>.
  The comparison \<^verbatim>\<open>buf_size < sizeof(*header)\<close> is made in \<^verbatim>\<open>size_t\<close>, to which the
  \<^verbatim>\<open>int\<close> is converted (64 bits here). The file name is not used.
\<close>

definition size_t_of_int :: "int \<Rightarrow> nat" where
  "size_t_of_int i = nat (i mod 2 ^ 64)"

definition vdi_probe :: "bool \<Rightarrow> byte list \<Rightarrow> int \<Rightarrow> int" where
  "vdi_probe be buf buf_size =
     (let header = VdiHeader_of_mem be buf in
      if size_t_of_int buf_size < sizeof_VdiHeader then 0
      else if le32_to_cpu be (signature header) = VDI_SIGNATURE then 100
      else 0)"

subsection \<open>The host file\<close>

text \<open>
  Modelled from the spec: the host file behind \<^verbatim>\<open>s->hd\<close> and its positional,
  sector-granular \<^verbatim>\<open>bdrv_read\<close> and \<^verbatim>\<open>bdrv_write\<close> belong to QEMU's block layer
  (\<^verbatim>\<open>block.c\<close>), which is not among the sources. The spec gives the interface:
  \<^verbatim>\<open>read_sectors(handle, sector_offset, count, dst)\<close> is a positional read and
  \<^verbatim>\<open>write_sectors(handle, sector_offset, count, src)\<close> a positional write that extends
  the file, and either may fail with an I/O error.

  The file is a function from sector numbers to sectors. A buffer handed to the sector
  interface is a list of sectors, so advancing a C pointer by
  \<^verbatim>\<open>n_sectors * SECTOR_SIZE\<close> bytes is \<open>drop n_sectors\<close>. Whether an operation fails is
  scripted by \<open>faults\<close>: each operation consumes the head of the list and fails when it
  is \<open>True\<close>; with the script exhausted every operation succeeds. Each operation is
  recorded in \<open>trace\<close> with its sector offset and its sector count.
\<close>

datatype io_op = Read_op nat nat | Write_op nat nat

record hostfile =
  disk :: "nat \<Rightarrow> sector"
  faults :: "bool list"
  trace :: "io_op list"

definition EIO :: int where
  "EIO = 5"

definition next_fault :: "bool list \<Rightarrow> bool \<times> bool list" where
  "next_fault fs = (case fs of [] \<Rightarrow> (False, []) | f # rest \<Rightarrow> (f, rest))"

definition bdrv_read :: "hostfile \<Rightarrow> nat \<Rightarrow> nat \<Rightarrow> int \<times> sector list \<times> hostfile" where
  "bdrv_read host sector_num nb_sectors =
     (let logged = host\<lparr> trace := trace host @ [Read_op sector_num nb_sectors],
                         faults := snd (next_fault (faults host)) \<rparr> in
      if fst (next_fault (faults host)) then (- EIO, [], logged)
      else (0, map (disk host) [sector_num ..< sector_num + nb_sectors], logged))"

text \<open>A failed write leaves the file as it was; the buffer is read as far as it goes.\<close>

definition store :: "(nat \<Rightarrow> sector) \<Rightarrow> nat \<Rightarrow> sector list \<Rightarrow> nat \<Rightarrow> (nat \<Rightarrow> sector)" where
  "store d sector_num buf nb_sectors =
     (\<lambda>i. if sector_num \<le> i \<and> i < sector_num + nb_sectors \<and> i - sector_num < length buf
          then buf ! (i - sector_num) else d i)"

definition bdrv_write :: "hostfile \<Rightarrow> nat \<Rightarrow> sector list \<Rightarrow> nat \<Rightarrow> int \<times> hostfile" where
  "bdrv_write host sector_num buf nb_sectors =
     (let logged = host\<lparr> trace := trace host @ [Write_op sector_num nb_sectors],
                         faults := snd (next_fault (faults host)) \<rparr> in
      if fst (next_fault (faults host)) then (- EIO, logged)
      else (0, logged\<lparr> disk := store (disk host) sector_num buf nb_sectors \<rparr>))"

subsection \<open>The driver state\<close>

text \<open>
  \<^verbatim>\<open>typedef struct { BlockDriverState *hd; uint32_t *blockmap; uint32_t block_size;
  uint32_t block_sectors; VdiHeader header; } BDRVVdiState;\<close>
  The entries of \<open>blockmap\<close> are little endian even in memory: an entry is the host
  integer that \<^verbatim>\<open>cpu_to_le32\<close> returned. \<^verbatim>\<open>blockmap\<close> is a pointer: \<open>blockmap\<close> is
  the array that \<^verbatim>\<open>vdi_open\<close> allocates for it, and \<open>after_blockmap\<close> is the memory
  behind the end of that array, byte by byte, which the code reads when it writes a
  block map sector that the array does not fill. The host file \<^verbatim>\<open>hd\<close> is passed
  beside the state. Of \<^verbatim>\<open>BlockDriverState\<close> the driver uses \<open>total_sectors\<close> (an
  \<^verbatim>\<open>int64_t\<close>) and \<open>opaque\<close>.
\<close>

record BDRVVdiState =
  blockmap :: "u32 list"
  after_blockmap :: "nat \<Rightarrow> byte"
  block_size :: u32
  block_sectors :: u32
  header :: VdiHeader

record BlockDriverState =
  total_sectors :: int
  opaque :: BDRVVdiState

subsection \<open>Open\<close>

text \<open>
  \<^verbatim>\<open>static int vdi_open(BlockDriverState *bs, const char *filename, int flags)\<close>.
  The result of \<^verbatim>\<open>bdrv_file_open\<close> is a parameter: its negative return code, or
  the opened host file. \<^verbatim>\<open>qemu_malloc\<close> does not clear the block map it returns, and
  the read that fills it covers \<^verbatim>\<open>blockmap_size / SECTOR_SIZE\<close> whole sectors only;
  \<open>uninit\<close> is what the memory at the address of the allocation held, entry by
  entry: the first \<open>blocks_in_image\<close> entries are the allocation, the others are what
  follows it. The result is the return code, and on success the state of the opened
  image and the host file.
\<close>

definition load_blockmap :: "bool \<Rightarrow> sector list \<Rightarrow> (nat \<Rightarrow> u32) \<Rightarrow> nat \<Rightarrow> u32 list" where
  "load_blockmap be data uninit n =
     map (\<lambda>i. if 4 * i < length (concat data) then ld32 be (concat data) (4 * i) else uninit i)
       [0 ..< n]"

definition vdi_open ::
  "bool \<Rightarrow> int + hostfile \<Rightarrow> (nat \<Rightarrow> u32) \<Rightarrow> int \<times> (BlockDriverState \<times> hostfile) option" where
  "vdi_open be file_open uninit =
     (case file_open of
        Inl ret \<Rightarrow> (ret, None)
      | Inr hd0 \<Rightarrow>
          (case bdrv_read hd0 0 1 of (r, data, hd1) \<Rightarrow>
             if r < 0 then (- 1, None)
             else
               let header = vdi_header_to_cpu be (VdiHeader_of_mem be (concat data)) in
               if version header \<noteq> VDI_VERSION_1_1 then (- 1, None)
               else if unat (offset_blockmap header) mod SECTOR_SIZE \<noteq> 0 then (- 1, None)
               else if unat (offset_data header) mod SECTOR_SIZE \<noteq> 0 then (- 1, None)
               else if sector_size header \<noteq> of_nat SECTOR_SIZE then (- 1, None)
               else if VdiHeader.block_size header \<noteq> of_nat (1 * MiB) then (- 1, None)
               else if disk_size header \<noteq>
                       (ucast (blocks_in_image header) :: u64) * ucast (VdiHeader.block_size header)
                    then (- 1, None)
               else
                 let blockmap_size = unat (blocks_in_image header) * 4 in
                 (case bdrv_read hd1 (unat (offset_blockmap header) div SECTOR_SIZE)
                         (blockmap_size div SECTOR_SIZE) of (r, data, hd2) \<Rightarrow>
                    if r < 0 then (- 1, None)
                    else
                      (0, Some
                        (\<lparr> total_sectors = int (unat (disk_size header) div SECTOR_SIZE),
                           opaque =
                             \<lparr> blockmap = load_blockmap be data uninit (unat (blocks_in_image header)),
                               after_blockmap =
                                 (\<lambda>j. mem32 be (uninit (unat (blocks_in_image header) + j div 4))
                                        ! (j mod 4)),
                               block_size = VdiHeader.block_size header,
                               block_sectors = VdiHeader.block_size header div of_nat SECTOR_SIZE,
                               header = header \<rparr> \<rparr>,
                         hd2)))))"

subsection \<open>Read and write\<close>

text \<open>
  One pass through the body of a \<^verbatim>\<open>while\<close> loop either is undefined behaviour,
  or leaves the function with a return code, or ends with \<open>n_sectors\<close> sectors done.
\<close>

datatype 'a iter = Undefined | Return int 'a | Continue nat 'a

definition zero_sector :: sector where
  "zero_sector = replicate SECTOR_SIZE 0"

text \<open>
  The body of the loop of \<^verbatim>\<open>vdi_read\<close>: the sectors it puts into the buffer, and the
  host file. \<^verbatim>\<open>sector_num\<close> is not negative here, so C's division is \<open>div\<close>.
\<close>

definition vdi_read_body ::
  "bool \<Rightarrow> BlockDriverState \<Rightarrow> hostfile \<Rightarrow> int \<Rightarrow> int \<Rightarrow> (sector list \<times> hostfile) iter" where
  "vdi_read_body be bs host sector_num nb_sectors =
     (let s = opaque bs in
      if block_sectors s = 0 then Undefined
      else
        let block_index = nat (sector_num div uint (block_sectors s));
            sector_in_block = nat (sector_num mod uint (block_sectors s));
            n_sectors = min (unat (block_sectors s) - sector_in_block) (nat nb_sectors)
        in
        if length (blockmap s) \<le> block_index then Undefined
        else
          let blockmap_entry = le32_to_cpu be (blockmap s ! block_index) in
          if blockmap_entry = VDI_UNALLOCATED
          then Continue n_sectors (replicate n_sectors zero_sector, host)
          else
            let offset = unat (offset_data (header s)) div SECTOR_SIZE
                         + unat blockmap_entry * unat (block_sectors s) + sector_in_block
            in (case bdrv_read host offset n_sectors of (r, data, host1) \<Rightarrow>
                  if r < 0 then Return (- 1) ([], host1) else Continue n_sectors (data, host1)))"

lemma vdi_read_body_Continue_pos:
  assumes "vdi_read_body be bs host sector_num nb_sectors = Continue n x" and "0 < nb_sectors"
  shows "0 < n \<and> int n \<le> nb_sectors"
proof -
  let ?B = "block_sectors (opaque bs)"
  from assms(1) have nz: "?B \<noteq> 0"
    by (auto simp: vdi_read_body_def Let_def)
  then have "uint ?B \<noteq> 0"
    by (simp add: uint_0_iff)
  moreover have "0 \<le> uint ?B"
    by simp
  ultimately have "0 < uint ?B"
    by linarith
  then have "sector_num mod uint ?B < uint ?B" "0 \<le> sector_num mod uint ?B"
    by simp_all
  then have "nat (sector_num mod uint ?B) < unat ?B"
    by (simp add: nat_less_iff)
  moreover from assms(1) nz
  have "n = min (unat ?B - nat (sector_num mod uint ?B)) (nat nb_sectors)"
    by (auto simp: vdi_read_body_def Let_def split: if_splits prod.splits)
  ultimately show ?thesis using assms(2) by auto
qed

function vdi_read_loop ::
  "bool \<Rightarrow> BlockDriverState \<Rightarrow> hostfile \<Rightarrow> int \<Rightarrow> int \<Rightarrow> sector list
     \<Rightarrow> (int \<times> sector list \<times> hostfile) option" where
  "vdi_read_loop be bs host sector_num nb_sectors acc =
     (if nb_sectors > 0 \<and> sector_num < total_sectors bs then
        (case vdi_read_body be bs host sector_num nb_sectors of
           Undefined \<Rightarrow> None
         | Return r x \<Rightarrow> Some (r, acc, snd x)
         | Continue n x \<Rightarrow>
             vdi_read_loop be bs (snd x) (sector_num + int n) (nb_sectors - int n) (acc @ fst x))
      else Some (0, acc, host))"
  by pat_completeness auto
termination
  by (relation "measure (\<lambda>(be, bs, host, sector_num, nb_sectors, acc). nat nb_sectors)")
     (auto dest: vdi_read_body_Continue_pos)

text \<open>
  \<^verbatim>\<open>static int vdi_read(BlockDriverState *bs, int64_t sector_num, uint8_t *buf,
  int nb_sectors)\<close>: \<open>buf\<close> is what the caller's buffer holds before the call; the result
  is the return code, the buffer after the call, and the host file.
\<close>

definition vdi_read ::
  "bool \<Rightarrow> BlockDriverState \<Rightarrow> hostfile \<Rightarrow> int \<Rightarrow> sector list \<Rightarrow> int
     \<Rightarrow> (int \<times> sector list \<times> hostfile) option" where
  "vdi_read be bs host sector_num buf nb_sectors =
     (if sector_num < 0 then Some (- 1, buf, host)
      else
        (case vdi_read_loop be bs host sector_num nb_sectors [] of
           None \<Rightarrow> None
         | Some (r, filled, host1) \<Rightarrow> Some (r, filled @ drop (length filled) buf, host1)))"

text \<open>
  \<^verbatim>\<open>memcpy(block + sector_in_block * SECTOR_SIZE, buf, n_sectors * SECTOR_SIZE)\<close> into
  a buffer of sectors: \<open>src\<close> replaces the sectors from index \<open>at\<close> on.
\<close>

definition memcpy_sectors :: "sector list \<Rightarrow> nat \<Rightarrow> sector list \<Rightarrow> sector list" where
  "memcpy_sectors dst at src = take at dst @ src @ drop (at + length src) dst"

text \<open>
  The sector that \<^verbatim>\<open>(uint8_t *)&s->blockmap[blockmap_entry]\<close> points to: the 512
  bytes from entry \<open>first\<close> on. Where fewer than 128 entries follow, the code reads on
  behind the end of the array; those bytes are \<open>tail_bytes\<close>.
\<close>

definition blockmap_sector :: "bool \<Rightarrow> u32 list \<Rightarrow> (nat \<Rightarrow> byte) \<Rightarrow> nat \<Rightarrow> sector" where
  "blockmap_sector be bmap tail_bytes first =
     map (\<lambda>j. if j < 4 * length bmap then mem32 be (bmap ! (j div 4)) ! (j mod 4)
              else tail_bytes (j - 4 * length bmap))
       [4 * first ..< 4 * first + SECTOR_SIZE]"

text \<open>
  The branch \<^verbatim>\<open>if (blockmap_entry == VDI_UNALLOCATED) { ... }\<close> of the loop of
  \<^verbatim>\<open>vdi_write\<close> (lines 829 to 864): allocate a new block and write to it. The three
  writes are those of lines 840, 851 and 859.
\<close>

definition vdi_write_allocate ::
  "bool \<Rightarrow> BlockDriverState \<Rightarrow> hostfile \<Rightarrow> nat \<Rightarrow> nat \<Rightarrow> sector list \<Rightarrow> nat
     \<Rightarrow> (BlockDriverState \<times> hostfile) iter" where
  "vdi_write_allocate be bs host block_index sector_in_block buf n_sectors =
     (let s = opaque bs;
          blockmap_entry = blocks_allocated (header s);
          s1 = s\<lparr> blockmap := (blockmap s)[block_index := cpu_to_le32 be blockmap_entry] \<rparr>;
          s2 = s1\<lparr> header := (header s1)\<lparr> blocks_allocated := blocks_allocated (header s1) + 1 \<rparr> \<rparr>;
          offset = unat (offset_data (header s2)) div SECTOR_SIZE
                   + unat blockmap_entry * unat (block_sectors s2);
          zeroed = replicate (unat (block_size s2) div SECTOR_SIZE) zero_sector
      in
      if length zeroed < sector_in_block + n_sectors \<or> length zeroed < unat (block_sectors s2)
      then Undefined
      else
        let block = memcpy_sectors zeroed sector_in_block (take n_sectors buf) in
        (case bdrv_write host offset block (unat (block_sectors s2)) of (r, host1) \<Rightarrow>
           if r < 0 then Return (- 1) (bs\<lparr> opaque := s2 \<rparr>, host1)
           else
             let blockmap_entry = blockmap_entry AND NOT (of_nat (SECTOR_SIZE div 4 - 1));
                 offset = unat (offset_blockmap (header s2)) div SECTOR_SIZE
                          + unat blockmap_entry div (SECTOR_SIZE div 4)
             in
             (case bdrv_write host1 offset
                     [blockmap_sector be (blockmap s2) (after_blockmap s2) (unat blockmap_entry)] 1
                   of (r, host2) \<Rightarrow>
                if r < 0 then Return (- 1) (bs\<lparr> opaque := s2 \<rparr>, host2)
                else
                  let s3 = s2\<lparr> header := vdi_header_to_le be (header s2) \<rparr> in
                  (case bdrv_write host2 0 [mem_of_VdiHeader be (header s3)] 1 of (r, host3) \<Rightarrow>
                     let s4 = s3\<lparr> header := vdi_header_to_cpu be (header s3) \<rparr> in
                     if r < 0 then Return (- 1) (bs\<lparr> opaque := s4 \<rparr>, host3)
                     else Continue n_sectors (bs\<lparr> opaque := s4 \<rparr>, host3)))))"

text \<open>The branch \<^verbatim>\<open>else { ... }\<close> (lines 865 to 874): write to an existing block.\<close>

definition vdi_write_existing ::
  "BlockDriverState \<Rightarrow> hostfile \<Rightarrow> u32 \<Rightarrow> nat \<Rightarrow> sector list \<Rightarrow> nat
     \<Rightarrow> (BlockDriverState \<times> hostfile) iter" where
  "vdi_write_existing bs host blockmap_entry sector_in_block buf n_sectors =
     (let s = opaque bs;
          offset = unat (offset_data (header s)) div SECTOR_SIZE
                   + unat blockmap_entry * unat (block_sectors s) + sector_in_block
      in (case bdrv_write host offset (take n_sectors buf) n_sectors of (r, host1) \<Rightarrow>
            if r < 0 then Return (- 1) (bs, host1) else Continue n_sectors (bs, host1)))"

text \<open>
  The body of the loop of \<^verbatim>\<open>vdi_write\<close> (lines 820 to 877): the driver state and
  the host file after it.
\<close>

definition vdi_write_body ::
  "bool \<Rightarrow> BlockDriverState \<Rightarrow> hostfile \<Rightarrow> int \<Rightarrow> sector list \<Rightarrow> int
     \<Rightarrow> (BlockDriverState \<times> hostfile) iter" where
  "vdi_write_body be bs host sector_num buf nb_sectors =
     (let s = opaque bs in
      if block_sectors s = 0 then Undefined
      else
        let block_index = nat (sector_num div uint (block_sectors s));
            sector_in_block = nat (sector_num mod uint (block_sectors s));
            n_sectors = min (unat (block_sectors s) - sector_in_block) (nat nb_sectors)
        in
        if length (blockmap s) \<le> block_index then Undefined
        else
          let blockmap_entry = le32_to_cpu be (blockmap s ! block_index) in
          if blockmap_entry = VDI_UNALLOCATED
          then vdi_write_allocate be bs host block_index sector_in_block buf n_sectors
          else vdi_write_existing bs host blockmap_entry sector_in_block buf n_sectors)"

lemma bdrv_write_cases:
  obtains host1 where "bdrv_write host off buf n = (- EIO, host1)"
  | host1 where "bdrv_write host off buf n = (0, host1)"
  by (cases "fst (next_fault (faults host))") (simp_all add: bdrv_write_def Let_def)

lemma vdi_write_existing_Continue:
  "vdi_write_existing bs host e sib buf n = Continue m x \<Longrightarrow> m = n"
  by (rule bdrv_write_cases [of host "unat (offset_data (header (opaque bs))) div SECTOR_SIZE
        + unat e * unat (block_sectors (opaque bs)) + sib" "take n buf" n])
     (simp_all add: vdi_write_existing_def Let_def EIO_def)

lemma vdi_write_allocate_Continue:
  "vdi_write_allocate be bs host bi sib buf n = Continue m x \<Longrightarrow> m = n"
  unfolding vdi_write_allocate_def Let_def
  by (simp split: if_splits prod.splits)

lemma vdi_write_body_Continue_pos:
  assumes "vdi_write_body be bs host sector_num buf nb_sectors = Continue n x" and "0 < nb_sectors"
  shows "0 < n \<and> int n \<le> nb_sectors"
proof -
  let ?B = "block_sectors (opaque bs)"
  from assms(1) have nz: "?B \<noteq> 0"
    by (auto simp: vdi_write_body_def Let_def)
  then have "uint ?B \<noteq> 0"
    by (simp add: uint_0_iff)
  moreover have "0 \<le> uint ?B"
    by simp
  ultimately have "0 < uint ?B"
    by linarith
  then have "sector_num mod uint ?B < uint ?B" "0 \<le> sector_num mod uint ?B"
    by simp_all
  then have "nat (sector_num mod uint ?B) < unat ?B"
    by (simp add: nat_less_iff)
  moreover from assms(1) nz
  have "n = min (unat ?B - nat (sector_num mod uint ?B)) (nat nb_sectors)"
    by (auto simp: vdi_write_body_def Let_def split: if_splits
          dest: vdi_write_existing_Continue vdi_write_allocate_Continue)
  ultimately show ?thesis using assms(2) by auto
qed

function vdi_write_loop ::
  "bool \<Rightarrow> BlockDriverState \<Rightarrow> hostfile \<Rightarrow> int \<Rightarrow> sector list \<Rightarrow> int
     \<Rightarrow> (int \<times> BlockDriverState \<times> hostfile) option" where
  "vdi_write_loop be bs host sector_num buf nb_sectors =
     (if nb_sectors > 0 \<and> sector_num < total_sectors bs then
        (case vdi_write_body be bs host sector_num buf nb_sectors of
           Undefined \<Rightarrow> None
         | Return r x \<Rightarrow> Some (r, fst x, snd x)
         | Continue n x \<Rightarrow>
             vdi_write_loop be (fst x) (snd x) (sector_num + int n) (drop n buf) (nb_sectors - int n))
      else Some (0, bs, host))"
  by pat_completeness auto
termination
  by (relation "measure (\<lambda>(be, bs, host, sector_num, buf, nb_sectors). nat nb_sectors)")
     (auto dest: vdi_write_body_Continue_pos)

text \<open>
  \<^verbatim>\<open>static int vdi_write(BlockDriverState *bs, int64_t sector_num, const uint8_t *buf,
  int nb_sectors)\<close>
\<close>

definition vdi_write ::
  "bool \<Rightarrow> BlockDriverState \<Rightarrow> hostfile \<Rightarrow> int \<Rightarrow> sector list \<Rightarrow> int
     \<Rightarrow> (int \<times> BlockDriverState \<times> hostfile) option" where
  "vdi_write be bs host sector_num buf nb_sectors =
     (if sector_num < 0 then Some (- 1, bs, host)
      else vdi_write_loop be bs host sector_num buf nb_sectors)"

subsection \<open>Asynchronous write\<close>

text \<open>
  With \<^verbatim>\<open>CONFIG_AIO\<close> the driver writes through \<^verbatim>\<open>vdi_aio_writev\<close>, whose work is
  done by the completion callback \<^verbatim>\<open>vdi_aio_write_cb\<close>: every call either submits one
  write to the host file and returns, or completes the request.

  \<^verbatim>\<open>typedef enum { aio_state_normal, aio_must_write_blockmap, aio_must_write_header,
  aio_header_written } aio_state;\<close> and the fields of \<^verbatim>\<open>VdiAIOCB\<close> that the write path
  uses, with the prefix \<open>acb_\<close>. \<open>acb_buf\<close> is the caller's data from the current
  position on, \<open>acb_block_buffer\<close> is \<open>None\<close> for \<^verbatim>\<open>NULL\<close>.
\<close>

datatype aio_state =
  aio_state_normal | aio_must_write_blockmap | aio_must_write_header | aio_header_written

record VdiAIOCB =
  acb_sector_num :: int
  acb_buf :: "sector list"
  acb_nb_sectors :: int
  acb_n_sectors :: int
  acb_blockmap_entry :: u32
  acb_block_buffer :: "sector list option"
  acb_state :: aio_state

text \<open>
  \<^verbatim>\<open>vdi_aio_setup\<close> for a request whose vector has one element, and with
  \<^verbatim>\<open>qemu_aio_get\<close> returning a control block.
\<close>

definition vdi_aio_setup :: "int \<Rightarrow> sector list \<Rightarrow> int \<Rightarrow> VdiAIOCB" where
  "vdi_aio_setup sector_num qiov nb_sectors =
     \<lparr> acb_sector_num = sector_num, acb_buf = qiov, acb_nb_sectors = nb_sectors,
       acb_n_sectors = 0, acb_blockmap_entry = VDI_UNALLOCATED, acb_block_buffer = None,
       acb_state = aio_state_normal \<rparr>"

text \<open>
  What a call of the callback ends with: a write of \<open>nb_sectors\<close> sectors submitted
  at a sector of the host file with the bytes of \<^verbatim>\<open>hd_iov\<close>, or the completion of
  the request with a return code (label \<^verbatim>\<open>done\<close>). Whether \<^verbatim>\<open>bdrv_aio_writev\<close>
  accepts the request is the parameter \<open>submitted\<close>; when it returns \<^verbatim>\<open>NULL\<close> the
  callback goes to \<^verbatim>\<open>done\<close> with the \<^verbatim>\<open>ret\<close> it has.
\<close>

datatype aio_event = Aio_writev nat "sector list" nat | Aio_done int

definition bdrv_aio_writev :: "bool \<Rightarrow> nat \<Rightarrow> sector list \<Rightarrow> nat \<Rightarrow> int \<Rightarrow> aio_event" where
  "bdrv_aio_writev submitted sector_num iov nb_sectors ret =
     (if submitted then Aio_writev sector_num iov nb_sectors else Aio_done ret)"

text \<open>
  C's \<^verbatim>\<open>/\<close> and \<^verbatim>\<open>%\<close> on \<^verbatim>\<open>int64_t\<close> with a positive divisor: the quotient is
  rounded towards zero. The asynchronous path does not reject a negative sector number.
\<close>

definition int64_div :: "int \<Rightarrow> int \<Rightarrow> int" where
  "int64_div a b = (if 0 \<le> a then a div b else - ((- a) div b))"

definition int64_mod :: "int \<Rightarrow> int \<Rightarrow> int" where
  "int64_mod a b = a - b * int64_div a b"

text \<open>
  The second half of \<^verbatim>\<open>vdi_aio_write_cb\<close> (lines 682 to 746): account for the sectors
  just written and prepare the next request. \<open>block_index\<close>, \<open>sector_in_block\<close> and
  \<open>n_sectors\<close> are \<^verbatim>\<open>uint32_t\<close> here, and \<^verbatim>\<open>n_sectors > acb->nb_sectors\<close> compares as
  unsigned. A zero \<open>block_sectors\<close>, an index outside the block map and a copy beyond
  the new block are undefined behaviour (\<open>None\<close>).
\<close>

definition vdi_aio_write_next ::
  "bool \<Rightarrow> bool \<Rightarrow> BlockDriverState \<Rightarrow> VdiAIOCB \<Rightarrow> int
     \<Rightarrow> (BlockDriverState \<times> VdiAIOCB \<times> aio_event) option" where
  "vdi_aio_write_next be submitted bs acb0 ret =
     (let s = opaque bs;
          acb = acb0\<lparr> acb_nb_sectors := acb_nb_sectors acb0 - acb_n_sectors acb0,
                      acb_sector_num := acb_sector_num acb0 + acb_n_sectors acb0,
                      acb_buf := drop (nat (acb_n_sectors acb0)) (acb_buf acb0) \<rparr>
      in
      if acb_nb_sectors acb = 0 then Some (bs, acb, Aio_done 0)
      else if block_sectors s = 0 then None
      else
        let block_index = (of_int (int64_div (acb_sector_num acb) (uint (block_sectors s))) :: u32);
            sector_in_block = (of_int (int64_mod (acb_sector_num acb) (uint (block_sectors s))) :: u32);
            n_sectors = block_sectors s - sector_in_block;
            n_sectors = (if n_sectors > of_int (acb_nb_sectors acb)
                         then of_int (acb_nb_sectors acb) else n_sectors);
            acb1 = acb\<lparr> acb_n_sectors := sint n_sectors \<rparr>
        in
        if length (blockmap s) \<le> unat block_index then None
        else
          let blockmap_entry = le32_to_cpu be (blockmap s ! unat block_index) in
          if blockmap_entry = VDI_UNALLOCATED then
            let blockmap_entry = blocks_allocated (header s);
                s1 = s\<lparr> blockmap := (blockmap s)[unat block_index := cpu_to_le32 be blockmap_entry] \<rparr>;
                s2 = s1\<lparr> header := (header s1)\<lparr> blocks_allocated := blocks_allocated (header s1) + 1 \<rparr> \<rparr>;
                offset = unat (offset_data (header s2)) div SECTOR_SIZE
                         + unat blockmap_entry * unat (block_sectors s2);
                zeroed = replicate (unat (block_size s2) div SECTOR_SIZE) zero_sector
            in
            if length zeroed < unat sector_in_block + unat n_sectors then None
            else
              let block = memcpy_sectors zeroed (unat sector_in_block)
                            (take (unat n_sectors) (acb_buf acb1));
                  acb2 = acb1\<lparr> acb_block_buffer := Some block,
                               acb_blockmap_entry := blockmap_entry,
                               acb_state := aio_must_write_blockmap \<rparr>
              in Some (bs\<lparr> opaque := s2 \<rparr>, acb2,
                       bdrv_aio_writev submitted offset block (unat (block_sectors s2)) ret)
          else
            let offset = unat (offset_data (header s)) div SECTOR_SIZE
                         + unat blockmap_entry * unat (block_sectors s) + unat sector_in_block
            in Some (bs, acb1,
                     bdrv_aio_writev submitted offset (take (unat n_sectors) (acb_buf acb1))
                       (unat n_sectors) ret))"

text \<open>
  \<^verbatim>\<open>static void vdi_aio_write_cb(void *opaque, int ret)\<close>: the driver state and the
  control block after the call, and what the call ended with. In state
  \<^verbatim>\<open>aio_must_write_header\<close> the header is copied into the block buffer, which must
  be there and hold a sector.
\<close>

definition vdi_aio_write_cb ::
  "bool \<Rightarrow> bool \<Rightarrow> BlockDriverState \<Rightarrow> VdiAIOCB \<Rightarrow> int
     \<Rightarrow> (BlockDriverState \<times> VdiAIOCB \<times> aio_event) option" where
  "vdi_aio_write_cb be submitted bs acb ret =
     (let s = opaque bs in
      if ret < 0 then Some (bs, acb, Aio_done ret)
      else if acb_state acb = aio_must_write_blockmap then
        let blockmap_entry = acb_blockmap_entry acb AND NOT (of_nat (SECTOR_SIZE div 4 - 1));
            offset = unat (offset_blockmap (header s)) div SECTOR_SIZE
                     + unat blockmap_entry div (SECTOR_SIZE div 4);
            acb1 = acb\<lparr> acb_state := aio_must_write_header \<rparr>
        in Some (bs, acb1,
                 bdrv_aio_writev submitted offset
                   [blockmap_sector be (blockmap s) (after_blockmap s) (unat blockmap_entry)] 1 ret)
      else if acb_state acb = aio_must_write_header then
        (case acb_block_buffer acb of
           None \<Rightarrow> None
         | Some block \<Rightarrow>
             if block = [] then None
             else
               let s1 = s\<lparr> header := vdi_header_to_le be (header s) \<rparr>;
                   block1 = memcpy_sectors block 0 [mem_of_VdiHeader be (header s1)];
                   s2 = s1\<lparr> header := vdi_header_to_cpu be (header s1) \<rparr>;
                   acb1 = acb\<lparr> acb_block_buffer := Some block1, acb_state := aio_header_written \<rparr>
               in Some (bs\<lparr> opaque := s2 \<rparr>, acb1,
                        bdrv_aio_writev submitted 0 (take 1 block1) 1 ret))
      else if acb_state acb = aio_header_written then
        vdi_aio_write_next be submitted bs
          (acb\<lparr> acb_block_buffer := None, acb_state := aio_state_normal \<rparr>) ret
      else vdi_aio_write_next be submitted bs acb ret)"

text \<open>
  \<^verbatim>\<open>vdi_aio_writev\<close> sets the control block up and calls the callback with 0. From
  then on the block layer, which is not part of the driver, performs each submitted
  write on the host file and calls the callback with its result, until the request
  completes. \<open>fuel\<close> bounds the number of calls.
\<close>

fun aio_write_run ::
  "nat \<Rightarrow> bool \<Rightarrow> BlockDriverState \<Rightarrow> hostfile \<Rightarrow> VdiAIOCB \<Rightarrow> int
     \<Rightarrow> (int \<times> BlockDriverState \<times> hostfile) option" where
  "aio_write_run 0 be bs host acb ret = None"
| "aio_write_run (Suc fuel) be bs host acb ret =
     (case vdi_aio_write_cb be True bs acb ret of
        None \<Rightarrow> None
      | Some (bs1, acb1, Aio_done r) \<Rightarrow> Some (r, bs1, host)
      | Some (bs1, acb1, Aio_writev sector_num iov nb_sectors) \<Rightarrow>
          (case bdrv_write host sector_num iov nb_sectors of
             (r, host1) \<Rightarrow> aio_write_run fuel be bs1 host1 acb1 r))"

definition vdi_aio_writev ::
  "nat \<Rightarrow> bool \<Rightarrow> BlockDriverState \<Rightarrow> hostfile \<Rightarrow> int \<Rightarrow> sector list \<Rightarrow> int
     \<Rightarrow> (int \<times> BlockDriverState \<times> hostfile) option" where
  "vdi_aio_writev fuel be bs host sector_num qiov nb_sectors =
     aio_write_run fuel be bs host (vdi_aio_setup sector_num qiov nb_sectors) 0"

subsection \<open>Create\<close>

text \<open>
  \<^verbatim>\<open>QEMUOptionParameter\<close>: of an option the function reads \<^verbatim>\<open>name\<close> and
  \<^verbatim>\<open>value.n\<close>. The array ends at the first entry without a name and is a list
  here. \<^verbatim>\<open>BLOCK_OPT_SIZE\<close> is \<^verbatim>\<open>"size"\<close> in \<^verbatim>\<open>block_int.h\<close>.
\<close>

record QEMUOptionParameter =
  name :: string
  value_n :: u64

definition BLOCK_OPT_SIZE :: string where
  "BLOCK_OPT_SIZE = ''size''"

definition BLOCK_OPT_STATIC :: string where
  "BLOCK_OPT_STATIC = ''static''"

text \<open>
  The loop \<^verbatim>\<open>while (options && options->name) { ... options++; }\<close> over the
  variables \<^verbatim>\<open>bytes\<close> and \<^verbatim>\<open>image_type\<close> (\<open>img_type\<close>).
\<close>

fun read_options :: "QEMUOptionParameter list \<Rightarrow> u64 \<times> u32 \<Rightarrow> u64 \<times> u32" where
  "read_options [] (bytes, img_type) = (bytes, img_type)"
| "read_options (opt # options) (bytes, img_type) =
     read_options options
       (if name opt = BLOCK_OPT_SIZE then (value_n opt, img_type)
        else if name opt = BLOCK_OPT_STATIC then (bytes, VDI_TYPE_STATIC)
        else (bytes, img_type))"

text \<open>\<^verbatim>\<open>memset(&header, 0, sizeof(header))\<close>\<close>

definition zero_VdiHeader :: VdiHeader where
  "zero_VdiHeader =
     \<lparr> hdr_text = replicate 64 0, signature = 0, version = 0, header_size = 0,
       image_type = 0, image_flags = 0, description = replicate 256 0,
       offset_blockmap = 0, offset_data = 0, cylinders = 0, heads = 0, sectors = 0,
       sector_size = 0, unused1 = 0, disk_size = 0, block_size = 0, block_extra = 0,
       blocks_in_image = 0, blocks_allocated = 0,
       uuid_image = replicate 16 0, uuid_last_snap = replicate 16 0,
       uuid_link = replicate 16 0, uuid_parent = replicate 16 0,
       unused2 = replicate 7 0 \<rparr>"

text \<open>
  \<^verbatim>\<open>static int vdi_create(const char *filename, QEMUOptionParameter *options)\<close>.
  \<open>open_ok\<close> says whether \<^verbatim>\<open>open\<close> returned a descriptor; \<open>uuid1\<close> and \<open>uuid2\<close>
  are what \<^verbatim>\<open>uuid_generate\<close> puts into \<^verbatim>\<open>uuid_image\<close> and
  \<^verbatim>\<open>uuid_last_snap\<close>, 16 bytes each (zeros without \<^verbatim>\<open>HAVE_UUID_H\<close>). The result is the return
  code and the bytes of the file, which the two calls of \<^verbatim>\<open>write\<close> leave in the
  truncated file; their results are not checked by the code. \<^verbatim>\<open>size_t\<close> has 64 bits.
\<close>

definition vdi_create ::
  "bool \<Rightarrow> bool \<Rightarrow> QEMUOptionParameter list \<Rightarrow> byte list \<Rightarrow> byte list \<Rightarrow> int \<times> byte list" where
  "vdi_create be open_ok options uuid1 uuid2 =
     (let block_size = 1 * MiB;
          (bytes, image_type) = read_options options (0, VDI_TYPE_DYNAMIC)
      in
      if \<not> open_ok then (- 1, [])
      else
        let blocks = (ucast (bytes div of_nat block_size) :: u32);
            blockmap_size = unat blocks * 4;
            blockmap_size = ((blockmap_size + SECTOR_SIZE - 1) div SECTOR_SIZE) * SECTOR_SIZE;
            header = zero_VdiHeader
              \<lparr> hdr_text := fixed 64 VDI_TEXT,
                signature := VDI_SIGNATURE,
                version := VDI_VERSION_1_1,
                header_size := 0x180,
                image_type := image_type,
                offset_blockmap := 0x200,
                offset_data := of_nat (0x200 + blockmap_size),
                sector_size := of_nat SECTOR_SIZE,
                disk_size := bytes,
                VdiHeader.block_size := of_nat block_size,
                blocks_in_image := blocks,
                uuid_image := fixed 16 uuid1,
                uuid_last_snap := fixed 16 uuid2 \<rparr>;
            header = vdi_header_to_le be header;
            blockmap = fixed blockmap_size (concat (replicate (unat blocks) (mem32 be VDI_UNALLOCATED)))
        in (0, mem_of_VdiHeader be header @ blockmap))"

subsection \<open>Notions used in the statements\<close>

text \<open>The arrays of a header have the sizes that the structure declares.\<close>

definition VdiHeader_sized :: "VdiHeader \<Rightarrow> bool" where
  "VdiHeader_sized h \<longleftrightarrow>
     length (hdr_text h) = 64 \<and> length (description h) = 256 \<and>
     length (uuid_image h) = 16 \<and> length (uuid_last_snap h) = 16 \<and>
     length (uuid_link h) = 16 \<and> length (uuid_parent h) = 16 \<and> length (unused2 h) = 7"

text \<open>
  The header that \<^verbatim>\<open>vdi_open\<close> finds in sector 0 of a host file, after
  \<^verbatim>\<open>vdi_header_to_cpu\<close>.
\<close>

definition header_read :: "bool \<Rightarrow> hostfile \<Rightarrow> VdiHeader" where
  "header_read be host = vdi_header_to_cpu be (VdiHeader_of_mem be (disk host 0))"

text \<open>
  The header that \<^verbatim>\<open>vdi_create\<close> writes for a dynamic image of 2 MiB (with zero
  UUIDs), and a host file with a given header in sector 0, a block map of two
  unallocated entries in sector 1, and no faults.
\<close>

definition example_header :: VdiHeader where
  "example_header = zero_VdiHeader
     \<lparr> hdr_text := fixed 64 VDI_TEXT, signature := VDI_SIGNATURE, version := VDI_VERSION_1_1,
       header_size := 0x180, image_type := VDI_TYPE_DYNAMIC, offset_blockmap := 0x200,
       offset_data := 0x400, sector_size := 512, disk_size := 0x200000,
       VdiHeader.block_size := 0x100000, blocks_in_image := 2 \<rparr>"

definition example_file :: "VdiHeader \<Rightarrow> hostfile" where
  "example_file h =
     \<lparr> disk = (\<lambda>i. if i = 0 then mem_of_VdiHeader False (vdi_header_to_le False h)
                   else if i = 1 then replicate 8 0xff @ replicate 504 0
                   else zero_sector),
       faults = [], trace = [] \<rparr>"

text \<open>
  The driver state of an image of \<open>n\<close> blocks with the layout that \<^verbatim>\<open>vdi_create\<close>
  gives it, with a given block map and allocation counter, and a host file with given
  sectors and a given script of faults.
\<close>

definition example_state :: "nat \<Rightarrow> u32 list \<Rightarrow> u32 \<Rightarrow> BlockDriverState" where
  "example_state n bmap allocated =
     \<lparr> total_sectors = int (n * 2048),
       opaque =
         \<lparr> blockmap = bmap, after_blockmap = (\<lambda>j. 0),
           block_size = 0x100000, block_sectors = 2048,
           header = example_header
             \<lparr> offset_data := of_nat (0x200 + ((n * 4 + 511) div 512) * 512),
               disk_size := of_nat (n * 0x100000),
               blocks_in_image := of_nat n,
               blocks_allocated := allocated \<rparr> \<rparr> \<rparr>"

definition example_host :: "(nat \<Rightarrow> sector) \<Rightarrow> bool list \<Rightarrow> hostfile" where
  "example_host d fs = \<lparr> disk = d, faults = fs, trace = [] \<rparr>"

text \<open>
  The driver state once a new block has been reserved for \<open>block_index\<close>: the map
  entry holds the former \<open>blocks_allocated\<close>, and \<open>blocks_allocated\<close> is one more.
\<close>

definition allocated_state :: "bool \<Rightarrow> BlockDriverState \<Rightarrow> nat \<Rightarrow> BlockDriverState" where
  "allocated_state be bs block_index =
     bs\<lparr> opaque := (opaque bs)
       \<lparr> blockmap := (blockmap (opaque bs))
            [block_index := cpu_to_le32 be (blocks_allocated (header (opaque bs)))],
         header := (header (opaque bs))
            \<lparr> blocks_allocated := blocks_allocated (header (opaque bs)) + 1 \<rparr> \<rparr> \<rparr>"

text \<open>The three writes of an allocation, in the order in which the code issues them.\<close>

definition data_write :: "BlockDriverState \<Rightarrow> hostfile \<Rightarrow> nat \<Rightarrow> sector list \<Rightarrow> nat \<Rightarrow> int \<times> hostfile" where
  "data_write bs host sector_in_block buf n_sectors =
     bdrv_write host
       (unat (offset_data (header (opaque bs))) div SECTOR_SIZE
        + unat (blocks_allocated (header (opaque bs))) * unat (block_sectors (opaque bs)))
       (memcpy_sectors (replicate (unat (block_size (opaque bs)) div SECTOR_SIZE) zero_sector)
          sector_in_block (take n_sectors buf))
       (unat (block_sectors (opaque bs)))"

definition map_write :: "bool \<Rightarrow> BlockDriverState \<Rightarrow> hostfile \<Rightarrow> nat \<Rightarrow> int \<times> hostfile" where
  "map_write be bs host block_index =
     bdrv_write host
       (unat (offset_blockmap (header (opaque bs))) div SECTOR_SIZE
        + unat (blocks_allocated (header (opaque bs)) AND NOT 127) div 128)
       [blockmap_sector be (blockmap (opaque (allocated_state be bs block_index)))
          (after_blockmap (opaque bs))
          (unat (blocks_allocated (header (opaque bs)) AND NOT 127))]
       1"

definition header_write :: "bool \<Rightarrow> BlockDriverState \<Rightarrow> hostfile \<Rightarrow> nat \<Rightarrow> int \<times> hostfile" where
  "header_write be bs host block_index =
     bdrv_write host 0
       [mem_of_VdiHeader be (vdi_header_to_le be (header (opaque (allocated_state be bs block_index))))]
       1"

text \<open>
  The block map entry of logical block \<open>i\<close> in host byte order, the number of
  entries that are not \<^verbatim>\<open>VDI_UNALLOCATED\<close>, and the first sector of the data region.
\<close>

definition entry :: "bool \<Rightarrow> BlockDriverState \<Rightarrow> nat \<Rightarrow> u32" where
  "entry be bs i = le32_to_cpu be (blockmap (opaque bs) ! i)"

definition count_allocated :: "bool \<Rightarrow> BlockDriverState \<Rightarrow> nat" where
  "count_allocated be bs =
     length (filter (\<lambda>e. le32_to_cpu be e \<noteq> VDI_UNALLOCATED) (blockmap (opaque bs)))"

definition data_start :: "BlockDriverState \<Rightarrow> nat" where
  "data_start bs = unat (offset_data (header (opaque bs))) div SECTOR_SIZE"

definition map_start :: "BlockDriverState \<Rightarrow> nat" where
  "map_start bs = unat (offset_blockmap (header (opaque bs))) div SECTOR_SIZE"

text \<open>
  The sector of the host file that backs logical sector \<open>i\<close> of an allocated block,
  and the content of logical sector \<open>i\<close> as the block map and the host file give it:
  zeros for an unallocated block.
\<close>

definition physical_sector :: "bool \<Rightarrow> BlockDriverState \<Rightarrow> nat \<Rightarrow> nat" where
  "physical_sector be bs i =
     data_start bs
     + unat (entry be bs (i div unat (block_sectors (opaque bs)))) * unat (block_sectors (opaque bs))
     + i mod unat (block_sectors (opaque bs))"

definition sector_view :: "bool \<Rightarrow> BlockDriverState \<Rightarrow> hostfile \<Rightarrow> nat \<Rightarrow> sector" where
  "sector_view be bs host i =
     (if entry be bs (i div unat (block_sectors (opaque bs))) = VDI_UNALLOCATED then zero_sector
      else disk host (physical_sector be bs i))"

text \<open>
  A well-formed opened image. The block size is that of the header check of
  \<^verbatim>\<open>vdi_open\<close> in sectors, the block map covers the disk and has one entry per block
  of the header, \<open>blocks_allocated\<close> counts the entries that are allocated, an
  allocated entry is a physical index below \<open>blocks_allocated\<close>, no two logical blocks
  share a physical block, and the header sector, the block map and the data region
  follow each other in the file.
\<close>

definition image_wf :: "bool \<Rightarrow> BlockDriverState \<Rightarrow> bool" where
  "image_wf be bs \<longleftrightarrow>
     0 < unat (block_sectors (opaque bs)) \<and>
     unat (block_size (opaque bs)) div SECTOR_SIZE = unat (block_sectors (opaque bs)) \<and>
     total_sectors bs \<le> int (length (blockmap (opaque bs)) * unat (block_sectors (opaque bs))) \<and>
     length (blockmap (opaque bs)) = unat (blocks_in_image (header (opaque bs))) \<and>
     unat (blocks_allocated (header (opaque bs))) = count_allocated be bs \<and>
     (\<forall>i < length (blockmap (opaque bs)).
        entry be bs i \<noteq> VDI_UNALLOCATED \<longrightarrow>
          unat (entry be bs i) < unat (blocks_allocated (header (opaque bs)))) \<and>
     (\<forall>i < length (blockmap (opaque bs)). \<forall>j < length (blockmap (opaque bs)).
        entry be bs i \<noteq> VDI_UNALLOCATED \<longrightarrow> entry be bs i = entry be bs j \<longrightarrow> i = j) \<and>
     0 < map_start bs \<and>
     map_start bs + (length (blockmap (opaque bs)) + 127) div 128 \<le> data_start bs"

text \<open>
  A host operation that reads sectors of allocated blocks only: it is the read of \<open>n\<close>
  sectors from the physical place of logical sector \<open>i\<close>, the logical sectors
  \<open>i\<close> to \<open>i + n\<close> lie between \<open>lo\<close> and \<open>hi\<close>, and the block of each of them is
  allocated.
\<close>

definition reads_allocated :: "bool \<Rightarrow> BlockDriverState \<Rightarrow> nat \<Rightarrow> nat \<Rightarrow> io_op \<Rightarrow> bool" where
  "reads_allocated be bs lo hi op \<longleftrightarrow>
     (\<exists>i n. op = Read_op (physical_sector be bs i) n \<and> lo \<le> i \<and> i + n \<le> hi \<and> 0 < n \<and>
        (\<forall>j < n. entry be bs ((i + j) div unat (block_sectors (opaque bs))) \<noteq> VDI_UNALLOCATED))"

text \<open>
  The allocation counter agrees with the block map: the map has the number of entries
  that the header gives, and \<open>blocks_allocated\<close> is the number of entries that are not
  \<^verbatim>\<open>VDI_UNALLOCATED\<close>. One allocation takes a state to the allocated state of a
  block that was unallocated.
\<close>

definition allocation_consistent :: "bool \<Rightarrow> BlockDriverState \<Rightarrow> bool" where
  "allocation_consistent be bs \<longleftrightarrow>
     length (blockmap (opaque bs)) = unat (blocks_in_image (header (opaque bs))) \<and>
     unat (blocks_allocated (header (opaque bs))) = count_allocated be bs"

definition alloc_step :: "bool \<Rightarrow> BlockDriverState \<Rightarrow> BlockDriverState \<Rightarrow> bool" where
  "alloc_step be bs bs' \<longleftrightarrow>
     (\<exists>bi < length (blockmap (opaque bs)).
        entry be bs bi = VDI_UNALLOCATED \<and> bs' = allocated_state be bs bi)"

text \<open>
  A sequence of calls of \<^verbatim>\<open>vdi_write\<close>, each with its sector number, buffer and
  sector count; the caller goes on after a call that returns an error.
\<close>

fun vdi_writes ::
  "bool \<Rightarrow> BlockDriverState \<Rightarrow> hostfile \<Rightarrow> (int \<times> sector list \<times> int) list
     \<Rightarrow> (BlockDriverState \<times> hostfile) option" where
  "vdi_writes be bs host [] = Some (bs, host)"
| "vdi_writes be bs host (req # reqs) =
     (case vdi_write be bs host (fst req) (fst (snd req)) (snd (snd req)) of
        None \<Rightarrow> None
      | Some res \<Rightarrow> vdi_writes be (fst (snd res)) (snd (snd res)) reqs)"

text \<open>
  A host file whose every byte is \<^verbatim>\<open>0xff\<close>: each block map entry read from it is
  \<^verbatim>\<open>VDI_UNALLOCATED\<close>.
\<close>

definition erased_disk :: "nat \<Rightarrow> sector" where
  "erased_disk i = replicate SECTOR_SIZE 0xff"

text \<open>
  A write followed by a read of the same range on the state and the host file that the
  write leaves: the two return codes and the buffer read.
\<close>

definition vdi_write_then_read ::
  "bool \<Rightarrow> BlockDriverState \<Rightarrow> hostfile \<Rightarrow> int \<Rightarrow> sector list \<Rightarrow> int \<Rightarrow> sector list
     \<Rightarrow> (int \<times> int \<times> sector list) option" where
  "vdi_write_then_read be bs host sector_num buf nb_sectors dst =
     (case vdi_write be bs host sector_num buf nb_sectors of
        None \<Rightarrow> None
      | Some (r, bs', host') \<Rightarrow>
          (case vdi_read be bs' host' sector_num dst nb_sectors of
             None \<Rightarrow> None
           | Some (r', out, host'') \<Rightarrow> Some (r, r', out)))"

text \<open>
  Memory that holds 0 in every entry but entry 1, which holds \<^verbatim>\<open>0xffffffff\<close>: one of
  the contents that \<^verbatim>\<open>qemu_malloc\<close> may return.
\<close>

definition stale_memory :: "nat \<Rightarrow> u32" where
  "stale_memory i = (if i = 1 then VDI_UNALLOCATED else 0)"

text \<open>
  The host file that \<^verbatim>\<open>vdi_create\<close> leaves for a dynamic image of \<open>n\<close> blocks of
  1 MiB, \<open>n\<close> a multiple of 128, without \<^verbatim>\<open>HAVE_UUID_H\<close>: the header in sector 0,
  then \<open>n div 128\<close> block map sectors in which every entry is \<^verbatim>\<open>VDI_UNALLOCATED\<close>,
  and no data.
\<close>

definition fresh_image :: "nat \<Rightarrow> hostfile" where
  "fresh_image n =
     \<lparr> disk = (\<lambda>i. if i = 0
                   then mem_of_VdiHeader False
                          (vdi_header_to_le False (header (opaque (example_state n [] 0))))
                   else if i \<le> n div 128 then replicate SECTOR_SIZE 0xff
                   else zero_sector),
       faults = [], trace = [] \<rparr>"

section \<open>Properties\<close>

subsection \<open>Byte order\<close>

lemma word_of_le32_le_bytes32 [simp]: "word_of_le32 (le_bytes32 w) = w"
proof (rule bit_word_eqI)
  fix n assume "n < LENGTH(32)"
  then consider "n < 8" | "8 \<le> n" "n < 16" | "16 \<le> n" "n < 24" | "24 \<le> n" "n < 32"
    by fastforce
  then show "bit (word_of_le32 (le_bytes32 w)) n = bit w n"
    by cases (simp_all add: le_bytes32_def word_of_le32_def bit_simps, linarith+)
qed

lemma le_bytes32_word_of_le32_4: "le_bytes32 (word_of_le32 [a, b, c, d]) = [a, b, c, d]"
  unfolding le_bytes32_def word_of_le32_def
  apply simp
  apply (intro conjI; rule bit_word_eqI; simp add: bit_simps)
  apply (auto dest: bit_imp_le_length)
  done

lemma list4: "length bs = 4 \<Longrightarrow> \<exists>a b c d. bs = [a, b, c, d]"
  by (cases bs; simp; cases "tl bs"; simp; cases "tl (tl bs)"; simp; cases "tl (tl (tl bs))"; simp)

lemma le_bytes32_word_of_le32 [simp]: "length bs = 4 \<Longrightarrow> le_bytes32 (word_of_le32 bs) = bs"
  using list4 [of bs] by (auto simp: le_bytes32_word_of_le32_4)

lemma length_le_bytes32 [simp]: "length (le_bytes32 w) = 4"
  by (simp add: le_bytes32_def)

lemma length_le_bytes64 [simp]: "length (le_bytes64 w) = 8"
  by (simp add: le_bytes64_def)

lemma u64_halves: "ucast (ucast w :: u32) OR push_bit 32 (ucast (ucast (drop_bit 32 w) :: u32)) = (w :: u64)"
  by (rule bit_word_eqI) (auto simp add: bit_simps)

lemma u64_low: "(ucast (ucast a OR push_bit 32 (ucast b) :: u64) :: u32) = (a :: u32)"
  by (rule bit_word_eqI) (auto simp add: bit_simps)

lemma u64_high: "(ucast (drop_bit 32 (ucast (a :: u32) OR push_bit 32 (ucast b) :: u64)) :: u32) = (b :: u32)"
proof (rule bit_word_eqI)
  fix n assume "n < LENGTH(32)"
  moreover have "\<not> bit a (32 + n)"
    using bit_imp_le_length [of a "32 + n"] by auto
  ultimately show "bit (ucast (drop_bit 32 (ucast a OR push_bit 32 (ucast b) :: u64)) :: u32) n = bit b n"
    by (simp add: bit_simps)
qed

lemma word_of_le64_le_bytes64 [simp]: "word_of_le64 (le_bytes64 w) = w"
  by (simp add: word_of_le64_def le_bytes64_def u64_halves)

lemma le_bytes64_word_of_le64 [simp]: "length bs = 8 \<Longrightarrow> le_bytes64 (word_of_le64 bs) = bs"
  unfolding word_of_le64_def le_bytes64_def u64_low u64_high by simp

lemma bswap32_bswap32 [simp]: "bswap32 (bswap32 x) = x"
  by (simp add: bswap32_def)

lemma bswap64_bswap64 [simp]: "bswap64 (bswap64 x) = x"
  by (simp add: bswap64_def)

lemma le32_to_cpu_cpu_to_le32 [simp]: "le32_to_cpu be (cpu_to_le32 be x) = x"
  by (simp add: le32_to_cpu_def cpu_to_le32_def)

lemma cpu_to_le32_le32_to_cpu [simp]: "cpu_to_le32 be (le32_to_cpu be x) = x"
  by (simp add: le32_to_cpu_def cpu_to_le32_def)

lemma le64_to_cpu_cpu_to_le64 [simp]: "le64_to_cpu be (cpu_to_le64 be x) = x"
  by (simp add: le64_to_cpu_def cpu_to_le64_def)

lemma cpu_to_le64_le64_to_cpu [simp]: "cpu_to_le64 be (le64_to_cpu be x) = x"
  by (simp add: le64_to_cpu_def cpu_to_le64_def)

lemma mem32_cpu_to_le32: "mem32 be (cpu_to_le32 be v) = le_bytes32 v"
  by (simp add: mem32_def cpu_to_le32_def bswap32_def)

lemma length_mem32 [simp]: "length (mem32 be w) = 4"
  by (simp add: mem32_def)

lemma length_mem64 [simp]: "length (mem64 be w) = 8"
  by (simp add: mem64_def)

lemma length_fixed [simp]: "length (fixed n xs) = n"
  by (simp add: fixed_def)

lemma le32_to_cpu_ld32:
  "length (segment off 4 m) = 4 \<Longrightarrow> le32_to_cpu be (ld32 be m off) = word_of_le32 (segment off 4 m)"
  by (simp add: le32_to_cpu_def ld32_def bswap32_def)

subsection \<open>Probe\<close>

lemma size_t_of_int_nat: "n < 2 ^ 31 \<Longrightarrow> size_t_of_int (int n) = n"
proof -
  assume "n < 2 ^ 31"
  then have "int n < 2 ^ 31"
    by simp
  also have "(2 :: int) ^ 31 < 2 ^ 64"
    by simp
  finally have "int n mod 2 ^ 64 = int n"
    by simp
  then show ?thesis
    by (simp add: size_t_of_int_def)
qed

lemma length_segment: "off + len \<le> length xs \<Longrightarrow> length (segment off len xs) = len"
  by (simp add: segment_def)

lemma vdi_probe_range: "vdi_probe be buf buf_size \<in> {0, 100}"
  by (simp add: vdi_probe_def Let_def)

lemma signature_of_mem:
  "sizeof_VdiHeader \<le> length buf \<Longrightarrow>
   le32_to_cpu be (signature (VdiHeader_of_mem be buf)) = word_of_le32 (segment 64 4 buf)"
  by (simp add: VdiHeader_of_mem_def le32_to_cpu_ld32 length_segment)

lemma vdi_probe_eq:
  assumes "length buf < 2 ^ 31"
  shows "vdi_probe be buf (int (length buf)) =
    (if sizeof_VdiHeader \<le> length buf \<and> word_of_le32 (segment 64 4 buf) = VDI_SIGNATURE
     then 100 else 0)"
  using assms by (simp add: vdi_probe_def Let_def size_t_of_int_nat signature_of_mem)

lemma vdi_probe_64: "vdi_probe be buf 64 = 0"
  by (simp add: vdi_probe_def Let_def size_t_of_int_def)

lemma segment_mem_signature:
  "segment 64 4 (mem_of_VdiHeader be h) = mem32 be (signature h)"
  by (simp add: mem_of_VdiHeader_def segment_def)

lemma length_mem_of_VdiHeader [simp]: "length (mem_of_VdiHeader be h) = sizeof_VdiHeader"
  by (simp add: mem_of_VdiHeader_def)

lemma signature_vdi_header_to_le: "signature (vdi_header_to_le be h) = cpu_to_le32 be (signature h)"
  by (simp add: vdi_header_to_le_def)

lemma vdi_create_header:
  "take sizeof_VdiHeader (snd (vdi_create be True options uuid1 uuid2)) =
     mem_of_VdiHeader be (vdi_header_to_le be
       (zero_VdiHeader
              \<lparr> hdr_text := fixed 64 VDI_TEXT,
                signature := VDI_SIGNATURE,
                version := VDI_VERSION_1_1,
                header_size := 0x180,
                image_type := snd (read_options options (0, VDI_TYPE_DYNAMIC)),
                offset_blockmap := 0x200,
                offset_data := of_nat (0x200 + ((unat (ucast (fst (read_options options (0, VDI_TYPE_DYNAMIC)) div of_nat (1 * MiB)) :: u32) * 4 + SECTOR_SIZE - 1) div SECTOR_SIZE) * SECTOR_SIZE),
                sector_size := of_nat SECTOR_SIZE,
                disk_size := fst (read_options options (0, VDI_TYPE_DYNAMIC)),
                VdiHeader.block_size := of_nat (1 * MiB),
                blocks_in_image := ucast (fst (read_options options (0, VDI_TYPE_DYNAMIC)) div of_nat (1 * MiB)),
                uuid_image := fixed 16 uuid1,
                uuid_last_snap := fixed 16 uuid2 \<rparr>))"
  by (simp add: vdi_create_def Let_def split: prod.splits)

lemma vdi_probe_vdi_create:
  "vdi_probe be (take sizeof_VdiHeader (snd (vdi_create be True options uuid1 uuid2))) 512 = 100"
  unfolding vdi_create_header
  using vdi_probe_eq [of "mem_of_VdiHeader be h" be for h]
  by (simp add: segment_mem_signature signature_vdi_header_to_le mem32_cpu_to_le32)

text \<open>
  Claim C9. For every buffer and every buffer size \<^verbatim>\<open>vdi_probe\<close> returns 0 or 100 and
  nothing in between. For a buffer of the size it is passed with (a C \<^verbatim>\<open>int\<close>, so
  below \<open>2 ^ 31\<close>) the result is 100 when the buffer is at least as large as the header
  structure and the four bytes at offset 64, read as a little-endian integer, are the
  signature \<^verbatim>\<open>0xbeda107f\<close>; in every other case, and so for every buffer shorter
  than the header structure, it is 0. The byte order of the host does not matter.
\<close>

theorem vdi_probe_zero_or_hundred:
  "vdi_probe be buf buf_size \<in> {0, 100} \<and>
   (length buf < 2 ^ 31 \<longrightarrow>
      vdi_probe be buf (int (length buf)) =
        (if sizeof_VdiHeader \<le> length buf \<and> word_of_le32 (segment 64 4 buf) = VDI_SIGNATURE
         then 100 else 0))"
  using vdi_probe_range [of be buf buf_size] by (simp add: vdi_probe_eq)

theorem vdi_probe_zero_or_hundred_witness:
  "length (replicate 64 (0 :: byte) @ [0x7f, 0x10, 0xda, 0xbe] @ replicate 500 0) < 2 ^ 31 \<and>
   vdi_probe True (replicate 64 0 @ [0x7f, 0x10, 0xda, 0xbe] @ replicate 500 0) 568 = 100 \<and>
   length (replicate 64 (0 :: byte) @ [0x7f, 0x10, 0xda, 0xbf] @ replicate 500 0) < 2 ^ 31 \<and>
   vdi_probe True (replicate 64 0 @ [0x7f, 0x10, 0xda, 0xbf] @ replicate 500 0) 568 = 0 \<and>
   length (replicate 64 (0 :: byte) @ [0x7f, 0x10, 0xda, 0xbe] @ replicate 400 0) < 2 ^ 31 \<and>
   vdi_probe True (replicate 64 0 @ [0x7f, 0x10, 0xda, 0xbe] @ replicate 400 0) 468 = 0"
  using vdi_probe_zero_or_hundred
          [of True "replicate 64 0 @ [0x7f, 0x10, 0xda, 0xbe] @ replicate 500 0" 0]
        vdi_probe_zero_or_hundred
          [of True "replicate 64 0 @ [0x7f, 0x10, 0xda, 0xbf] @ replicate 500 0" 0]
        vdi_probe_zero_or_hundred
          [of True "replicate 64 0 @ [0x7f, 0x10, 0xda, 0xbe] @ replicate 400 0" 0]
  by (simp add: segment_def word_of_le32_def VDI_SIGNATURE_def)

text \<open>
  Claim C3, as the spec states it: the result is 100 if and only if the buffer has at
  least the size of the header and both the signature and the version match. The code
  does not look at the version: a buffer of 512 bytes with the right signature and the
  version 0 is given 100.
\<close>

theorem vdi_probe_version_counterexample:
  "\<not> (vdi_probe False (replicate 64 0 @ [0x7f, 0x10, 0xda, 0xbe] @ replicate 444 0) 512 = 100
       \<longleftrightarrow>
      sizeof_VdiHeader \<le> length (replicate 64 (0 :: byte) @ [0x7f, 0x10, 0xda, 0xbe] @ replicate 444 0)
      \<and> word_of_le32 (segment 64 4 (replicate 64 0 @ [0x7f, 0x10, 0xda, 0xbe] @ replicate 444 0))
          = VDI_SIGNATURE
      \<and> word_of_le32 (segment 68 4 (replicate 64 0 @ [0x7f, 0x10, 0xda, 0xbe] @ replicate 444 0))
          = VDI_VERSION_1_1)"
proof -
  have "vdi_probe False (replicate 64 0 @ [0x7f, 0x10, 0xda, 0xbe] @ replicate 444 0) 512 = 100"
    using vdi_probe_eq [of "replicate 64 0 @ [0x7f, 0x10, 0xda, 0xbe] @ replicate 444 0" False]
    by (simp add: segment_def word_of_le32_def VDI_SIGNATURE_def)
  moreover
  have "word_of_le32 (segment 68 4 (replicate 64 0 @ [0x7f, 0x10, 0xda, 0xbe] @ replicate 444 0))
          \<noteq> VDI_VERSION_1_1"
    by (simp add: segment_def word_of_le32_def VDI_VERSION_1_1_def)
  ultimately show ?thesis
    by simp
qed

text \<open>
  Claim C3, amended. \<^verbatim>\<open>vdi_probe\<close> returns 100 if and only if the buffer has at
  least the size of the header structure and its signature field is \<^verbatim>\<open>0xbeda107f\<close>;
  the version field is not examined. The header of every image that \<^verbatim>\<open>vdi_create\<close>
  writes is given 100, whatever the options, and a buffer of 64 bytes is given 0,
  whatever it holds.
\<close>

theorem vdi_probe_signature_only:
  "(length buf < 2 ^ 31 \<longrightarrow>
      (vdi_probe be buf (int (length buf)) = 100 \<longleftrightarrow>
         sizeof_VdiHeader \<le> length buf \<and> word_of_le32 (segment 64 4 buf) = VDI_SIGNATURE)) \<and>
   vdi_probe be (take sizeof_VdiHeader (snd (vdi_create be True options uuid1 uuid2))) 512 = 100 \<and>
   vdi_probe be buf 64 = 0"
  by (simp add: vdi_probe_eq vdi_probe_vdi_create vdi_probe_64)

theorem vdi_probe_signature_only_witness:
  "length (replicate 64 (0 :: byte) @ [0x7f, 0x10, 0xda, 0xbe, 2, 0, 1, 0] @ replicate 440 0) < 2 ^ 31 \<and>
   vdi_probe False (replicate 64 0 @ [0x7f, 0x10, 0xda, 0xbe, 2, 0, 1, 0] @ replicate 440 0) 512 = 100 \<and>
   sizeof_VdiHeader \<le> length (replicate 64 (0 :: byte) @ [0x7f, 0x10, 0xda, 0xbe, 2, 0, 1, 0] @ replicate 440 0) \<and>
   word_of_le32 (segment 64 4 (replicate 64 0 @ [0x7f, 0x10, 0xda, 0xbe, 2, 0, 1, 0] @ replicate 440 0))
     = VDI_SIGNATURE"
  using vdi_probe_signature_only
          [of "replicate 64 0 @ [0x7f, 0x10, 0xda, 0xbe, 2, 0, 1, 0] @ replicate 440 0" False]
  by (simp add: segment_def word_of_le32_def VDI_SIGNATURE_def)

subsection \<open>The header in memory\<close>

lemma ld32_mem32: "segment off 4 m = mem32 be x \<Longrightarrow> ld32 be m off = x"
  by (simp add: ld32_def mem32_def)

lemma ld64_mem64: "segment off 8 m = mem64 be x \<Longrightarrow> ld64 be m off = x"
  by (simp add: ld64_def mem64_def)

lemma fixed_id: "length xs = n \<Longrightarrow> fixed n xs = xs"
  by (simp add: fixed_def)

lemma list7: "length xs = 7 \<Longrightarrow> \<exists>a b c d e f g. xs = [a, b, c, d, e, f, g]"
  by (auto simp: length_Suc_conv eval_nat_numeral)

lemma upt7: "[0..<7] = [0, 1, 2, 3, 4, 5, 6]"
  by (simp add: upt_rec)

lemma VdiHeader_of_mem_mem_of_VdiHeader:
  assumes "VdiHeader_sized h"
  shows "VdiHeader_of_mem be (mem_of_VdiHeader be h) = h"
proof -
  obtain a b c d e f g where u: "unused2 h = [a, b, c, d, e, f, g]"
    using assms list7 [of "unused2 h"] by (auto simp: VdiHeader_sized_def)
  note [simp] = fixed_id segment_def
  let ?m = "mem_of_VdiHeader be h"
  have m: "?m = hdr_text h @ mem32 be (signature h) @ mem32 be (version h)
     @ mem32 be (header_size h) @ mem32 be (image_type h) @ mem32 be (image_flags h)
     @ description h
     @ mem32 be (offset_blockmap h) @ mem32 be (offset_data h) @ mem32 be (cylinders h)
     @ mem32 be (heads h) @ mem32 be (sectors h) @ mem32 be (sector_size h)
     @ mem32 be (unused1 h) @ mem64 be (disk_size h)
     @ mem32 be (VdiHeader.block_size h) @ mem32 be (block_extra h)
     @ mem32 be (blocks_in_image h) @ mem32 be (blocks_allocated h)
     @ uuid_image h @ uuid_last_snap h @ uuid_link h @ uuid_parent h
     @ mem64 be a @ mem64 be b @ mem64 be c @ mem64 be d @ mem64 be e @ mem64 be f @ mem64 be g"
    using assms by (simp add: mem_of_VdiHeader_def VdiHeader_sized_def u)
  have l: "length (hdr_text h) = 64" "length (description h) = 256"
     "length (uuid_image h) = 16" "length (uuid_last_snap h) = 16"
     "length (uuid_link h) = 16" "length (uuid_parent h) = 16"
    using assms by (simp_all add: VdiHeader_sized_def)
  show ?thesis
    unfolding m
    by (rule VdiHeader.equality; simp add: VdiHeader_of_mem_def l ld32_mem32 ld64_mem64 upt7 u)
qed

lemma vdi_header_to_cpu_to_le [simp]: "vdi_header_to_cpu be (vdi_header_to_le be h) = h"
  by (simp add: vdi_header_to_cpu_def vdi_header_to_le_def)

lemma vdi_header_to_le_to_cpu [simp]: "vdi_header_to_le be (vdi_header_to_cpu be h) = h"
  by (simp add: vdi_header_to_cpu_def vdi_header_to_le_def)

lemma VdiHeader_sized_to_le [simp]: "VdiHeader_sized (vdi_header_to_le be h) = VdiHeader_sized h"
  by (simp add: VdiHeader_sized_def vdi_header_to_le_def)

lemma header_round_trip:
  "VdiHeader_sized h \<Longrightarrow>
   vdi_header_to_cpu be (VdiHeader_of_mem be (mem_of_VdiHeader be (vdi_header_to_le be h))) = h"
  by (simp add: VdiHeader_of_mem_mem_of_VdiHeader)

subsection \<open>Open\<close>

lemma bdrv_read_cases:
  obtains host1 where "bdrv_read host off n = (- EIO, [], host1)"
  | host1 where "bdrv_read host off n = (0, map (disk host) [off ..< off + n], host1)"
  by (cases "fst (next_fault (faults host))") (simp_all add: bdrv_read_def Let_def)

lemma bdrv_read_no_faults:
  "faults host = [] \<Longrightarrow>
   bdrv_read host off n =
     (0, map (disk host) [off ..< off + n], host\<lparr> trace := trace host @ [Read_op off n] \<rparr>)"
  by (simp add: bdrv_read_def next_fault_def Let_def)

lemma vdi_open_accepts:
  assumes "faults host = []"
    and "version (header_read be host) = VDI_VERSION_1_1"
    and "unat (offset_blockmap (header_read be host)) mod SECTOR_SIZE = 0"
    and "unat (offset_data (header_read be host)) mod SECTOR_SIZE = 0"
    and "sector_size (header_read be host) = 512"
    and "VdiHeader.block_size (header_read be host) = 0x100000"
    and "disk_size (header_read be host) =
          ucast (blocks_in_image (header_read be host)) * ucast (VdiHeader.block_size (header_read be host))"
  shows "fst (vdi_open be (Inr host) uninit) = 0 \<and> snd (vdi_open be (Inr host) uninit) \<noteq> None"
proof -
  show ?thesis
    unfolding vdi_open_def
    using assms
    by (simp add: bdrv_read_no_faults header_read_def Let_def MiB_def KiB_def)
qed

lemma VdiHeader_sized_example [simp]:
  "VdiHeader_sized (example_header\<lparr> signature := x \<rparr>)"
  "VdiHeader_sized (example_header\<lparr> version := y \<rparr>)"
  by (simp_all add: VdiHeader_sized_def example_header_def zero_VdiHeader_def)

lemma header_read_example:
  "VdiHeader_sized h \<Longrightarrow> header_read False (example_file h) = h"
  by (simp add: header_read_def example_file_def header_round_trip)

text \<open>
  Claim C2, as the spec states it: \<^verbatim>\<open>vdi_open\<close> rejects every header whose
  signature is not \<^verbatim>\<open>0xbeda107f\<close>. The code never looks at the signature: the image
  whose header is the one of a fresh 2 MiB image, but with the signature 0, is opened
  with return code 0 and a driver state.
\<close>

theorem vdi_open_bad_signature_counterexample:
  "signature (header_read False (example_file (example_header\<lparr> signature := 0 \<rparr>))) \<noteq> VDI_SIGNATURE \<and>
   fst (vdi_open False (Inr (example_file (example_header\<lparr> signature := 0 \<rparr>))) (\<lambda>i. 0)) = 0 \<and>
   snd (vdi_open False (Inr (example_file (example_header\<lparr> signature := 0 \<rparr>))) (\<lambda>i. 0)) \<noteq> None"
proof -
  let ?h = "example_header\<lparr> signature := 0 \<rparr>"
  let ?H = "example_file ?h"
  have r: "header_read False ?H = ?h"
    by (simp add: header_read_example)
  have f: "faults ?H = []"
    by (simp add: example_file_def)
  have "signature (header_read False ?H) \<noteq> VDI_SIGNATURE"
    unfolding r by (simp add: VDI_SIGNATURE_def)
  moreover
  have "fst (vdi_open False (Inr ?H) (\<lambda>i. 0)) = 0 \<and> snd (vdi_open False (Inr ?H) (\<lambda>i. 0)) \<noteq> None"
    by (rule vdi_open_accepts [OF f]; unfold r; simp add: example_header_def zero_VdiHeader_def)
  ultimately show ?thesis
    by blast
qed

text \<open>
  Claim C2, amended. \<^verbatim>\<open>vdi_open\<close> fails with return code -1 and leaves no usable
  image for every header that violates one of the invariants it checks: a version other
  than \<^verbatim>\<open>0x00010001\<close>, a block map offset or a data offset that is not a multiple
  of 512, a sector size other than 512, a block size other than 1 MiB, or a disk size
  that is not \<open>blocks_in_image * block_size\<close>. The signature is not among the fields
  that \<^verbatim>\<open>vdi_open\<close> examines (\<^verbatim>\<open>vdi_probe\<close> examines it).
\<close>

theorem vdi_open_rejects:
  assumes "version (header_read be host) \<noteq> VDI_VERSION_1_1
     \<or> unat (offset_blockmap (header_read be host)) mod SECTOR_SIZE \<noteq> 0
     \<or> unat (offset_data (header_read be host)) mod SECTOR_SIZE \<noteq> 0
     \<or> sector_size (header_read be host) \<noteq> 512
     \<or> VdiHeader.block_size (header_read be host) \<noteq> 0x100000
     \<or> disk_size (header_read be host) \<noteq>
          ucast (blocks_in_image (header_read be host)) * ucast (VdiHeader.block_size (header_read be host))"
  shows "vdi_open be (Inr host) uninit = (- 1, None)"
proof (rule bdrv_read_cases [of host 0 1])
  fix host1 assume "bdrv_read host 0 1 = (- EIO, [], host1)"
  then show ?thesis
    by (simp add: vdi_open_def EIO_def)
next
  fix host1 assume "bdrv_read host 0 1 = (0, map (disk host) [0 ..< 0 + 1], host1)"
  then show ?thesis
    using assms by (auto simp add: vdi_open_def header_read_def Let_def MiB_def KiB_def)
qed

theorem vdi_open_rejects_witness:
  "version (header_read False (example_file (example_header\<lparr> version := 0x00010000 \<rparr>)))
     \<noteq> VDI_VERSION_1_1 \<and>
   vdi_open False (Inr (example_file (example_header\<lparr> version := 0x00010000 \<rparr>))) (\<lambda>i. 0)
     = (- 1, None)"
proof -
  let ?h = "example_header\<lparr> version := 0x00010000 \<rparr>"
  let ?H = "example_file ?h"
  have r: "header_read False ?H = ?h"
    by (simp add: header_read_example)
  have v: "version (header_read False ?H) \<noteq> VDI_VERSION_1_1"
    unfolding r by (simp add: VDI_VERSION_1_1_def)
  then have "vdi_open False (Inr ?H) (\<lambda>i. 0) = (- 1, None)"
    by (intro vdi_open_rejects) simp
  with v show ?thesis
    by simp
qed

subsection \<open>Create\<close>

lemma vdi_create_blockmap:
  "drop sizeof_VdiHeader (snd (vdi_create be True options uuid1 uuid2)) =
     fixed (((unat (ucast (fst (read_options options (0, VDI_TYPE_DYNAMIC)) div of_nat (1 * MiB)) :: u32) * 4 + SECTOR_SIZE - 1) div SECTOR_SIZE) * SECTOR_SIZE)
       (concat (replicate (unat (ucast (fst (read_options options (0, VDI_TYPE_DYNAMIC)) div of_nat (1 * MiB)) :: u32)) (mem32 be VDI_UNALLOCATED)))"
  by (simp add: vdi_create_def Let_def split: prod.splits)

lemma vdi_create_decode:
  "vdi_header_to_cpu be (VdiHeader_of_mem be (take sizeof_VdiHeader (snd (vdi_create be True options uuid1 uuid2)))) =
       (zero_VdiHeader
              \<lparr> hdr_text := fixed 64 VDI_TEXT,
                signature := VDI_SIGNATURE,
                version := VDI_VERSION_1_1,
                header_size := 0x180,
                image_type := snd (read_options options (0, VDI_TYPE_DYNAMIC)),
                offset_blockmap := 0x200,
                offset_data := of_nat (0x200 + ((unat (ucast (fst (read_options options (0, VDI_TYPE_DYNAMIC)) div of_nat (1 * MiB)) :: u32) * 4 + SECTOR_SIZE - 1) div SECTOR_SIZE) * SECTOR_SIZE),
                sector_size := of_nat SECTOR_SIZE,
                disk_size := fst (read_options options (0, VDI_TYPE_DYNAMIC)),
                VdiHeader.block_size := of_nat (1 * MiB),
                blocks_in_image := ucast (fst (read_options options (0, VDI_TYPE_DYNAMIC)) div of_nat (1 * MiB)),
                uuid_image := fixed 16 uuid1,
                uuid_last_snap := fixed 16 uuid2 \<rparr>)"
  unfolding vdi_create_header
  by (rule header_round_trip) (simp add: VdiHeader_sized_def zero_VdiHeader_def)

lemma blocks_2MiB: "(ucast ((0x200000 :: u64) div of_nat (1 * MiB)) :: u32) = 2"
  by (simp add: MiB_def KiB_def)

lemma blockmap_size_2: "((unat (2 :: u32) * 4 + SECTOR_SIZE - 1) div SECTOR_SIZE) * SECTOR_SIZE = 512"
  by simp

lemma mem32_VDI_UNALLOCATED: "mem32 be VDI_UNALLOCATED = [0xff, 0xff, 0xff, 0xff]"
  by (simp add: mem32_def le_bytes32_def VDI_UNALLOCATED_def)

lemma read_options_static: "read_options [\<lparr> name = ''size'', value_n = 0x200000 \<rparr>, \<lparr> name = ''static'', value_n = 1 \<rparr>] (0, VDI_TYPE_DYNAMIC) = (0x200000, VDI_TYPE_STATIC)"
    by (simp add: BLOCK_OPT_SIZE_def BLOCK_OPT_STATIC_def)

lemma length_vdi_create_static: "length (snd (vdi_create be True [\<lparr> name = ''size'', value_n = 0x200000 \<rparr>, \<lparr> name = ''static'', value_n = 1 \<rparr>] uuid1 uuid2)) = 0x400"
proof -
  let ?o = "[\<lparr> name = ''size'', value_n = 0x200000 \<rparr>, \<lparr> name = ''static'', value_n = 1 \<rparr>]"
  let ?f = "snd (vdi_create be True ?o uuid1 uuid2)"
  have "length (take sizeof_VdiHeader ?f) = 512"
    unfolding vdi_create_header by simp
  moreover have "length (drop sizeof_VdiHeader ?f) = 512"
    unfolding vdi_create_blockmap read_options_static fst_conv blocks_2MiB blockmap_size_2 by simp
  ultimately show ?thesis
    by simp
qed


lemma mem32_UNALLOCATED: "mem32 be VDI_UNALLOCATED = le_bytes32 VDI_UNALLOCATED"
  by (simp add: mem32_def le_bytes32_def VDI_UNALLOCATED_def)

lemma blockmap_vdi_create_static: "le32_to_cpu be (ld32 be (snd (vdi_create be True [\<lparr> name = ''size'', value_n = 0x200000 \<rparr>, \<lparr> name = ''static'', value_n = 1 \<rparr>] uuid1 uuid2)) 0x200) = VDI_UNALLOCATED
  \<and> le32_to_cpu be (ld32 be (snd (vdi_create be True [\<lparr> name = ''size'', value_n = 0x200000 \<rparr>, \<lparr> name = ''static'', value_n = 1 \<rparr>] uuid1 uuid2)) 0x204) = VDI_UNALLOCATED"
proof -
  let ?f = "snd (vdi_create be True [\<lparr> name = ''size'', value_n = 0x200000 \<rparr>, \<lparr> name = ''static'', value_n = 1 \<rparr>] uuid1 uuid2)"
  have "replicate (unat (2 :: u32)) (mem32 be VDI_UNALLOCATED) = replicate 2 (mem32 be VDI_UNALLOCATED)"
    by simp
  also have "\<dots> = [le_bytes32 VDI_UNALLOCATED, le_bytes32 VDI_UNALLOCATED]"
    by (simp add: numeral_2_eq_2 mem32_UNALLOCATED)
  finally have d: "drop 0x200 ?f = fixed 512 (le_bytes32 VDI_UNALLOCATED @ le_bytes32 VDI_UNALLOCATED)"
    unfolding vdi_create_blockmap read_options_static fst_conv blocks_2MiB blockmap_size_2 by simp
  have "segment 0x200 4 ?f = segment 0 4 (drop 0x200 ?f)" "segment 0x204 4 ?f = segment 4 4 (drop 0x200 ?f)"
    by (simp_all add: segment_def)
  then have "segment 0x200 4 ?f = le_bytes32 VDI_UNALLOCATED" "segment 0x204 4 ?f = le_bytes32 VDI_UNALLOCATED"
    unfolding d by (simp_all add: segment_def fixed_def)
  then show ?thesis
    by (simp add: le32_to_cpu_ld32)
qed


lemma header_vdi_create_static:
  "vdi_header_to_cpu be (VdiHeader_of_mem be (take sizeof_VdiHeader (snd (vdi_create be True [\<lparr> name = ''size'', value_n = 0x200000 \<rparr>, \<lparr> name = ''static'', value_n = 1 \<rparr>] uuid1 uuid2)))) =
       (zero_VdiHeader
              \<lparr> hdr_text := fixed 64 VDI_TEXT,
                signature := VDI_SIGNATURE,
                version := VDI_VERSION_1_1,
                header_size := 0x180,
                image_type := VDI_TYPE_STATIC,
                offset_blockmap := 0x200,
                offset_data := 0x400,
                sector_size := 512,
                disk_size := 0x200000,
                VdiHeader.block_size := 0x100000,
                blocks_in_image := 2,
                uuid_image := fixed 16 uuid1,
                uuid_last_snap := fixed 16 uuid2 \<rparr>)"
  unfolding vdi_create_decode read_options_static fst_conv snd_conv blocks_2MiB blockmap_size_2
  by (simp add: MiB_def KiB_def)

text \<open>
  Claim C5 says that \<^verbatim>\<open>vdi_create\<close> with the option \<^verbatim>\<open>static\<close> writes a fully
  pre-allocated image. The code only records the image type: for a size of 2 MiB with
  \<^verbatim>\<open>static\<close> it returns 0 and leaves a file of 1024 bytes, the header and one sector
  of block map and no data block, whose header says \<^verbatim>\<open>VDI_TYPE_STATIC\<close>, two
  blocks in the image and 0 blocks allocated, and whose two block map entries are
  \<^verbatim>\<open>VDI_UNALLOCATED\<close>.
\<close>

theorem vdi_create_static_not_preallocated:
  "fst (vdi_create be True [\<lparr> name = ''size'', value_n = 0x200000 \<rparr>, \<lparr> name = ''static'', value_n = 1 \<rparr>] uuid1 uuid2) = 0 \<and>
   (let file = snd (vdi_create be True
          [\<lparr> name = ''size'', value_n = 0x200000 \<rparr>, \<lparr> name = ''static'', value_n = 1 \<rparr>] uuid1 uuid2);
        h = vdi_header_to_cpu be (VdiHeader_of_mem be (take sizeof_VdiHeader file))
    in image_type h = VDI_TYPE_STATIC \<and> disk_size h = 0x200000 \<and> blocks_in_image h = 2 \<and>
       blocks_allocated h = 0 \<and> offset_blockmap h = 0x200 \<and> offset_data h = 0x400 \<and>
       le32_to_cpu be (ld32 be file 0x200) = VDI_UNALLOCATED \<and>
       le32_to_cpu be (ld32 be file 0x204) = VDI_UNALLOCATED \<and>
       length file = 0x400)"
proof -
  have "fst (vdi_create be True [\<lparr> name = ''size'', value_n = 0x200000 \<rparr>, \<lparr> name = ''static'', value_n = 1 \<rparr>] uuid1 uuid2) = 0"
    by (simp add: vdi_create_def Let_def split: prod.splits)
  then show ?thesis
    unfolding Let_def header_vdi_create_static
    using length_vdi_create_static [of be uuid1 uuid2] blockmap_vdi_create_static [of be uuid1 uuid2]
    by (simp add: zero_VdiHeader_def)
qed

subsection \<open>One pass through the loops of read and write\<close>

lemma vdi_write_allocate_unfold:
  assumes "sector_in_block + n_sectors \<le> unat (block_size (opaque bs)) div SECTOR_SIZE"
    and "unat (block_sectors (opaque bs)) \<le> unat (block_size (opaque bs)) div SECTOR_SIZE"
  shows "vdi_write_allocate be bs host block_index sector_in_block buf n_sectors =
     (let w1 = data_write bs host sector_in_block buf n_sectors;
          w2 = map_write be bs (snd w1) block_index;
          w3 = header_write be bs (snd w2) block_index
      in if fst w1 < 0 then Return (- 1) (allocated_state be bs block_index, snd w1)
         else if fst w2 < 0 then Return (- 1) (allocated_state be bs block_index, snd w2)
         else if fst w3 < 0 then Return (- 1) (allocated_state be bs block_index, snd w3)
         else Continue n_sectors (allocated_state be bs block_index, snd w3))"
  using assms
  unfolding vdi_write_allocate_def data_write_def map_write_def header_write_def allocated_state_def Let_def
  by (simp add: split_beta)


lemma nat_div_uint: "0 \<le> i \<Longrightarrow> nat (i div uint (w :: u32)) = nat i div unat w"
  by (simp add: nat_div_distrib)

lemma nat_mod_uint: "0 \<le> i \<Longrightarrow> nat (i mod uint (w :: u32)) = nat i mod unat w"
  by (simp add: nat_mod_distrib)

lemma vdi_write_body_unfold:
  assumes "0 \<le> sector_num" and "block_sectors (opaque bs) \<noteq> 0"
    and "nat sector_num div unat (block_sectors (opaque bs)) < length (blockmap (opaque bs))"
  shows "vdi_write_body be bs host sector_num buf nb_sectors =
     (let block_index = nat sector_num div unat (block_sectors (opaque bs));
          sector_in_block = nat sector_num mod unat (block_sectors (opaque bs));
          n_sectors = min (unat (block_sectors (opaque bs)) - sector_in_block) (nat nb_sectors);
          blockmap_entry = le32_to_cpu be (blockmap (opaque bs) ! block_index)
      in if blockmap_entry = VDI_UNALLOCATED
         then vdi_write_allocate be bs host block_index sector_in_block buf n_sectors
         else vdi_write_existing bs host blockmap_entry sector_in_block buf n_sectors)"
  using assms by (simp add: vdi_write_body_def Let_def nat_div_uint nat_mod_uint)

lemma vdi_read_body_unfold:
  assumes "0 \<le> sector_num" and "block_sectors (opaque bs) \<noteq> 0"
    and "nat sector_num div unat (block_sectors (opaque bs)) < length (blockmap (opaque bs))"
  shows "vdi_read_body be bs host sector_num nb_sectors =
     (let block_index = nat sector_num div unat (block_sectors (opaque bs));
          sector_in_block = nat sector_num mod unat (block_sectors (opaque bs));
          n_sectors = min (unat (block_sectors (opaque bs)) - sector_in_block) (nat nb_sectors);
          blockmap_entry = le32_to_cpu be (blockmap (opaque bs) ! block_index)
      in if blockmap_entry = VDI_UNALLOCATED
         then Continue n_sectors (replicate n_sectors zero_sector, host)
         else
           (case bdrv_read host
                   (unat (offset_data (header (opaque bs))) div SECTOR_SIZE
                    + unat blockmap_entry * unat (block_sectors (opaque bs)) + sector_in_block)
                   n_sectors of
              (r, data, host1) \<Rightarrow>
                if r < 0 then Return (- 1) ([], host1) else Continue n_sectors (data, host1)))"
  using assms by (simp add: vdi_read_body_def Let_def nat_div_uint nat_mod_uint)

lemma bdrv_write_fault:
  "fst (next_fault (faults host)) \<Longrightarrow>
   bdrv_write host off buf n =
     (- EIO, host\<lparr> trace := trace host @ [Write_op off n], faults := snd (next_fault (faults host)) \<rparr>)"
  by (simp add: bdrv_write_def Let_def)

lemma bdrv_write_ok:
  "\<not> fst (next_fault (faults host)) \<Longrightarrow>
   bdrv_write host off buf n =
     (0, host\<lparr> trace := trace host @ [Write_op off n], faults := snd (next_fault (faults host)),
              disk := store (disk host) off buf n \<rparr>)"
  by (simp add: bdrv_write_def Let_def)

lemma fst_bdrv_write: "fst (bdrv_write host off buf n) = (if fst (next_fault (faults host)) then - EIO else 0)"
  by (simp add: bdrv_write_def Let_def)

lemma trace_bdrv_write [simp]: "trace (snd (bdrv_write host off buf n)) = trace host @ [Write_op off n]"
  by (simp add: bdrv_write_def Let_def)

lemma faults_bdrv_write [simp]: "faults (snd (bdrv_write host off buf n)) = snd (next_fault (faults host))"
  by (simp add: bdrv_write_def Let_def)

lemma disk_bdrv_write:
  "disk (snd (bdrv_write host off buf n)) =
     (if fst (next_fault (faults host)) then disk host else store (disk host) off buf n)"
  by (simp add: bdrv_write_def Let_def)

text \<open>In every outcome of an allocation the state is the allocated state.\<close>

lemma vdi_write_allocate_state:
  assumes "vdi_write_allocate be bs host block_index sector_in_block buf n_sectors = Return r x
         \<or> vdi_write_allocate be bs host block_index sector_in_block buf n_sectors = Continue m x"
  shows "fst x = allocated_state be bs block_index"
proof -
  have "\<not> (unat (block_size (opaque bs)) div SECTOR_SIZE < sector_in_block + n_sectors
        \<or> unat (block_size (opaque bs)) div SECTOR_SIZE < unat (block_sectors (opaque bs)))"
    using assms by (auto simp: vdi_write_allocate_def Let_def)
  then show ?thesis
    using assms by (auto simp: vdi_write_allocate_unfold Let_def split: if_splits)
qed

subsection \<open>What a write does to the logical disk\<close>

lemma same_block:
  fixes B :: nat
  assumes "r' < B" and "sib + n \<le> B" and "e * B + sib \<le> e' * B + r'" and "e' * B + r' < e * B + sib + n"
  shows "e' = e"
proof (rule ccontr)
  assume "e' \<noteq> e"
  then consider "e' < e" | "e < e'" by linarith
  then show False
  proof cases
    case 1
    then have "Suc e' \<le> e" by simp
    then have "Suc e' * B \<le> e * B" by (rule mult_le_mono1)
    with assms show False by simp
  next
    case 2
    then have "Suc e \<le> e'" by simp
    then have "Suc e * B \<le> e' * B" by (rule mult_le_mono1)
    with assms show False by simp
  qed
qed

lemma chunk_iff:
  fixes B :: nat
  assumes "0 < B" and "n \<le> B - sn mod B"
  shows "(sn \<le> i \<and> i < sn + n) \<longleftrightarrow>
         (i div B = sn div B \<and> sn mod B \<le> i mod B \<and> i mod B < sn mod B + n)"
proof
  assume a: "sn \<le> i \<and> i < sn + n"
  have sn: "sn = sn div B * B + sn mod B" by simp
  have lt: "sn mod B < B" using assms(1) by simp
  obtain j where j: "i = sn + j" "j < n"
    using a by (metis add_diff_inverse_nat less_diff_conv2 linorder_not_less nat_add_left_cancel_less)
  have "i = sn div B * B + (sn mod B + j)"
    using j sn by linarith
  moreover have "sn mod B + j < B"
    using j assms(2) lt by linarith
  ultimately have "i div B = sn div B" "i mod B = sn mod B + j"
    by (metis div_mult_self3 div_less add_cancel_right_right assms(1) less_numeral_extra(3),
        metis mod_mult_self3 mod_less)
  then show "i div B = sn div B \<and> sn mod B \<le> i mod B \<and> i mod B < sn mod B + n"
    using j by simp
next
  assume a: "i div B = sn div B \<and> sn mod B \<le> i mod B \<and> i mod B < sn mod B + n"
  have "i = i div B * B + i mod B" "sn = sn div B * B + sn mod B" by simp_all
  with a show "sn \<le> i \<and> i < sn + n"
    by (metis add_le_cancel_left add_less_cancel_left group_cancel.add1)
qed


lemma store_nth:
  "length buf = n \<Longrightarrow>
   store d off buf n p = (if off \<le> p \<and> p < off + n then buf ! (p - off) else d p)"
  by (auto simp: store_def)

lemma write_existing_view:
  fixes bs :: BlockDriverState
  defines "B \<equiv> unat (block_sectors (opaque bs))"
  assumes wf: "image_wf be bs"
    and range: "sn div B < length (blockmap (opaque bs))"
    and e: "entry be bs (sn div B) \<noteq> VDI_UNALLOCATED"
    and n: "n \<le> B - sn mod B" "n \<le> length buf"
    and i: "i div B < length (blockmap (opaque bs))"
  shows "sector_view be bs (host\<lparr> disk := store (disk host) (physical_sector be bs sn) (take n buf) n \<rparr>) i =
           (if sn \<le> i \<and> i < sn + n then buf ! (i - sn) else sector_view be bs host i)"
proof -
  have B: "0 < B"
    using wf by (simp add: image_wf_def B_def)
  have inj: "\<And>a b. a < length (blockmap (opaque bs)) \<Longrightarrow> b < length (blockmap (opaque bs)) \<Longrightarrow>
       entry be bs a \<noteq> VDI_UNALLOCATED \<Longrightarrow> entry be bs a = entry be bs b \<Longrightarrow> a = b"
    using wf unfolding image_wf_def by blast
  have len: "length (take n buf) = n"
    using n by simp
  let ?off = "physical_sector be bs sn"
  show ?thesis
  proof (cases "entry be bs (i div B) = VDI_UNALLOCATED")
    case True
    then have "i div B \<noteq> sn div B"
      using e by auto
    then have "\<not> (sn \<le> i \<and> i < sn + n)"
      using chunk_iff [OF B n(1), of i] by simp
    then show ?thesis
      using True by (auto simp add: sector_view_def B_def)
  next
    case False
    let ?p = "physical_sector be bs i"
    have iB: "i mod B < B" "sn mod B < B"
      using B by simp_all
    have in_range: "(?off \<le> ?p \<and> ?p < ?off + n) \<longleftrightarrow> (sn \<le> i \<and> i < sn + n)"
    proof
      assume a: "?off \<le> ?p \<and> ?p < ?off + n"
      have fit: "sn mod B + n \<le> B"
        using n(1) iB by linarith
      have "unat (entry be bs (i div B)) = unat (entry be bs (sn div B))"
      proof (rule same_block [of "i mod B" B "sn mod B" n])
        show "i mod B < B" by (rule iB)
        show "sn mod B + n \<le> B" by (rule fit)
        show "unat (entry be bs (sn div B)) * B + sn mod B \<le> unat (entry be bs (i div B)) * B + i mod B"
          using a by (simp add: physical_sector_def B_def)
        show "unat (entry be bs (i div B)) * B + i mod B < unat (entry be bs (sn div B)) * B + sn mod B + n"
          using a by (simp add: physical_sector_def B_def)
      qed
      then have ee: "entry be bs (i div B) = entry be bs (sn div B)"
        by (simp add: word_unat_eq_iff)
      then have "i div B = sn div B"
        using inj [OF i range False] by simp
      moreover have "sn mod B \<le> i mod B \<and> i mod B < sn mod B + n"
        using a ee by (simp add: physical_sector_def B_def)
      ultimately show "sn \<le> i \<and> i < sn + n"
        using chunk_iff [OF B n(1), of i] by simp
    next
      assume "sn \<le> i \<and> i < sn + n"
      then have "i div B = sn div B \<and> sn mod B \<le> i mod B \<and> i mod B < sn mod B + n"
        using chunk_iff [OF B n(1), of i] by simp
      then show "?off \<le> ?p \<and> ?p < ?off + n"
        by (simp add: physical_sector_def B_def)
    qed
    have diff: "sn \<le> i \<and> i < sn + n \<Longrightarrow> ?p - ?off = i - sn"
    proof -
      assume a: "sn \<le> i \<and> i < sn + n"
      then have c: "i div B = sn div B \<and> sn mod B \<le> i mod B \<and> i mod B < sn mod B + n"
        using chunk_iff [OF B n(1), of i] by simp
      from c have c1: "i div B = sn div B"
        by simp
      have "i - sn = (i div B * B + i mod B) - (sn div B * B + sn mod B)"
        by simp
      also have "\<dots> = (sn div B * B + i mod B) - (sn div B * B + sn mod B)"
        by (simp only: c1)
      also have "\<dots> = i mod B - sn mod B"
        by (simp only: add_diff_cancel_left)
      finally have "i - sn = i mod B - sn mod B" .
      then show ?thesis
        using c by (simp add: physical_sector_def B_def)
    qed
    show ?thesis
    proof (cases "sn \<le> i \<and> i < sn + n")
      case True
      then have "i - sn < n"
        by linarith
      then have "take n buf ! (i - sn) = buf ! (i - sn)"
        by simp
      then show ?thesis
        using True False in_range diff
        by (simp add: sector_view_def store_nth [OF len] B_def)
    next
      case F: False
      then have "\<not> (physical_sector be bs sn \<le> physical_sector be bs i \<and>
          physical_sector be bs i < physical_sector be bs sn + n)"
        using in_range by simp
      then show ?thesis
        using False F
        by (auto simp add: sector_view_def store_nth [OF len] B_def)
    qed
  qed
qed

lemma length_filter_update:
  "i < length xs \<Longrightarrow> \<not> P (xs ! i) \<Longrightarrow> P x \<Longrightarrow>
   length (filter P (xs[i := x])) = Suc (length (filter P xs))"
proof (induction xs arbitrary: i)
  case Nil
  then show ?case by simp
next
  case (Cons a xs)
  then show ?case by (cases i) auto
qed

lemma length_filter_less:
  "i < length xs \<Longrightarrow> \<not> P (xs ! i) \<Longrightarrow> length (filter P xs) < length xs"
proof (induction xs arbitrary: i)
  case Nil
  then show ?case by simp
next
  case (Cons a xs)
  show ?case
  proof (cases i)
    case 0
    with Cons.prems show ?thesis
      by (simp add: less_Suc_eq_le)
  next
    case (Suc j)
    with Cons.prems have "length (filter P xs) < length xs"
      by (intro Cons.IH [of j]) simp_all
    then show ?thesis
      by simp
  qed
qed

lemma unat_VDI_UNALLOCATED: "unat VDI_UNALLOCATED = 2 ^ 32 - 1"
  by (simp add: VDI_UNALLOCATED_def)

lemma entry_allocated_state:
  "j < length (blockmap (opaque bs)) \<Longrightarrow>
   entry be (allocated_state be bs bi) j =
     (if j = bi then blocks_allocated (header (opaque bs)) else entry be bs j)"
  by (simp add: entry_def allocated_state_def)

lemma allocated_state_simps [simp]:
  "total_sectors (allocated_state be bs bi) = total_sectors bs"
  "block_sectors (opaque (allocated_state be bs bi)) = block_sectors (opaque bs)"
  "block_size (opaque (allocated_state be bs bi)) = block_size (opaque bs)"
  "length (blockmap (opaque (allocated_state be bs bi))) = length (blockmap (opaque bs))"
  "blocks_allocated (header (opaque (allocated_state be bs bi))) = blocks_allocated (header (opaque bs)) + 1"
  "blocks_in_image (header (opaque (allocated_state be bs bi))) = blocks_in_image (header (opaque bs))"
  "data_start (allocated_state be bs bi) = data_start bs"
  "map_start (allocated_state be bs bi) = map_start bs"
  by (simp_all add: allocated_state_def data_start_def map_start_def)

text \<open>What the invariant gives at the moment of an allocation.\<close>

lemma image_wf_consistent: "image_wf be bs \<Longrightarrow> allocation_consistent be bs"
  unfolding image_wf_def allocation_consistent_def by blast

lemma alloc_room_consistent:
  assumes co: "allocation_consistent be bs"
    and bi: "bi < length (blockmap (opaque bs))"
    and un: "entry be bs bi = VDI_UNALLOCATED"
  shows "unat (blocks_allocated (header (opaque bs))) < length (blockmap (opaque bs))"
    and "unat (blocks_allocated (header (opaque bs)) + 1) = Suc (unat (blocks_allocated (header (opaque bs))))"
    and "blocks_allocated (header (opaque bs)) \<noteq> VDI_UNALLOCATED"
proof -
  let ?k = "blocks_allocated (header (opaque bs))"
  have "count_allocated be bs < length (blockmap (opaque bs))"
    unfolding count_allocated_def
    using bi un by (intro length_filter_less [of bi]) (simp_all add: entry_def)
  then show k: "unat ?k < length (blockmap (opaque bs))"
    using co by (simp add: allocation_consistent_def)
  have "length (blockmap (opaque bs)) < 2 ^ 32"
    using co unsigned_less [of "blocks_in_image (header (opaque bs))", where 'a = nat]
    by (simp add: allocation_consistent_def)
  with k have lt: "unat ?k + 1 < 2 ^ 32"
    by linarith
  then show "unat (?k + 1) = Suc (unat ?k)"
    by (simp add: unat_add_lem [THEN iffD1])
  from lt show "?k \<noteq> VDI_UNALLOCATED"
    using unat_VDI_UNALLOCATED by auto
qed

lemma alloc_room:
  assumes wf: "image_wf be bs"
    and bi: "bi < length (blockmap (opaque bs))"
    and un: "entry be bs bi = VDI_UNALLOCATED"
  shows "unat (blocks_allocated (header (opaque bs))) < length (blockmap (opaque bs))"
    and "unat (blocks_allocated (header (opaque bs)) + 1) = Suc (unat (blocks_allocated (header (opaque bs))))"
    and "blocks_allocated (header (opaque bs)) \<noteq> VDI_UNALLOCATED"
  by (rule alloc_room_consistent [OF image_wf_consistent [OF wf] bi un])+

lemma count_allocated_allocated_state:
  assumes co: "allocation_consistent be bs"
    and bi: "bi < length (blockmap (opaque bs))"
    and un: "entry be bs bi = VDI_UNALLOCATED"
  shows "count_allocated be (allocated_state be bs bi) = Suc (count_allocated be bs)"
proof -
  note room = alloc_room_consistent [OF assms]
  have "\<not> le32_to_cpu be (blockmap (opaque bs) ! bi) \<noteq> VDI_UNALLOCATED"
    using un by (simp add: entry_def)
  moreover have "le32_to_cpu be (cpu_to_le32 be (blocks_allocated (header (opaque bs)))) \<noteq> VDI_UNALLOCATED"
    using room(3) by simp
  ultimately show ?thesis
    unfolding count_allocated_def allocated_state_def
    using bi length_filter_update [of bi "blockmap (opaque bs)" "\<lambda>e. le32_to_cpu be e \<noteq> VDI_UNALLOCATED"
       "cpu_to_le32 be (blocks_allocated (header (opaque bs)))"]
    by simp
qed

lemma image_wf_allocated_state:
  assumes wf: "image_wf be bs"
    and bi: "bi < length (blockmap (opaque bs))"
    and un: "entry be bs bi = VDI_UNALLOCATED"
  shows "image_wf be (allocated_state be bs bi)"
proof -
  let ?k = "blocks_allocated (header (opaque bs))"
  let ?bs' = "allocated_state be bs bi"
  let ?n = "length (blockmap (opaque bs))"
  note room = alloc_room [OF assms]
  have old: "\<And>i. i < ?n \<Longrightarrow> entry be bs i \<noteq> VDI_UNALLOCATED \<Longrightarrow> unat (entry be bs i) < unat ?k"
    using wf unfolding image_wf_def by blast
  have inj: "\<And>a b. a < ?n \<Longrightarrow> b < ?n \<Longrightarrow>
       entry be bs a \<noteq> VDI_UNALLOCATED \<Longrightarrow> entry be bs a = entry be bs b \<Longrightarrow> a = b"
    using wf unfolding image_wf_def by blast
  have cnt: "count_allocated be ?bs' = Suc (count_allocated be bs)"
    by (rule count_allocated_allocated_state [OF image_wf_consistent [OF wf] bi un])
  have fresh: "\<And>i. i < ?n \<Longrightarrow> entry be bs i \<noteq> VDI_UNALLOCATED \<Longrightarrow> entry be bs i \<noteq> ?k"
  proof
    fix i assume "i < ?n" "entry be bs i \<noteq> VDI_UNALLOCATED" "entry be bs i = ?k"
    then show False using old [of i] by simp
  qed
  have 1: "\<forall>i < ?n. entry be ?bs' i \<noteq> VDI_UNALLOCATED \<longrightarrow>
          unat (entry be ?bs' i) < Suc (unat ?k)"
  proof (intro allI impI)
    fix i assume i: "i < ?n" and a: "entry be ?bs' i \<noteq> VDI_UNALLOCATED"
    show "unat (entry be ?bs' i) < Suc (unat ?k)"
    proof (cases "i = bi")
      case True
      then show ?thesis using i by (simp add: entry_allocated_state)
    next
      case False
      then have "entry be ?bs' i = entry be bs i"
        using i by (simp add: entry_allocated_state)
      then show ?thesis
        using old [of i] i a by simp
    qed
  qed
  have 2: "\<forall>i < ?n. \<forall>j < ?n.
        entry be ?bs' i \<noteq> VDI_UNALLOCATED \<longrightarrow> entry be ?bs' i = entry be ?bs' j \<longrightarrow> i = j"
  proof (intro allI impI)
    fix i j
    assume i: "i < ?n" and j: "j < ?n"
      and a: "entry be ?bs' i \<noteq> VDI_UNALLOCATED" and eq: "entry be ?bs' i = entry be ?bs' j"
    show "i = j"
    proof (cases "i = bi")
      case True
      show ?thesis
      proof (rule ccontr)
        assume "i \<noteq> j"
        then have "entry be bs j = ?k"
          using True eq i j by (simp add: entry_allocated_state)
        then show False
          using fresh [of j] j room(3) by simp
      qed
    next
      case False
      then have ei: "entry be ?bs' i = entry be bs i"
        using i by (simp add: entry_allocated_state)
      show ?thesis
      proof (cases "j = bi")
        case True
        then have "entry be ?bs' j = ?k"
          using j by (simp add: entry_allocated_state)
        then have "entry be bs i = ?k"
          using ei eq by metis
        moreover have "entry be bs i \<noteq> VDI_UNALLOCATED"
          using a ei by metis
        ultimately show ?thesis
          using fresh [of i] i by blast
      next
        case F: False
        then have ej: "entry be ?bs' j = entry be bs j"
          using j by (simp add: entry_allocated_state)
        have "entry be bs i = entry be bs j"
          using ei ej eq by metis
        moreover have "entry be bs i \<noteq> VDI_UNALLOCATED"
          using a ei by metis
        ultimately show ?thesis
          using inj [of i j] i j by blast
      qed
    qed
  qed
  have g: "0 < unat (block_sectors (opaque bs))"
      "unat (block_size (opaque bs)) div SECTOR_SIZE = unat (block_sectors (opaque bs))"
      "total_sectors bs \<le> int (?n * unat (block_sectors (opaque bs)))"
      "?n = unat (blocks_in_image (header (opaque bs)))"
      "unat ?k = count_allocated be bs"
      "0 < map_start bs" "map_start bs + (?n + 127) div 128 \<le> data_start bs"
    using wf unfolding image_wf_def by blast+
  show ?thesis
    unfolding image_wf_def allocated_state_simps room(2) cnt
  proof (intro conjI)
    show "\<forall>i < ?n. entry be ?bs' i \<noteq> VDI_UNALLOCATED \<longrightarrow>
          unat (entry be ?bs' i) < Suc (unat ?k)"
      by (rule 1)
    show "\<forall>i < ?n. \<forall>j < ?n.
        entry be ?bs' i \<noteq> VDI_UNALLOCATED \<longrightarrow> entry be ?bs' i = entry be ?bs' j \<longrightarrow> i = j"
      by (rule 2)
  qed (use g in simp_all)
qed

lemma image_wfD:
  assumes "image_wf be bs"
  shows "0 < unat (block_sectors (opaque bs))"
    and "unat (block_size (opaque bs)) div SECTOR_SIZE = unat (block_sectors (opaque bs))"
    and "total_sectors bs \<le> int (length (blockmap (opaque bs)) * unat (block_sectors (opaque bs)))"
    and "length (blockmap (opaque bs)) = unat (blocks_in_image (header (opaque bs)))"
    and "unat (blocks_allocated (header (opaque bs))) = count_allocated be bs"
    and "\<And>i. i < length (blockmap (opaque bs)) \<Longrightarrow> entry be bs i \<noteq> VDI_UNALLOCATED \<Longrightarrow>
          unat (entry be bs i) < unat (blocks_allocated (header (opaque bs)))"
    and "\<And>i j. i < length (blockmap (opaque bs)) \<Longrightarrow> j < length (blockmap (opaque bs)) \<Longrightarrow>
          entry be bs i \<noteq> VDI_UNALLOCATED \<Longrightarrow> entry be bs i = entry be bs j \<Longrightarrow> i = j"
    and "0 < map_start bs"
    and "map_start bs + (length (blockmap (opaque bs)) + 127) div 128 \<le> data_start bs"
  using assms unfolding image_wf_def by blast+

lemma length_memcpy_sectors:
  "at + length src \<le> length dst \<Longrightarrow> length (memcpy_sectors dst at src) = length dst"
  by (simp add: memcpy_sectors_def)

lemma memcpy_sectors_nth:
  "at + length src \<le> length dst \<Longrightarrow> j < length dst \<Longrightarrow>
   memcpy_sectors dst at src ! j = (if at \<le> j \<and> j < at + length src then src ! (j - at) else dst ! j)"
  by (auto simp: memcpy_sectors_def nth_append)

lemma store_other: "p < off \<or> off + n \<le> p \<Longrightarrow> store d off buf n p = d p"
  by (auto simp: store_def)

lemma unat_and_not_le: "unat (k AND NOT 127) \<le> unat (k :: u32)"
  by (rule word_and_le2 [THEN word_le_nat_alt [THEN iffD1]])

lemma map_sector_before_data:
  assumes wf: "image_wf be bs"
    and k: "unat (blocks_allocated (header (opaque bs))) < length (blockmap (opaque bs))"
  shows "map_start bs + unat (blocks_allocated (header (opaque bs)) AND NOT 127) div 128 < data_start bs"
proof -
  let ?k = "blocks_allocated (header (opaque bs))"
  have "unat (?k AND NOT 127) div 128 \<le> unat ?k div 128"
    by (rule div_le_mono) (rule unat_and_not_le)
  also have "unat ?k div 128 < (length (blockmap (opaque bs)) + 127) div 128"
    using k by (simp add: div_less_iff_less_mult less_mult_imp_div_less) presburger?
  finally show ?thesis
    using image_wfD(9) [OF wf] by linarith
qed


lemma write_allocate_view:
  fixes bs :: BlockDriverState
  defines "B \<equiv> unat (block_sectors (opaque bs))"
  defines "k \<equiv> blocks_allocated (header (opaque bs))"
  assumes wf: "image_wf be bs"
    and range: "sn div B < length (blockmap (opaque bs))"
    and un: "entry be bs (sn div B) = VDI_UNALLOCATED"
    and n: "n \<le> B - sn mod B" "n \<le> length buf"
    and i: "i div B < length (blockmap (opaque bs))"
  shows "sector_view be (allocated_state be bs (sn div B))
           (host\<lparr> disk :=
              store (store (store (disk host) (data_start bs + unat k * B)
                      (memcpy_sectors (replicate B zero_sector) (sn mod B) (take n buf)) B)
                 (map_start bs + unat (k AND NOT 127) div 128) [ms] 1) 0 [hs] 1 \<rparr>) i =
           (if sn \<le> i \<and> i < sn + n then buf ! (i - sn) else sector_view be bs host i)"
proof -
  let ?bs' = "allocated_state be bs (sn div B)"
  let ?block = "memcpy_sectors (replicate B zero_sector) (sn mod B) (take n buf)"
  let ?off1 = "data_start bs + unat k * B"
  let ?off2 = "map_start bs + unat (k AND NOT 127) div 128"
  let ?d1 = "store (disk host) ?off1 ?block B"
  let ?d3 = "store (store ?d1 ?off2 [ms] 1) 0 [hs] 1"
  have B: "0 < B"
    using image_wfD(1) [OF wf] by (simp add: B_def)
  note room = alloc_room [OF wf range [unfolded B_def] un [unfolded B_def], folded B_def k_def]
  have off2: "?off2 < data_start bs"
    using map_sector_before_data [OF wf] room(1) by (simp add: k_def)
  have ds: "0 < data_start bs"
    using off2 by linarith
  have iB: "i mod B < B" "sn mod B < B"
    using B by simp_all
  have fit: "sn mod B + n \<le> B"
    using n(1) iB by linarith
  have len: "length (take n buf) = n"
    using n by simp
  have lb: "length ?block = B"
    using fit len by (simp add: length_memcpy_sectors)
  have data: "\<And>p. data_start bs \<le> p \<Longrightarrow> ?d3 p = ?d1 p"
    using off2 ds by (simp add: store_other)
  have block: "\<And>j. j < B \<Longrightarrow>
      ?block ! j = (if sn mod B \<le> j \<and> j < sn mod B + n then buf ! (j - sn mod B) else zero_sector)"
    using fit len by (auto simp add: memcpy_sectors_nth)
  have e': "entry be ?bs' (i div B) = (if i div B = sn div B then k else entry be bs (i div B))"
    using i by (simp add: entry_allocated_state k_def)
  have chunk: "(sn \<le> i \<and> i < sn + n) \<longleftrightarrow>
         (i div B = sn div B \<and> sn mod B \<le> i mod B \<and> i mod B < sn mod B + n)"
    by (rule chunk_iff [OF B n(1)])
  show ?thesis
  proof (cases "i div B = sn div B")
    case True
    have p: "physical_sector be ?bs' i = ?off1 + i mod B"
      using True e' by (simp add: physical_sector_def B_def)
    have "?d3 (?off1 + i mod B) = ?d1 (?off1 + i mod B)"
      by (rule data) simp
    also have "\<dots> = ?block ! (i mod B)"
      using iB(1) by (simp add: store_nth [OF lb])
    also have "\<dots> = (if sn mod B \<le> i mod B \<and> i mod B < sn mod B + n
                     then buf ! (i mod B - sn mod B) else zero_sector)"
      by (rule block [OF iB(1)])
    finally have d: "?d3 (?off1 + i mod B) =
        (if sn mod B \<le> i mod B \<and> i mod B < sn mod B + n
         then buf ! (i mod B - sn mod B) else zero_sector)" .
    have diff: "i - sn = i mod B - sn mod B"
    proof -
      have "i - sn = (i div B * B + i mod B) - (sn div B * B + sn mod B)"
        by simp
      also have "\<dots> = (sn div B * B + i mod B) - (sn div B * B + sn mod B)"
        by (simp only: True)
      also have "\<dots> = i mod B - sn mod B"
        by (simp only: add_diff_cancel_left)
      finally show ?thesis .
    qed
    have old: "sector_view be bs host i = zero_sector"
      using True un by (simp add: sector_view_def B_def)
    have new: "sector_view be ?bs' (host\<lparr> disk := ?d3 \<rparr>) i = ?d3 (?off1 + i mod B)"
      using e' True room(3) p by (simp add: sector_view_def B_def)
    show ?thesis
      unfolding new d old chunk diff using True by simp
  next
    case False
    then have nc: "\<not> (sn \<le> i \<and> i < sn + n)"
      using chunk by simp
    have e: "entry be ?bs' (i div B) = entry be bs (i div B)"
      using e' False by simp
    show ?thesis
    proof (cases "entry be bs (i div B) = VDI_UNALLOCATED")
      case True
      then show ?thesis
        using e nc by (auto simp add: sector_view_def B_def)
    next
      case F: False
      have lt: "unat (entry be bs (i div B)) < unat k"
        using image_wfD(6) [OF wf i F] by (simp add: k_def)
      have p: "physical_sector be ?bs' i = physical_sector be bs i"
        using e by (simp add: physical_sector_def B_def)
      have "Suc (unat (entry be bs (i div B))) * B \<le> unat k * B"
        using lt by (intro mult_le_mono1) simp
      then have below: "physical_sector be bs i < ?off1"
        using iB(1) by (simp add: physical_sector_def B_def)
      have above: "data_start bs \<le> physical_sector be bs i"
        by (simp add: physical_sector_def)
      have "?d3 (physical_sector be bs i) = ?d1 (physical_sector be bs i)"
        by (rule data [OF above])
      also have "\<dots> = disk host (physical_sector be bs i)"
        using below by (simp add: store_other)
      finally show ?thesis
        using e F nc p by (auto simp add: sector_view_def B_def)
    qed
  qed
qed


lemma sector_view_disk_cong:
  "disk host' = disk host \<Longrightarrow> sector_view be bs host' = sector_view be bs host"
  by (rule ext) (simp add: sector_view_def)

lemma vdi_write_existing_Continue_disk:
  assumes "vdi_write_existing bs host e sib buf n = Continue m x"
  shows "fst x = bs" and "m = n"
    and "disk (snd x) =
      store (disk host)
        (unat (offset_data (header (opaque bs))) div SECTOR_SIZE + unat e * unat (block_sectors (opaque bs)) + sib)
        (take n buf) n"
    and "trace (snd x) = trace host @
      [Write_op (unat (offset_data (header (opaque bs))) div SECTOR_SIZE + unat e * unat (block_sectors (opaque bs)) + sib) n]"
  using assms
  by (auto simp: vdi_write_existing_def Let_def split_beta fst_bdrv_write disk_bdrv_write EIO_def
      split: if_splits)

lemma vdi_write_allocate_Continue_disk:
  assumes "sib + n \<le> unat (block_size (opaque bs)) div SECTOR_SIZE"
    and "unat (block_sectors (opaque bs)) \<le> unat (block_size (opaque bs)) div SECTOR_SIZE"
    and "vdi_write_allocate be bs host bi sib buf n = Continue m x"
  shows "fst x = allocated_state be bs bi" and "m = n"
    and "\<exists>ms hs. disk (snd x) =
      store (store (store (disk host)
          (data_start bs + unat (blocks_allocated (header (opaque bs))) * unat (block_sectors (opaque bs)))
          (memcpy_sectors (replicate (unat (block_size (opaque bs)) div SECTOR_SIZE) zero_sector) sib (take n buf))
          (unat (block_sectors (opaque bs))))
        (map_start bs + unat (blocks_allocated (header (opaque bs)) AND NOT 127) div 128) [ms] 1)
        0 [hs] 1"
proof -
  let ?w1 = "data_write bs host sib buf n"
  let ?w2 = "map_write be bs (snd ?w1) bi"
  let ?w3 = "header_write be bs (snd ?w2) bi"
  from assms(3) have c: "\<not> fst ?w1 < 0" "\<not> fst ?w2 < 0" "\<not> fst ?w3 < 0"
      and x: "x = (allocated_state be bs bi, snd ?w3)" and m: "m = n"
    unfolding vdi_write_allocate_unfold [OF assms(1,2)] Let_def
    by (auto split: if_splits)
  from x show "fst x = allocated_state be bs bi"
    by simp
  from m show "m = n" .
  have f1: "\<not> fst (next_fault (faults host))"
    using c(1) by (simp add: data_write_def fst_bdrv_write EIO_def split: if_splits)
  have f2: "\<not> fst (next_fault (faults (snd ?w1)))"
    using c(2) by (simp add: map_write_def fst_bdrv_write EIO_def split: if_splits)
  have f3: "\<not> fst (next_fault (faults (snd ?w2)))"
    using c(3) by (simp add: header_write_def fst_bdrv_write EIO_def split: if_splits)
  have d1: "disk (snd ?w1) = store (disk host)
          (data_start bs + unat (blocks_allocated (header (opaque bs))) * unat (block_sectors (opaque bs)))
          (memcpy_sectors (replicate (unat (block_size (opaque bs)) div SECTOR_SIZE) zero_sector) sib (take n buf))
          (unat (block_sectors (opaque bs)))"
    using f1 by (simp add: data_write_def disk_bdrv_write data_start_def)
  have d2: "\<exists>ms. disk (snd ?w2) = store (disk (snd ?w1))
          (map_start bs + unat (blocks_allocated (header (opaque bs)) AND NOT 127) div 128) [ms] 1"
    using f2 unfolding map_write_def disk_bdrv_write map_start_def by (simp only: if_False) (rule exI, rule refl)
  have d3: "\<exists>hs. disk (snd ?w3) = store (disk (snd ?w2)) 0 [hs] 1"
    using f3 unfolding header_write_def disk_bdrv_write by (simp only: if_False) (rule exI, rule refl)
  from d2 obtain ms where ms: "disk (snd ?w2) = store (disk (snd ?w1))
          (map_start bs + unat (blocks_allocated (header (opaque bs)) AND NOT 127) div 128) [ms] 1"
    by blast
  from d3 obtain hs where hs: "disk (snd ?w3) = store (disk (snd ?w2)) 0 [hs] 1"
    by blast
  have "disk (snd x) =
      store (store (store (disk host)
          (data_start bs + unat (blocks_allocated (header (opaque bs))) * unat (block_sectors (opaque bs)))
          (memcpy_sectors (replicate (unat (block_size (opaque bs)) div SECTOR_SIZE) zero_sector) sib (take n buf))
          (unat (block_sectors (opaque bs))))
        (map_start bs + unat (blocks_allocated (header (opaque bs)) AND NOT 127) div 128) [ms] 1)
        0 [hs] 1"
    unfolding x snd_conv hs ms d1 by (rule refl)
  then show "\<exists>ms hs. disk (snd x) =
      store (store (store (disk host)
          (data_start bs + unat (blocks_allocated (header (opaque bs))) * unat (block_sectors (opaque bs)))
          (memcpy_sectors (replicate (unat (block_size (opaque bs)) div SECTOR_SIZE) zero_sector) sib (take n buf))
          (unat (block_sectors (opaque bs))))
        (map_start bs + unat (blocks_allocated (header (opaque bs)) AND NOT 127) div 128) [ms] 1)
        0 [hs] 1"
    by blast
qed

lemma vdi_write_existing_Return: "vdi_write_existing bs host e sib buf n = Return r x \<Longrightarrow> r = - 1"
  by (auto simp: vdi_write_existing_def Let_def split_beta split: if_splits)

lemma vdi_write_allocate_Return: "vdi_write_allocate be bs host bi sib buf n = Return r x \<Longrightarrow> r = - 1"
  by (auto simp: vdi_write_allocate_def Let_def split_beta split: if_splits)

lemma vdi_write_body_Return: "vdi_write_body be bs host sector_num buf nb_sectors = Return r x \<Longrightarrow> r = - 1"
  by (auto simp: vdi_write_body_def Let_def split: if_splits
      dest: vdi_write_existing_Return vdi_write_allocate_Return)

lemma block_index_in_range:
  assumes "image_wf be bs" and "0 \<le> sector_num" and "sector_num < total_sectors bs"
  shows "nat sector_num div unat (block_sectors (opaque bs)) < length (blockmap (opaque bs))"
proof -
  have "nat sector_num < length (blockmap (opaque bs)) * unat (block_sectors (opaque bs))"
    using assms(2,3) image_wfD(3) [OF assms(1)] by linarith
  then show ?thesis
    by (simp add: less_mult_imp_div_less)
qed

lemma vdi_write_body_step:
  fixes bs :: BlockDriverState
  defines "B \<equiv> unat (block_sectors (opaque bs))"
  assumes wf: "image_wf be bs"
    and sn: "0 \<le> sector_num" "sector_num < total_sectors bs"
    and nb: "0 < nb_sectors" "nat nb_sectors \<le> length buf"
    and step: "vdi_write_body be bs host sector_num buf nb_sectors = Continue n x"
  shows "image_wf be (fst x)"
    and "total_sectors (fst x) = total_sectors bs"
    and "block_sectors (opaque (fst x)) = block_sectors (opaque bs)"
    and "length (blockmap (opaque (fst x))) = length (blockmap (opaque bs))"
    and "\<And>i. i div B < length (blockmap (opaque bs)) \<Longrightarrow>
          sector_view be (fst x) (snd x) i =
            (if nat sector_num \<le> i \<and> i < nat sector_num + n then buf ! (i - nat sector_num)
             else sector_view be bs host i)"
proof -
  let ?sn = "nat sector_num"
  let ?bi = "?sn div B"
  let ?sib = "?sn mod B"
  let ?n = "min (B - ?sib) (nat nb_sectors)"
  have B: "0 < B"
    using image_wfD(1) [OF wf] by (simp add: B_def)
  then have nz: "block_sectors (opaque bs) \<noteq> 0"
    by (auto simp: B_def)
  have range: "?bi < length (blockmap (opaque bs))"
    unfolding B_def by (rule block_index_in_range [OF wf sn])
  have n1: "?n \<le> B - ?sib" and n2: "?n \<le> length buf"
    using nb(2) by simp_all
  have bsz: "unat (block_size (opaque bs)) div SECTOR_SIZE = B"
    using image_wfD(2) [OF wf] by (simp add: B_def)
  have sibB: "?sib < B"
    using B by simp
  note body = step [unfolded vdi_write_body_unfold [OF sn(1) nz range [unfolded B_def]] Let_def, folded B_def]
  have all: "image_wf be (fst x) \<and> total_sectors (fst x) = total_sectors bs \<and>
      block_sectors (opaque (fst x)) = block_sectors (opaque bs) \<and>
      length (blockmap (opaque (fst x))) = length (blockmap (opaque bs)) \<and>
      (\<forall>i. i div B < length (blockmap (opaque bs)) \<longrightarrow>
          sector_view be (fst x) (snd x) i =
            (if ?sn \<le> i \<and> i < ?sn + n then buf ! (i - ?sn) else sector_view be bs host i))"
  proof (cases "entry be bs ?bi = VDI_UNALLOCATED")
    case True
    then have a: "vdi_write_allocate be bs host ?bi ?sib buf ?n = Continue n x"
      using body by (simp add: entry_def)
    have c1: "?sib + ?n \<le> unat (block_size (opaque bs)) div SECTOR_SIZE"
      unfolding bsz using sibB by simp
    have c2: "unat (block_sectors (opaque bs)) \<le> unat (block_size (opaque bs)) div SECTOR_SIZE"
      unfolding bsz by (simp add: B_def)
    note r = vdi_write_allocate_Continue_disk [OF c1 c2 a]
    from r(3) obtain ms hs where d: "disk (snd x) =
      store (store (store (disk host)
          (data_start bs + unat (blocks_allocated (header (opaque bs))) * B)
          (memcpy_sectors (replicate B zero_sector) ?sib (take ?n buf)) B)
        (map_start bs + unat (blocks_allocated (header (opaque bs)) AND NOT 127) div 128) [ms] 1)
        0 [hs] 1"
      unfolding bsz B_def by blast
    have v: "\<And>i. i div B < length (blockmap (opaque bs)) \<Longrightarrow>
       sector_view be (allocated_state be bs ?bi) (snd x) i =
         (if ?sn \<le> i \<and> i < ?sn + ?n then buf ! (i - ?sn) else sector_view be bs host i)"
    proof -
      fix i assume i: "i div B < length (blockmap (opaque bs))"
      have "sector_view be (allocated_state be bs ?bi) (snd x) =
            sector_view be (allocated_state be bs ?bi) (host\<lparr> disk := disk (snd x) \<rparr>)"
        by (rule sector_view_disk_cong) simp
      then show "sector_view be (allocated_state be bs ?bi) (snd x) i =
         (if ?sn \<le> i \<and> i < ?sn + ?n then buf ! (i - ?sn) else sector_view be bs host i)"
        unfolding d B_def
        using write_allocate_view [OF wf range [unfolded B_def] True [unfolded B_def]
            n1 [unfolded B_def] n2 [unfolded B_def] i [unfolded B_def], of host ms hs]
        by simp
    qed
    show ?thesis
      unfolding r(1) r(2)
      using image_wf_allocated_state [OF wf range True] v by simp
  next
    case False
    then have a: "vdi_write_existing bs host (entry be bs ?bi) ?sib buf ?n = Continue n x"
      using body by (simp add: entry_def)
    note r = vdi_write_existing_Continue_disk [OF a]
    have v: "\<And>i. i div B < length (blockmap (opaque bs)) \<Longrightarrow>
       sector_view be bs (snd x) i =
         (if ?sn \<le> i \<and> i < ?sn + ?n then buf ! (i - ?sn) else sector_view be bs host i)"
    proof -
      fix i assume i: "i div B < length (blockmap (opaque bs))"
      have "sector_view be bs (snd x) =
            sector_view be bs (host\<lparr> disk := disk (snd x) \<rparr>)"
        by (rule sector_view_disk_cong) simp
      moreover have "unat (offset_data (header (opaque bs))) div SECTOR_SIZE
             + unat (entry be bs ?bi) * unat (block_sectors (opaque bs)) + ?sib
           = physical_sector be bs ?sn"
        by (simp add: physical_sector_def data_start_def B_def)
      ultimately show "sector_view be bs (snd x) i =
         (if ?sn \<le> i \<and> i < ?sn + ?n then buf ! (i - ?sn) else sector_view be bs host i)"
        unfolding r(3)
        using write_existing_view [OF wf range [unfolded B_def] False [unfolded B_def]
            n1 [unfolded B_def] n2 [unfolded B_def] i [unfolded B_def], of host]
        by (simp add: B_def)
    qed
    show ?thesis
      unfolding r(1) r(2)
      using wf v by simp
  qed
  from all show "image_wf be (fst x)"
    and "total_sectors (fst x) = total_sectors bs"
    and "block_sectors (opaque (fst x)) = block_sectors (opaque bs)"
    and "length (blockmap (opaque (fst x))) = length (blockmap (opaque bs))"
    and "\<And>i. i div B < length (blockmap (opaque bs)) \<Longrightarrow>
          sector_view be (fst x) (snd x) i =
            (if nat sector_num \<le> i \<and> i < nat sector_num + n then buf ! (i - nat sector_num)
             else sector_view be bs host i)"
    by blast+
qed

lemma vdi_write_loop_view:
  "vdi_write_loop be bs host sector_num buf nb_sectors = Some (0, bs', host') \<Longrightarrow>
   image_wf be bs \<Longrightarrow> 0 \<le> sector_num \<Longrightarrow> sector_num + nb_sectors \<le> total_sectors bs \<Longrightarrow>
   nat nb_sectors \<le> length buf \<Longrightarrow>
   image_wf be bs' \<and> total_sectors bs' = total_sectors bs \<and>
   block_sectors (opaque bs') = block_sectors (opaque bs) \<and>
   length (blockmap (opaque bs')) = length (blockmap (opaque bs)) \<and>
   (\<forall>i. i div unat (block_sectors (opaque bs)) < length (blockmap (opaque bs)) \<longrightarrow>
      sector_view be bs' host' i =
        (if nat sector_num \<le> i \<and> i < nat sector_num + nat nb_sectors
         then buf ! (i - nat sector_num) else sector_view be bs host i))"
proof (induction be bs host sector_num buf nb_sectors rule: vdi_write_loop.induct)
  case (1 be bs host sector_num buf nb_sectors)
  show ?case
  proof (cases "nb_sectors > 0 \<and> sector_num < total_sectors bs")
    case False
    then have "nb_sectors \<le> 0"
      using "1.prems"(4) by linarith
    moreover have "bs' = bs" "host' = host"
      using "1.prems"(1) False by (simp_all add: vdi_write_loop.simps [of be bs host sector_num buf nb_sectors])
    ultimately show ?thesis
      using "1.prems"(2) by auto
  next
    case True
    note loop = "1.prems"(1) [unfolded vdi_write_loop.simps [of be bs host sector_num buf nb_sectors]]
    show ?thesis
    proof (cases "vdi_write_body be bs host sector_num buf nb_sectors")
      case Undefined
      then show ?thesis
        using loop True by simp
    next
      case (Return r x)
      then have "r = - 1"
        by (rule vdi_write_body_Return)
      then show ?thesis
        using loop True Return by simp
    next
      case (Continue n x)
      have rec: "vdi_write_loop be (fst x) (snd x) (sector_num + int n) (drop n buf) (nb_sectors - int n)
          = Some (0, bs', host')"
        using loop True Continue by simp
      have pos: "0 < n \<and> int n \<le> nb_sectors"
        using vdi_write_body_Continue_pos [OF Continue] True by simp
      have sn: "0 \<le> sector_num" "sector_num < total_sectors bs" "0 < nb_sectors"
        using "1.prems"(3) True by simp_all
      note step = vdi_write_body_step [OF "1.prems"(2) sn(1,2,3) "1.prems"(5) Continue]
      have ih: "image_wf be bs' \<and> total_sectors bs' = total_sectors (fst x) \<and>
         block_sectors (opaque bs') = block_sectors (opaque (fst x)) \<and>
         length (blockmap (opaque bs')) = length (blockmap (opaque (fst x))) \<and>
         (\<forall>i. i div unat (block_sectors (opaque (fst x))) < length (blockmap (opaque (fst x))) \<longrightarrow>
            sector_view be bs' host' i =
              (if nat (sector_num + int n) \<le> i \<and> i < nat (sector_num + int n) + nat (nb_sectors - int n)
               then drop n buf ! (i - nat (sector_num + int n)) else sector_view be (fst x) (snd x) i))"
      proof (rule "1.IH" [OF True Continue rec step(1)])
        show "0 \<le> sector_num + int n"
          using sn(1) by simp
        show "sector_num + int n + (nb_sectors - int n) \<le> total_sectors (fst x)"
          using "1.prems"(4) step(2) by simp
        show "nat (nb_sectors - int n) \<le> length (drop n buf)"
          using "1.prems"(5) pos by simp
      qed
      have a1: "nat (sector_num + int n) = nat sector_num + n"
        using sn(1) by (simp add: nat_add_distrib)
      have a2: "nat (nb_sectors - int n) = nat nb_sectors - n"
        using pos by (simp add: nat_diff_distrib)
      have a3: "n \<le> nat nb_sectors"
        using pos by linarith
      have view: "\<forall>i. i div unat (block_sectors (opaque bs)) < length (blockmap (opaque bs)) \<longrightarrow>
          sector_view be bs' host' i =
            (if nat sector_num \<le> i \<and> i < nat sector_num + nat nb_sectors
             then buf ! (i - nat sector_num) else sector_view be bs host i)"
      proof (intro allI impI)
        fix i assume i: "i div unat (block_sectors (opaque bs)) < length (blockmap (opaque bs))"
        then have i': "i div unat (block_sectors (opaque (fst x))) < length (blockmap (opaque (fst x)))"
          using step(3,4) by simp
        have v2: "sector_view be bs' host' i =
              (if nat sector_num + n \<le> i \<and> i < nat sector_num + n + (nat nb_sectors - n)
               then drop n buf ! (i - (nat sector_num + n)) else sector_view be (fst x) (snd x) i)"
          using ih i' unfolding a1 a2 by blast
        have v1: "sector_view be (fst x) (snd x) i =
            (if nat sector_num \<le> i \<and> i < nat sector_num + n then buf ! (i - nat sector_num)
             else sector_view be bs host i)"
          by (rule step(5) [OF i])
        have d: "nat sector_num + n \<le> i \<Longrightarrow> drop n buf ! (i - (nat sector_num + n)) = buf ! (i - nat sector_num)"
        proof -
          assume "nat sector_num + n \<le> i"
          then have "n + (i - (nat sector_num + n)) = i - nat sector_num"
            by linarith
          then show ?thesis
            by (metis nth_drop "1.prems"(5) a3 order_trans)
        qed
        show "sector_view be bs' host' i =
            (if nat sector_num \<le> i \<and> i < nat sector_num + nat nb_sectors
             then buf ! (i - nat sector_num) else sector_view be bs host i)"
          unfolding v2 v1 using d a3 by auto
      qed
      show ?thesis
        using ih step(2,3,4) view by simp
    qed
  qed
qed

subsection \<open>What a read returns\<close>

lemma fst_bdrv_read: "fst (bdrv_read host off n) = (if fst (next_fault (faults host)) then - EIO else 0)"
  by (simp add: bdrv_read_def Let_def)

lemma data_bdrv_read:
  "\<not> fst (next_fault (faults host)) \<Longrightarrow>
   fst (snd (bdrv_read host off n)) = map (disk host) [off ..< off + n]"
  by (simp add: bdrv_read_def Let_def)

lemma disk_bdrv_read [simp]: "disk (snd (snd (bdrv_read host off n))) = disk host"
  by (simp add: bdrv_read_def Let_def)

lemma trace_bdrv_read [simp]: "trace (snd (snd (bdrv_read host off n))) = trace host @ [Read_op off n]"
  by (simp add: bdrv_read_def Let_def)

lemma faults_bdrv_read [simp]: "faults (snd (snd (bdrv_read host off n))) = snd (next_fault (faults host))"
  by (simp add: bdrv_read_def Let_def)

lemma map_upt_eq_replicate:
  "(\<And>i. a \<le> i \<Longrightarrow> i < a + n \<Longrightarrow> f i = z) \<Longrightarrow> map f [a ..< a + n] = replicate n z"
  by (rule nth_equalityI) simp_all

lemma map_upt_shift:
  "(\<And>j. j < n \<Longrightarrow> f (a + j) = g (b + j)) \<Longrightarrow> map f [a ..< a + n] = map g [b ..< b + n]"
  by (rule nth_equalityI) simp_all

lemma vdi_read_body_Continue_data:
  fixes bs :: BlockDriverState
  defines "B \<equiv> unat (block_sectors (opaque bs))"
  assumes sn: "0 \<le> sector_num" and nb: "0 < nb_sectors"
    and step: "vdi_read_body be bs host sector_num nb_sectors = Continue n x"
  shows "fst x = map (sector_view be bs host) [nat sector_num ..< nat sector_num + n]"
    and "disk (snd x) = disk host"
    and "trace (snd x) = trace host \<or>
         trace (snd x) = trace host @ [Read_op (physical_sector be bs (nat sector_num)) n] \<and>
         (\<forall>j < n. entry be bs ((nat sector_num + j) div B) \<noteq> VDI_UNALLOCATED)"
proof -
  let ?sn = "nat sector_num"
  let ?bi = "?sn div B"
  let ?sib = "?sn mod B"
  let ?n = "min (B - ?sib) (nat nb_sectors)"
  from step have nz: "block_sectors (opaque bs) \<noteq> 0"
    by (auto simp: vdi_read_body_def Let_def)
  then have B: "0 < B"
    by (simp add: B_def unat_gt_0)
  from step nz sn have range: "?bi < length (blockmap (opaque bs))"
    by (auto simp: vdi_read_body_def Let_def nat_div_uint B_def split: if_splits)
  note body = step [unfolded vdi_read_body_unfold [OF sn nz range [unfolded B_def]] Let_def, folded B_def]
  have n1: "?n \<le> B - ?sib"
    by simp
  have chunk: "\<And>i. (?sn \<le> i \<and> i < ?sn + ?n) \<longleftrightarrow>
         (i div B = ?bi \<and> ?sib \<le> i mod B \<and> i mod B < ?sib + ?n)"
    by (rule chunk_iff [OF B n1])
  have all: "fst x = map (sector_view be bs host) [?sn ..< ?sn + n] \<and> disk (snd x) = disk host \<and>
     (trace (snd x) = trace host \<or>
         trace (snd x) = trace host @ [Read_op (physical_sector be bs ?sn) n] \<and>
         (\<forall>j < n. entry be bs ((?sn + j) div B) \<noteq> VDI_UNALLOCATED))"
  proof (cases "entry be bs ?bi = VDI_UNALLOCATED")
    case True
    then have x: "x = (replicate ?n zero_sector, host)" and n: "n = ?n"
      using body by (auto simp add: entry_def)
    have "map (sector_view be bs host) [?sn ..< ?sn + ?n] = replicate ?n zero_sector"
    proof (rule map_upt_eq_replicate)
      fix i assume "?sn \<le> i" "i < ?sn + ?n"
      then have "i div B = ?bi"
        using chunk [of i] by simp
      then show "sector_view be bs host i = zero_sector"
        using True by (simp add: sector_view_def B_def)
    qed
    then show ?thesis
      using x n by simp
  next
    case False
    let ?off = "physical_sector be bs ?sn"
    have off: "unat (offset_data (header (opaque bs))) div SECTOR_SIZE
             + unat (entry be bs ?bi) * B + ?sib = ?off"
      by (simp add: physical_sector_def data_start_def B_def)
    from False body have b: "(case bdrv_read host ?off ?n of
              (r, data, host1) \<Rightarrow>
                if r < 0 then Return (- 1) ([], host1) else Continue ?n (data, host1)) = Continue n x"
      by (simp add: entry_def off [unfolded entry_def])
    then have ok: "\<not> fst (next_fault (faults host))"
      and x: "x = snd (bdrv_read host ?off ?n)" and n: "n = ?n"
      by (auto simp: split_beta fst_bdrv_read EIO_def split: if_splits)
    have same: "\<And>j. j < ?n \<Longrightarrow> (?sn + j) div B = ?bi \<and> (?sn + j) mod B = ?sib + j"
    proof -
      fix j assume j: "j < ?n"
      then have c: "(?sn + j) div B = ?bi \<and> ?sib \<le> (?sn + j) mod B \<and> (?sn + j) mod B < ?sib + ?n"
        using chunk [of "?sn + j"] by simp
      have "?sib + j < B"
        using j B by (simp add: less_diff_conv)
      then have "(?sn + j) mod B = ?sib + j"
        by (metis mod_add_left_eq mod_less)
      with c show "(?sn + j) div B = ?bi \<and> (?sn + j) mod B = ?sib + j"
        by simp
    qed
    have "map (sector_view be bs host) [?sn ..< ?sn + ?n] = map (disk host) [?off ..< ?off + ?n]"
    proof (rule map_upt_shift)
      fix j assume j: "j < ?n"
      show "sector_view be bs host (?sn + j) = disk host (?off + j)"
        using same [OF j] False by (simp add: sector_view_def physical_sector_def B_def add.assoc)
    qed
    moreover have "\<forall>j < ?n. entry be bs ((?sn + j) div B) \<noteq> VDI_UNALLOCATED"
      using same False by simp
    ultimately show ?thesis
      unfolding x n using ok by (simp add: data_bdrv_read)
  qed
  then show "fst x = map (sector_view be bs host) [nat sector_num ..< nat sector_num + n]"
    and "disk (snd x) = disk host"
    and "trace (snd x) = trace host \<or>
         trace (snd x) = trace host @ [Read_op (physical_sector be bs (nat sector_num)) n] \<and>
         (\<forall>j < n. entry be bs ((nat sector_num + j) div B) \<noteq> VDI_UNALLOCATED)"
    by blast+
qed

lemma vdi_read_body_Return: "vdi_read_body be bs host sector_num nb_sectors = Return r x \<Longrightarrow> r = - 1"
  by (auto simp: vdi_read_body_def Let_def split_beta split: if_splits)

lemma reads_allocated_mono:
  "reads_allocated be bs lo hi op \<Longrightarrow> lo' \<le> lo \<Longrightarrow> hi \<le> hi' \<Longrightarrow> reads_allocated be bs lo' hi' op"
proof -
  assume "reads_allocated be bs lo hi op" and lo: "lo' \<le> lo" and hi: "hi \<le> hi'"
  then obtain i n where a: "op = Read_op (physical_sector be bs i) n" "lo \<le> i" "i + n \<le> hi" "0 < n"
      "\<forall>j < n. entry be bs ((i + j) div unat (block_sectors (opaque bs))) \<noteq> VDI_UNALLOCATED"
    unfolding reads_allocated_def by blast
  have "lo' \<le> i" "i + n \<le> hi'"
    using a(2,3) lo hi by linarith+
  with a(1,4,5) show ?thesis
    unfolding reads_allocated_def by blast
qed

lemma vdi_read_loop_view:
  "vdi_read_loop be bs host sector_num nb_sectors acc = Some (0, out, host') \<Longrightarrow>
   0 \<le> sector_num \<Longrightarrow> sector_num + nb_sectors \<le> total_sectors bs \<Longrightarrow>
   out = acc @ map (sector_view be bs host) [nat sector_num ..< nat sector_num + nat nb_sectors] \<and>
   disk host' = disk host \<and>
   (\<exists>ops. trace host' = trace host @ ops \<and>
      (\<forall>op \<in> set ops. reads_allocated be bs (nat sector_num) (nat sector_num + nat nb_sectors) op))"
proof (induction be bs host sector_num nb_sectors acc rule: vdi_read_loop.induct)
  case (1 be bs host sector_num nb_sectors acc)
  show ?case
  proof (cases "nb_sectors > 0 \<and> sector_num < total_sectors bs")
    case False
    then have "nb_sectors \<le> 0"
      using "1.prems"(3) by linarith
    moreover have "out = acc" "host' = host"
      using "1.prems"(1) False
      by (simp_all add: vdi_read_loop.simps [of be bs host sector_num nb_sectors acc])
    ultimately show ?thesis
      by simp
  next
    case True
    note loop = "1.prems"(1) [unfolded vdi_read_loop.simps [of be bs host sector_num nb_sectors acc]]
    show ?thesis
    proof (cases "vdi_read_body be bs host sector_num nb_sectors")
      case Undefined
      then show ?thesis
        using loop True by simp
    next
      case (Return r x)
      then have "r = - 1"
        by (rule vdi_read_body_Return)
      then show ?thesis
        using loop True Return by simp
    next
      case (Continue n x)
      have rec: "vdi_read_loop be bs (snd x) (sector_num + int n) (nb_sectors - int n) (acc @ fst x)
          = Some (0, out, host')"
        using loop True Continue by simp
      have pos: "0 < n \<and> int n \<le> nb_sectors"
        using vdi_read_body_Continue_pos [OF Continue] True by simp
      have sn: "0 \<le> sector_num" "0 < nb_sectors"
        using "1.prems"(2) True by simp_all
      note step = vdi_read_body_Continue_data [OF sn Continue]
      have a1: "nat (sector_num + int n) = nat sector_num + n"
        using sn(1) by (simp add: nat_add_distrib)
      have a2: "nat (nb_sectors - int n) = nat nb_sectors - n"
        using pos by (simp add: nat_diff_distrib)
      have a3: "n \<le> nat nb_sectors"
        using pos by linarith
      have v: "sector_view be bs (snd x) = sector_view be bs host"
        by (rule sector_view_disk_cong) (rule step(2))
      have ih: "out = (acc @ fst x) @ map (sector_view be bs (snd x))
            [nat sector_num + n ..< nat sector_num + n + (nat nb_sectors - n)] \<and>
         disk host' = disk (snd x) \<and>
         (\<exists>ops. trace host' = trace (snd x) @ ops \<and>
            (\<forall>op \<in> set ops. reads_allocated be bs (nat sector_num + n)
                (nat sector_num + n + (nat nb_sectors - n)) op))"
        using "1.IH" [OF True Continue rec] sn(1) "1.prems"(3) unfolding a1 a2 by simp
      have e: "nat sector_num + n + (nat nb_sectors - n) = nat sector_num + nat nb_sectors"
        using a3 by simp
      have "map (sector_view be bs host) [nat sector_num ..< nat sector_num + nat nb_sectors] =
            map (sector_view be bs host) [nat sector_num ..< nat sector_num + n] @
            map (sector_view be bs host) [nat sector_num + n ..< nat sector_num + nat nb_sectors]"
        using a3 by (metis e map_append upt_add_eq_append le_add1)
      then have out: "out = acc @ map (sector_view be bs host) [nat sector_num ..< nat sector_num + nat nb_sectors]"
        using ih step(1) unfolding v e by simp
      from ih obtain ops where ops: "trace host' = trace (snd x) @ ops"
          "\<forall>op \<in> set ops. reads_allocated be bs (nat sector_num + n) (nat sector_num + nat nb_sectors) op"
        unfolding e by blast
      have ops': "\<forall>op \<in> set ops. reads_allocated be bs (nat sector_num) (nat sector_num + nat nb_sectors) op"
        using ops(2) by (auto intro: reads_allocated_mono)
      have tr: "\<exists>ops. trace host' = trace host @ ops \<and>
          (\<forall>op \<in> set ops. reads_allocated be bs (nat sector_num) (nat sector_num + nat nb_sectors) op)"
      proof (rule disjE [OF step(3)])
        assume "trace (snd x) = trace host"
        then show ?thesis
          using ops(1) ops' by auto
      next
        assume a: "trace (snd x) = trace host @ [Read_op (physical_sector be bs (nat sector_num)) n] \<and>
          (\<forall>j < n. entry be bs ((nat sector_num + j) div unat (block_sectors (opaque bs))) \<noteq> VDI_UNALLOCATED)"
        have "reads_allocated be bs (nat sector_num) (nat sector_num + nat nb_sectors)
            (Read_op (physical_sector be bs (nat sector_num)) n)"
          unfolding reads_allocated_def using a a3 pos by auto
        then have "\<forall>op \<in> set (Read_op (physical_sector be bs (nat sector_num)) n # ops).
            reads_allocated be bs (nat sector_num) (nat sector_num + nat nb_sectors) op"
          using ops' by simp
        moreover have "trace host' = trace host @ (Read_op (physical_sector be bs (nat sector_num)) n # ops)"
          using a ops(1) by simp
        ultimately show ?thesis
          by blast
      qed
      show ?thesis
        using out ih step(2) tr by simp
    qed
  qed
qed

subsection \<open>Read and write return when the host does not fail\<close>

lemma next_fault_Nil [simp]: "next_fault [] = (False, [])"
  by (simp add: next_fault_def)

lemma vdi_write_body_no_faults:
  assumes wf: "image_wf be bs"
    and sn: "0 \<le> sector_num" "sector_num < total_sectors bs"
    and nf: "faults host = []"
  shows "\<exists>n x. vdi_write_body be bs host sector_num buf nb_sectors = Continue n x \<and> faults (snd x) = []"
proof -
  let ?B = "unat (block_sectors (opaque bs))"
  let ?sn = "nat sector_num"
  let ?n = "min (?B - ?sn mod ?B) (nat nb_sectors)"
  have B: "0 < ?B"
    by (rule image_wfD(1) [OF wf])
  then have nz: "block_sectors (opaque bs) \<noteq> 0"
    by auto
  have range: "?sn div ?B < length (blockmap (opaque bs))"
    by (rule block_index_in_range [OF wf sn])
  have bsz: "unat (block_size (opaque bs)) div SECTOR_SIZE = ?B"
    by (rule image_wfD(2) [OF wf])
  have sib: "?sn mod ?B < ?B"
    using B by simp
  have c1: "?sn mod ?B + ?n \<le> unat (block_size (opaque bs)) div SECTOR_SIZE"
    unfolding bsz using sib by simp
  have c2: "?B \<le> unat (block_size (opaque bs)) div SECTOR_SIZE"
    unfolding bsz by simp
  show ?thesis
    unfolding vdi_write_body_unfold [OF sn(1) nz range] Let_def
      vdi_write_allocate_unfold [OF c1 c2] vdi_write_existing_def
    using nf
    by (simp add: split_beta data_write_def map_write_def header_write_def fst_bdrv_write)
qed

lemma vdi_write_loop_returns:
  "image_wf be bs \<Longrightarrow> 0 \<le> sector_num \<Longrightarrow> sector_num + nb_sectors \<le> total_sectors bs \<Longrightarrow>
   nat nb_sectors \<le> length buf \<Longrightarrow> faults host = [] \<Longrightarrow>
   \<exists>bs' host'. vdi_write_loop be bs host sector_num buf nb_sectors = Some (0, bs', host') \<and> faults host' = []"
proof (induction be bs host sector_num buf nb_sectors rule: vdi_write_loop.induct)
  case (1 be bs host sector_num buf nb_sectors)
  show ?case
  proof (cases "nb_sectors > 0 \<and> sector_num < total_sectors bs")
    case False
    then show ?thesis
      using "1.prems"(5) by (auto simp add: vdi_write_loop.simps [of be bs host sector_num buf nb_sectors])
  next
    case True
    then have sn: "0 \<le> sector_num" "sector_num < total_sectors bs" "0 < nb_sectors"
      using "1.prems"(2) by simp_all
    obtain n x where body: "vdi_write_body be bs host sector_num buf nb_sectors = Continue n x"
        and nf: "faults (snd x) = []"
      using vdi_write_body_no_faults [OF "1.prems"(1) sn(1,2) "1.prems"(5)] by blast
    have pos: "0 < n \<and> int n \<le> nb_sectors"
      using vdi_write_body_Continue_pos [OF body] True by simp
    note step = vdi_write_body_step [OF "1.prems"(1) sn "1.prems"(4) body]
    have "\<exists>bs' host'. vdi_write_loop be (fst x) (snd x) (sector_num + int n) (drop n buf) (nb_sectors - int n)
        = Some (0, bs', host') \<and> faults host' = []"
    proof (rule "1.IH" [OF True body step(1) _ _ _ nf])
      show "0 \<le> sector_num + int n"
        using sn(1) by simp
      show "sector_num + int n + (nb_sectors - int n) \<le> total_sectors (fst x)"
        using "1.prems"(3) step(2) by simp
      show "nat (nb_sectors - int n) \<le> length (drop n buf)"
        using "1.prems"(4) pos by simp
    qed
    then show ?thesis
      using True body by (simp add: vdi_write_loop.simps [of be bs host sector_num buf nb_sectors])
  qed
qed

lemma vdi_read_body_no_faults:
  assumes B: "block_sectors (opaque bs) \<noteq> 0"
    and sn: "0 \<le> sector_num"
    and range: "nat sector_num div unat (block_sectors (opaque bs)) < length (blockmap (opaque bs))"
    and nf: "faults host = []"
  shows "\<exists>n x. vdi_read_body be bs host sector_num nb_sectors = Continue n x \<and> faults (snd x) = []"
  unfolding vdi_read_body_unfold [OF sn B range] Let_def
  using nf by (simp add: bdrv_read_no_faults)

lemma vdi_read_loop_returns:
  "image_wf be bs \<Longrightarrow> 0 \<le> sector_num \<Longrightarrow> sector_num + nb_sectors \<le> total_sectors bs \<Longrightarrow>
   faults host = [] \<Longrightarrow>
   \<exists>out host'. vdi_read_loop be bs host sector_num nb_sectors acc = Some (0, out, host') \<and> faults host' = []"
proof (induction be bs host sector_num nb_sectors acc rule: vdi_read_loop.induct)
  case (1 be bs host sector_num nb_sectors acc)
  show ?case
  proof (cases "nb_sectors > 0 \<and> sector_num < total_sectors bs")
    case False
    then show ?thesis
      using "1.prems"(4) by (auto simp add: vdi_read_loop.simps [of be bs host sector_num nb_sectors acc])
  next
    case True
    then have sn: "0 \<le> sector_num" "sector_num < total_sectors bs" "0 < nb_sectors"
      using "1.prems"(2) by simp_all
    have nz: "block_sectors (opaque bs) \<noteq> 0"
      using image_wfD(1) [OF "1.prems"(1)] by auto
    obtain n x where body: "vdi_read_body be bs host sector_num nb_sectors = Continue n x"
        and nf: "faults (snd x) = []"
      using vdi_read_body_no_faults [OF nz sn(1) block_index_in_range [OF "1.prems"(1) sn(1,2)] "1.prems"(4)]
      by blast
    have pos: "0 < n \<and> int n \<le> nb_sectors"
      using vdi_read_body_Continue_pos [OF body] True by simp
    have "\<exists>out host'. vdi_read_loop be bs (snd x) (sector_num + int n) (nb_sectors - int n) (acc @ fst x)
        = Some (0, out, host') \<and> faults host' = []"
    proof (rule "1.IH" [OF True body "1.prems"(1) _ _ nf])
      show "0 \<le> sector_num + int n"
        using sn(1) by simp
      show "sector_num + int n + (nb_sectors - int n) \<le> total_sectors bs"
        using "1.prems"(3) by simp
    qed
    then show ?thesis
      using True body by (simp add: vdi_read_loop.simps [of be bs host sector_num nb_sectors acc])
  qed
qed

subsection \<open>Read of unallocated blocks\<close>

lemma vdi_read_view:
  assumes "vdi_read be bs host sector_num dst nb_sectors = Some (0, out, host')"
    and "sector_num + nb_sectors \<le> total_sectors bs"
  shows "0 \<le> sector_num"
    and "out = map (sector_view be bs host) [nat sector_num ..< nat sector_num + nat nb_sectors]
             @ drop (nat nb_sectors) dst"
    and "disk host' = disk host"
    and "\<exists>ops. trace host' = trace host @ ops \<and>
      (\<forall>op \<in> set ops. reads_allocated be bs (nat sector_num) (nat sector_num + nat nb_sectors) op)"
proof -
  show sn: "0 \<le> sector_num"
    using assms(1) by (auto simp: vdi_read_def split: if_splits)
  then obtain filled where l: "vdi_read_loop be bs host sector_num nb_sectors [] = Some (0, filled, host')"
    and out: "out = filled @ drop (length filled) dst"
    using assms(1) by (auto simp: vdi_read_def split: option.splits)
  note v = vdi_read_loop_view [OF l sn assms(2)]
  then have f: "filled = map (sector_view be bs host) [nat sector_num ..< nat sector_num + nat nb_sectors]"
    by simp
  then have "length filled = nat nb_sectors"
    by simp
  with out f show "out = map (sector_view be bs host) [nat sector_num ..< nat sector_num + nat nb_sectors]
             @ drop (nat nb_sectors) dst"
    by simp
  from v show "disk host' = disk host"
    by simp
  from v show "\<exists>ops. trace host' = trace host @ ops \<and>
      (\<forall>op \<in> set ops. reads_allocated be bs (nat sector_num) (nat sector_num + nat nb_sectors) op)"
    by simp
qed

text \<open>
  Claim C7. After a \<^verbatim>\<open>vdi_read\<close> that returns 0 for a range inside the disk, every
  sector of the buffer whose block has the map entry \<^verbatim>\<open>VDI_UNALLOCATED\<close> holds 512
  zero bytes. The host file is not touched for such a sector: the file is as it was,
  and every host operation of the call is a read of sectors of allocated blocks of the
  range (no operation is issued for a block that is unallocated).
\<close>

theorem vdi_read_zero_on_unallocated:
  assumes "vdi_read be bs host sector_num dst nb_sectors = Some (0, out, host')"
    and "sector_num + nb_sectors \<le> total_sectors bs"
  shows "(\<forall>j < nat nb_sectors.
            entry be bs ((nat sector_num + j) div unat (block_sectors (opaque bs))) = VDI_UNALLOCATED \<longrightarrow>
              out ! j = replicate SECTOR_SIZE 0) \<and>
         disk host' = disk host \<and>
         (\<exists>ops. trace host' = trace host @ ops \<and>
            (\<forall>op \<in> set ops. reads_allocated be bs (nat sector_num) (nat sector_num + nat nb_sectors) op))"
proof -
  note v = vdi_read_view [OF assms]
  have "\<forall>j < nat nb_sectors.
            entry be bs ((nat sector_num + j) div unat (block_sectors (opaque bs))) = VDI_UNALLOCATED \<longrightarrow>
              out ! j = replicate SECTOR_SIZE 0"
  proof (intro allI impI)
    fix j assume j: "j < nat nb_sectors"
      and un: "entry be bs ((nat sector_num + j) div unat (block_sectors (opaque bs))) = VDI_UNALLOCATED"
    have "out ! j = sector_view be bs host (nat sector_num + j)"
      unfolding v(2) using j by (simp add: nth_append)
    then show "out ! j = replicate SECTOR_SIZE 0"
      using un by (simp add: sector_view_def zero_sector_def)
  qed
  with v(3,4) show ?thesis
    by blast
qed

theorem vdi_read_zero_on_unallocated_witness:
  "vdi_read False (example_state 2 [VDI_UNALLOCATED, 0] 1)
      (example_host (\<lambda>i. replicate 512 (of_nat i)) []) 2047 [[], []] 2
     = Some (0, [replicate 512 0, replicate 512 2],
         \<lparr> disk = (\<lambda>i. replicate 512 (of_nat i)), faults = [], trace = [Read_op 2 1] \<rparr>) \<and>
   2047 + 2 \<le> total_sectors (example_state 2 [VDI_UNALLOCATED, 0] 1) \<and>
   entry False (example_state 2 [VDI_UNALLOCATED, 0] 1)
     ((nat 2047 + 0) div unat (block_sectors (opaque (example_state 2 [VDI_UNALLOCATED, 0] 1))))
     = VDI_UNALLOCATED \<and>
   [replicate 512 0, replicate 512 (2 :: byte)] ! 0 = replicate SECTOR_SIZE 0 \<and>
   reads_allocated False (example_state 2 [VDI_UNALLOCATED, 0] 1) (nat 2047) (nat 2047 + nat 2) (Read_op 2 1)"
proof -
  let ?S = "example_state 2 [VDI_UNALLOCATED, 0] 1"
  let ?H = "example_host (\<lambda>i. replicate 512 (of_nat i)) []"
  let ?H' = "\<lparr> disk = (\<lambda>i. replicate 512 (of_nat i)), faults = [], trace = [Read_op 2 1] \<rparr>"
  have r: "vdi_read False ?S ?H 2047 [[], []] 2 = Some (0, [replicate 512 0, replicate 512 2], ?H')"
    by (simp add: vdi_read_def vdi_read_loop.simps vdi_read_body_def example_state_def example_host_def
      example_header_def zero_VdiHeader_def Let_def le32_to_cpu_def VDI_UNALLOCATED_def
      bdrv_read_def next_fault_def zero_sector_def)
  have t: "2047 + 2 \<le> total_sectors ?S"
    by (simp add: example_state_def)
  have e: "entry False ?S ((nat 2047 + 0) div unat (block_sectors (opaque ?S))) = VDI_UNALLOCATED"
    by (simp add: entry_def example_state_def le32_to_cpu_def)
  have tr: "trace ?H = []"
    by (simp add: example_host_def)
  from vdi_read_zero_on_unallocated [OF r t] e tr show ?thesis
    using r t by auto
qed

subsection \<open>Images as \<^verbatim>\<open>vdi_create\<close> writes and \<^verbatim>\<open>vdi_open\<close> reads them\<close>

lemma example_state_simps:
  "total_sectors (example_state n bmap a) = int (n * 2048)"
  "block_sectors (opaque (example_state n bmap a)) = 2048"
  "block_size (opaque (example_state n bmap a)) = 0x100000"
  "blockmap (opaque (example_state n bmap a)) = bmap"
  "blocks_allocated (header (opaque (example_state n bmap a))) = a"
  "blocks_in_image (header (opaque (example_state n bmap a))) = of_nat n"
  "offset_blockmap (header (opaque (example_state n bmap a))) = 0x200"
  "offset_data (header (opaque (example_state n bmap a))) = of_nat (0x200 + ((n * 4 + 511) div 512) * 512)"
  by (simp_all add: example_state_def example_header_def zero_VdiHeader_def)

lemma entry_False: "entry False bs i = blockmap (opaque bs) ! i"
  by (simp add: entry_def le32_to_cpu_def)

lemma vdi_open_state:
  assumes "faults host = []"
    and "version (header_read be host) = VDI_VERSION_1_1"
    and "unat (offset_blockmap (header_read be host)) mod SECTOR_SIZE = 0"
    and "unat (offset_data (header_read be host)) mod SECTOR_SIZE = 0"
    and "sector_size (header_read be host) = 512"
    and "VdiHeader.block_size (header_read be host) = 0x100000"
    and "disk_size (header_read be host) =
          ucast (blocks_in_image (header_read be host)) * ucast (VdiHeader.block_size (header_read be host))"
  shows "vdi_open be (Inr host) uninit =
     (0, Some
       (\<lparr> total_sectors = int (unat (disk_size (header_read be host)) div SECTOR_SIZE),
          opaque =
            \<lparr> blockmap = load_blockmap be
                (map (disk host)
                   [unat (offset_blockmap (header_read be host)) div SECTOR_SIZE ..<
                    unat (offset_blockmap (header_read be host)) div SECTOR_SIZE
                      + unat (blocks_in_image (header_read be host)) * 4 div SECTOR_SIZE])
                uninit (unat (blocks_in_image (header_read be host))),
              after_blockmap =
                (\<lambda>j. mem32 be (uninit (unat (blocks_in_image (header_read be host)) + j div 4)) ! (j mod 4)),
              block_size = 0x100000, block_sectors = 2048,
              header = header_read be host \<rparr> \<rparr>,
        host\<lparr> trace := trace host @
          [Read_op 0 1,
           Read_op (unat (offset_blockmap (header_read be host)) div SECTOR_SIZE)
             (unat (blocks_in_image (header_read be host)) * 4 div SECTOR_SIZE)] \<rparr>))"
  unfolding vdi_open_def
  using assms
  by (simp add: bdrv_read_no_faults header_read_def Let_def MiB_def KiB_def)

lemma mem32_0: "mem32 be 0 ! (j mod 4) = 0"
proof -
  have "j mod 4 < 4"
    by simp
  then consider "j mod 4 = 0" | "j mod 4 = 1" | "j mod 4 = 2" | "j mod 4 = 3"
    by linarith
  then show ?thesis
    by cases (simp_all add: mem32_def le_bytes32_def)
qed

lemma vdi_open_example:
  "vdi_open False (Inr (example_file (example_header\<lparr> blocks_allocated := a \<rparr>))) stale_memory =
     (0, Some (example_state 2 [0, VDI_UNALLOCATED] a,
        (example_file (example_header\<lparr> blocks_allocated := a \<rparr>))
          \<lparr> trace := [Read_op 0 1, Read_op 1 0] \<rparr>))"
proof -
  let ?h = "example_header\<lparr> blocks_allocated := a \<rparr>"
  have s: "VdiHeader_sized ?h"
    by (simp add: VdiHeader_sized_def example_header_def zero_VdiHeader_def)
  note r = header_read_example [OF s]
  have f: "faults (example_file ?h) = []" and t: "trace (example_file ?h) = []"
    by (simp_all add: example_file_def)
  have m: "(\<lambda>j. mem32 False (stale_memory (2 + j div 4)) ! (j mod 4)) = (\<lambda>j. 0)"
    by (rule ext) (simp add: stale_memory_def mem32_0)
  have u: "[0 ..< 2] = [0, Suc 0]"
    by (simp add: numeral_2_eq_2)
  have "vdi_open False (Inr (example_file ?h)) stale_memory = (0, Some
       (\<lparr> total_sectors = int (unat (disk_size ?h) div SECTOR_SIZE),
          opaque =
            \<lparr> blockmap = load_blockmap False
                (map (disk (example_file ?h))
                   [unat (offset_blockmap ?h) div SECTOR_SIZE ..<
                    unat (offset_blockmap ?h) div SECTOR_SIZE
                      + unat (blocks_in_image ?h) * 4 div SECTOR_SIZE])
                stale_memory (unat (blocks_in_image ?h)),
              after_blockmap =
                (\<lambda>j. mem32 False (stale_memory (unat (blocks_in_image ?h) + j div 4)) ! (j mod 4)),
              block_size = 0x100000, block_sectors = 2048,
              header = ?h \<rparr> \<rparr>,
        (example_file ?h)\<lparr> trace := trace (example_file ?h) @
          [Read_op 0 1,
           Read_op (unat (offset_blockmap ?h) div SECTOR_SIZE)
             (unat (blocks_in_image ?h) * 4 div SECTOR_SIZE)] \<rparr>))"
    by (rule vdi_open_state [of "example_file ?h" False, unfolded r, OF f])
       (simp_all add: example_header_def zero_VdiHeader_def VDI_VERSION_1_1_def)
  also have "\<dots> = (0, Some (example_state 2 [0, VDI_UNALLOCATED] a,
        (example_file ?h)\<lparr> trace := [Read_op 0 1, Read_op 1 0] \<rparr>))"
    unfolding t
    by (simp add: example_state_def example_header_def zero_VdiHeader_def load_blockmap_def m u
        stale_memory_def mem32_0)
  finally show ?thesis .
qed

lemma example_header_blocks_allocated: "example_header\<lparr> blocks_allocated := 0 \<rparr> = example_header"
  by (simp add: example_header_def zero_VdiHeader_def)

lemma example_header_sized: "VdiHeader_sized (header (opaque (example_state n bmap a)))"
  by (simp add: VdiHeader_sized_def example_state_def example_header_def zero_VdiHeader_def)

lemma header_read_fresh_image:
  "header_read False (fresh_image n) = header (opaque (example_state n [] 0))"
  by (simp add: header_read_def fresh_image_def header_round_trip example_header_sized)

lemma example_header_fields:
  "version (header (opaque (example_state n bmap a))) = VDI_VERSION_1_1"
  "sector_size (header (opaque (example_state n bmap a))) = 512"
  "VdiHeader.block_size (header (opaque (example_state n bmap a))) = 0x100000"
  "disk_size (header (opaque (example_state n bmap a))) = of_nat (n * 0x100000)"
  by (simp_all add: example_state_def example_header_def zero_VdiHeader_def)

lemma ld32_erased:
  assumes "4 * i + 4 \<le> m"
  shows "ld32 False (replicate m 0xff) (4 * i) = VDI_UNALLOCATED"
proof -
  have r4: "replicate 4 x = [x, x, x, x]" for x :: byte
    by (simp add: numeral_eq_Suc)
  have "segment (4 * i) 4 (replicate m (0xff :: byte)) = replicate 4 0xff"
    using assms by (simp add: segment_def min_def)
  then have "ld32 False (replicate m 0xff) (4 * i) = word_of_le32 [0xff, 0xff, 0xff, 0xff]"
    unfolding r4 by (simp only: ld32_def if_False)
  also have "\<dots> = VDI_UNALLOCATED"
    by (simp add: word_of_le32_def VDI_UNALLOCATED_def)
  finally show ?thesis .
qed

lemma concat_replicate_replicate: "concat (replicate k (replicate m x)) = replicate (k * m) x"
  by (induction k) (simp_all add: replicate_add)

lemma load_blockmap_erased:
  assumes "n \<le> 128 * k"
  shows "load_blockmap False (replicate k (replicate SECTOR_SIZE 0xff)) uninit n
           = replicate n VDI_UNALLOCATED"
proof -
  have "map (\<lambda>i. if 4 * i < k * SECTOR_SIZE then ld32 False (replicate (k * SECTOR_SIZE) 0xff) (4 * i) else uninit i)
          [0 ..< 0 + n] = replicate n VDI_UNALLOCATED"
  proof (rule map_upt_eq_replicate)
    fix i assume "0 \<le> i" "i < 0 + n"
    then have "4 * i + 4 \<le> k * SECTOR_SIZE"
      using assms by simp
    then show "(if 4 * i < k * SECTOR_SIZE then ld32 False (replicate (k * SECTOR_SIZE) 0xff) (4 * i) else uninit i)
        = VDI_UNALLOCATED"
      by (simp add: ld32_erased)
  qed
  then show ?thesis
    unfolding load_blockmap_def concat_replicate_replicate by simp
qed

lemma vdi_open_fresh_image:
  assumes n: "0 < n" "n mod 128 = 0" "n \<le> 4096"
  shows "vdi_open False (Inr (fresh_image n)) uninit =
     (0, Some
       ((example_state n (replicate n VDI_UNALLOCATED) 0)
          \<lparr> opaque := (opaque (example_state n (replicate n VDI_UNALLOCATED) 0))
              \<lparr> after_blockmap := (\<lambda>j. mem32 False (uninit (n + j div 4)) ! (j mod 4)) \<rparr> \<rparr>,
        (fresh_image n)\<lparr> trace := [Read_op 0 1, Read_op 1 (n div 128)] \<rparr>))"
proof -
  let ?h = "header (opaque (example_state n [] 0))"
  have f: "faults (fresh_image n) = []" and t: "trace (fresh_image n) = []"
    by (simp_all add: fresh_image_def)
  have u: "unat (of_nat n :: u32) = n"
    by (rule of_nat_inverse [OF refl]) (use n(3) in simp)
  have od: "unat (of_nat (0x200 + ((n * 4 + 511) div 512) * 512) :: u32) = 0x200 + ((n * 4 + 511) div 512) * 512"
    by (rule of_nat_inverse [OF refl]) (use n(3) in simp)
  have ds: "unat (of_nat (n * 0x100000) :: u64) = n * 0x100000"
    by (rule of_nat_inverse [OF refl]) (use n(3) in simp)
  have uc: "(ucast (of_nat n :: u32) :: u64) = of_nat n"
    using u by (metis of_nat_unat)
  have c: "version ?h = VDI_VERSION_1_1"
    "unat (offset_blockmap ?h) mod SECTOR_SIZE = 0"
    "unat (offset_data ?h) mod SECTOR_SIZE = 0"
    "sector_size ?h = 512"
    "VdiHeader.block_size ?h = 0x100000"
    "disk_size ?h = ucast (blocks_in_image ?h) * ucast (VdiHeader.block_size ?h)"
    unfolding example_header_fields example_state_simps od uc
    by simp_all
  have m: "map (disk (fresh_image n))
      [unat (offset_blockmap ?h) div SECTOR_SIZE ..<
       unat (offset_blockmap ?h) div SECTOR_SIZE + unat (blocks_in_image ?h) * 4 div SECTOR_SIZE]
      = replicate (n div 128) (replicate SECTOR_SIZE 0xff)"
  proof -
    have "map (disk (fresh_image n)) [1 ..< 1 + n div 128] = replicate (n div 128) (replicate SECTOR_SIZE 0xff)"
      by (rule map_upt_eq_replicate) (simp add: fresh_image_def)
    then show ?thesis
      unfolding example_state_simps u by simp
  qed
  have k: "n \<le> 128 * (n div 128)"
    using mult_div_mod_eq [of 128 n] n(2) by simp
  have l: "load_blockmap False
      (map (disk (fresh_image n))
        [unat (offset_blockmap ?h) div SECTOR_SIZE ..<
         unat (offset_blockmap ?h) div SECTOR_SIZE + unat (blocks_in_image ?h) * 4 div SECTOR_SIZE])
      uninit (unat (blocks_in_image ?h)) = replicate n VDI_UNALLOCATED"
    unfolding m unfolding example_state_simps u by (rule load_blockmap_erased [OF k])
  have ts: "int (unat (disk_size ?h) div SECTOR_SIZE) = int (n * 2048)"
    unfolding example_header_fields ds by simp
  have nb: "unat (blocks_in_image ?h) = n" "unat (offset_blockmap ?h) div SECTOR_SIZE = 1"
    "unat (blocks_in_image ?h) * 4 div SECTOR_SIZE = n div 128"
    unfolding example_state_simps u by simp_all
  note e = vdi_open_state [of "fresh_image n" False, unfolded header_read_fresh_image, OF f c]
  show ?thesis
    unfolding e l ts unfolding nb t
    by (simp add: example_state_def)
qed

lemma image_wf_fresh:
  assumes "0 < n" "n \<le> 4096"
  shows "image_wf False ((example_state n (replicate n VDI_UNALLOCATED) 0)
          \<lparr> opaque := (opaque (example_state n (replicate n VDI_UNALLOCATED) 0))
              \<lparr> after_blockmap := tail_bytes \<rparr> \<rparr>)"
proof -
  let ?S = "(example_state n (replicate n VDI_UNALLOCATED) 0)
          \<lparr> opaque := (opaque (example_state n (replicate n VDI_UNALLOCATED) 0))
              \<lparr> after_blockmap := tail_bytes \<rparr> \<rparr>"
  have u: "unat (of_nat n :: u32) = n"
    by (rule of_nat_inverse [OF refl]) (use assms(2) in simp)
  have od: "unat (of_nat (0x200 + ((n * 4 + 511) div 512) * 512) :: u32) = 0x200 + ((n * 4 + 511) div 512) * 512"
    by (rule of_nat_inverse [OF refl]) (use assms(2) in simp)
  have d: "(n + 127) div 128 \<le> (n * 4 + 511) div 512"
  proof -
    have "(4 * (n + 127)) div (4 * 128) = (n + 127) div 128"
      by (rule div_mult_mult1) simp
    moreover have "(4 * (n + 127)) div 512 \<le> (n * 4 + 511) div 512"
      by (rule div_le_mono) simp
    ultimately show ?thesis
      by simp
  qed
  have s: "total_sectors ?S = int (n * 2048)" "block_sectors (opaque ?S) = 2048"
    "block_size (opaque ?S) = 0x100000" "blockmap (opaque ?S) = replicate n VDI_UNALLOCATED"
    "blocks_allocated (header (opaque ?S)) = 0" "blocks_in_image (header (opaque ?S)) = of_nat n"
    "offset_blockmap (header (opaque ?S)) = 0x200"
    "offset_data (header (opaque ?S)) = of_nat (0x200 + ((n * 4 + 511) div 512) * 512)"
    by (simp_all add: example_state_simps)
  have e: "entry False ?S i = VDI_UNALLOCATED" if "i < n" for i
    using that by (simp add: entry_False example_state_simps)
  have c: "count_allocated False ?S = 0"
    by (simp add: count_allocated_def example_state_simps le32_to_cpu_def)
  show ?thesis
    unfolding image_wf_def s c data_start_def map_start_def od u
    using assms(1) d e by simp
qed

lemma vdi_create_fresh_image:
  assumes n: "0 < n" "n mod 128 = 0" "n \<le> 4096"
  shows "vdi_create False True [\<lparr> name = ''size'', value_n = of_nat (n * 0x100000) \<rparr>] [] [] =
     (0, concat (map (disk (fresh_image n)) [0 ..< 1 + n div 128]))"
proof -
  let ?o = "[\<lparr> name = ''size'', value_n = of_nat (n * 0x100000) \<rparr>]"
  have ro: "read_options ?o (0, VDI_TYPE_DYNAMIC) = (of_nat (n * 0x100000), VDI_TYPE_DYNAMIC)"
    by (simp add: BLOCK_OPT_SIZE_def)
  have mib: "1 * MiB = 0x100000"
    by (simp add: MiB_def KiB_def)
  have ds: "unat (of_nat (n * 0x100000) :: u64) = n * 0x100000"
    by (rule of_nat_inverse [OF refl]) (use n(3) in simp)
  have m: "unat (of_nat 0x100000 :: u64) = 0x100000"
    by simp
  have "unat ((of_nat (n * 0x100000) :: u64) div of_nat 0x100000) = n"
    unfolding unat_div ds m by simp
  moreover have "of_nat (unat w) = w" for w :: u64
    by (simp add: of_nat_unat)
  ultimately have dv: "(of_nat (n * 0x100000) :: u64) div of_nat 0x100000 = of_nat n"
    by metis
  have un: "unat (of_nat n :: u64) = n"
    by (rule of_nat_inverse [OF refl]) (use n(3) in simp)
  have dc: "(ucast (of_nat n :: u64) :: u32) = of_nat n"
    using un by (metis of_nat_unat)
  have u: "unat (of_nat n :: u32) = n"
    by (rule of_nat_inverse [OF refl]) (use n(3) in simp)
  obtain k where k: "n = 128 * k"
    using n(2) by (auto simp: mod_eq_0_iff_dvd)
  have sz: "(n * 4 + SECTOR_SIZE - 1) div SECTOR_SIZE * SECTOR_SIZE = 4 * n"
    "(n * 4 + 511) div 512 * 512 = 4 * n" "n div 128 = k"
    unfolding k by simp_all
  have r4: "[0xff, 0xff, 0xff, 0xff] = replicate 4 (0xff :: byte)"
    by (simp add: numeral_eq_Suc)
  have bm: "fixed (4 * n) (concat (replicate n (mem32 False VDI_UNALLOCATED))) = replicate (4 * n) 0xff"
    unfolding mem32_VDI_UNALLOCATED r4 concat_replicate_replicate
    by (simp add: fixed_def mult.commute)
  have mp: "map (disk (fresh_image n)) [1 ..< 1 + k] = replicate k (replicate SECTOR_SIZE 0xff)"
    by (rule map_upt_eq_replicate) (simp add: fresh_image_def sz)
  have d0: "disk (fresh_image n) 0 =
      mem_of_VdiHeader False (vdi_header_to_le False (header (opaque (example_state n [] 0))))"
    by (simp add: fresh_image_def)
  have up: "[0 ..< 1 + k] = 0 # [1 ..< 1 + k]"
    by (simp add: upt_conv_Cons)
  have fi: "concat (map (disk (fresh_image n)) [0 ..< 1 + k]) =
      mem_of_VdiHeader False (vdi_header_to_le False (header (opaque (example_state n [] 0))))
      @ replicate (4 * n) 0xff"
    unfolding up list.map mp d0 concat.simps concat_replicate_replicate
    by (simp add: k)
  let ?f = "snd (vdi_create False True ?o [] [])"
  have hd: "take sizeof_VdiHeader ?f =
      mem_of_VdiHeader False (vdi_header_to_le False (header (opaque (example_state n [] 0))))"
    unfolding vdi_create_header ro fst_conv snd_conv mib dv dc u sz example_state_def
    by (simp add: example_header_def zero_VdiHeader_def fixed_def VDI_TYPE_DYNAMIC_def)
  have tl: "drop sizeof_VdiHeader ?f = replicate (4 * n) 0xff"
    unfolding vdi_create_blockmap ro fst_conv mib dv dc u sz bm ..
  have "?f = take sizeof_VdiHeader ?f @ drop sizeof_VdiHeader ?f"
    by simp
  then have "?f = concat (map (disk (fresh_image n)) [0 ..< 1 + n div 128])"
    unfolding hd tl sz fi .
  moreover have "fst (vdi_create False True ?o [] []) = 0"
    by (simp add: vdi_create_def Let_def split: prod.splits)
  ultimately show ?thesis
    by (simp add: prod_eq_iff)
qed

lemma vdi_create_128:
  "vdi_create False True [\<lparr> name = ''size'', value_n = 0x8000000 \<rparr>] [] [] =
     (0, concat (map (disk (fresh_image 128)) [0 ..< 2]))"
  using vdi_create_fresh_image [of 128] by (simp add: numeral_2_eq_2)

lemma vdi_create_256:
  "vdi_create False True [\<lparr> name = ''size'', value_n = 0x10000000 \<rparr>] [] [] =
     (0, concat (map (disk (fresh_image 256)) [0 ..< 3]))"
  using vdi_create_fresh_image [of 256] by (simp add: numeral_3_eq_3)

lemma write_across_blocks:
  assumes "faults h = []" "disk h 2049 = zero_sector"
  shows "\<exists>h'. vdi_write False (example_state 2 [0, VDI_UNALLOCATED] 0) h
       2047 [replicate 512 0xaa, replicate 512 0xbb] 2 = Some (0, example_state 2 [0, 0] 1, h') \<and>
     faults h' = [] \<and> disk h' 2049 = zero_sector \<and> disk h' 2 = replicate 512 0xbb"
  using assms
  by (simp add: vdi_write_def vdi_write_loop.simps vdi_write_body_def vdi_write_allocate_def
      vdi_write_existing_def Let_def example_state_def example_header_def zero_VdiHeader_def
      bdrv_write_def le32_to_cpu_def cpu_to_le32_def VDI_UNALLOCATED_def
      store_def memcpy_sectors_def nth_append)

lemma read_across_blocks:
  assumes "faults h' = []" "disk h' 2049 = zero_sector" "disk h' 2 = replicate 512 0xbb"
  shows "\<exists>h''. vdi_read False (example_state 2 [0, 0] 1) h' 2047 [[], []] 2
     = Some (0, [zero_sector, replicate 512 0xbb], h'')"
  using assms
  by (simp add: vdi_read_def vdi_read_loop.simps vdi_read_body_def Let_def example_state_def
      example_header_def zero_VdiHeader_def bdrv_read_def le32_to_cpu_def VDI_UNALLOCATED_def)

subsection \<open>Read after write\<close>

lemma vdi_write_view:
  assumes wf: "image_wf be bs"
    and range: "0 \<le> sector_num" "sector_num + nb_sectors \<le> total_sectors bs"
    and len: "length buf = nat nb_sectors"
    and w: "vdi_write be bs host sector_num buf nb_sectors = Some (0, bs', host')"
  shows "image_wf be bs'"
    and "total_sectors bs' = total_sectors bs"
    and "map (sector_view be bs' host') [nat sector_num ..< nat sector_num + nat nb_sectors] = buf"
proof -
  let ?B = "unat (block_sectors (opaque bs))"
  from w range(1) have l: "vdi_write_loop be bs host sector_num buf nb_sectors = Some (0, bs', host')"
    by (simp add: vdi_write_def)
  have nb: "nat nb_sectors \<le> length buf"
    using len by simp
  note v = vdi_write_loop_view [OF l wf range nb]
  from v show "image_wf be bs'" and t: "total_sectors bs' = total_sectors bs"
    by simp_all
  have B: "0 < ?B"
    by (rule image_wfD(1) [OF wf])
  show "map (sector_view be bs' host') [nat sector_num ..< nat sector_num + nat nb_sectors] = buf"
  proof (rule nth_equalityI)
    show "length (map (sector_view be bs' host') [nat sector_num ..< nat sector_num + nat nb_sectors]) = length buf"
      using len by simp
  next
    fix j
    assume "j < length (map (sector_view be bs' host') [nat sector_num ..< nat sector_num + nat nb_sectors])"
    then have j: "j < nat nb_sectors"
      by simp
    then have "int (nat sector_num + j) < total_sectors bs"
      using range by linarith
    then have "nat sector_num + j < length (blockmap (opaque bs)) * ?B"
      using image_wfD(3) [OF wf] by linarith
    then have "(nat sector_num + j) div ?B < length (blockmap (opaque bs))"
      by (simp add: less_mult_imp_div_less)
    then have "sector_view be bs' host' (nat sector_num + j) = buf ! j"
      using v j by simp
    then show "map (sector_view be bs' host') [nat sector_num ..< nat sector_num + nat nb_sectors] ! j = buf ! j"
      using j by simp
  qed
qed

text \<open>
  Claim C6, as the spec states it: for every sector number of the disk and every count
  in range, a read after a successful write returns the buffer written. It fails on a
  state that \<^verbatim>\<open>vdi_open\<close> returns. The block map of the 2 MiB image that
  \<^verbatim>\<open>vdi_create\<close> writes is 8 bytes long, \<^verbatim>\<open>vdi_open\<close> reads
  \<open>8 div 512 = 0\<close> sectors of it, and the entries are what the allocation held: with
  entry 0 being 0 and entry 1 being \<^verbatim>\<open>0xffffffff\<close> block 0 is at physical index 0
  while \<open>blocks_allocated\<close> is 0. A write of two sectors at sector 2047 returns 0: it
  writes the last sector of block 0, then allocates block 1 at physical index 0 again
  and writes the whole physical block. The read of the two sectors returns 0 and gives
  a sector of zeros and the second sector written.
\<close>

theorem vdi_read_after_vdi_write_counterexample:
  "vdi_open False (Inr (example_file example_header)) stale_memory =
     (0, Some (example_state 2 [0, VDI_UNALLOCATED] 0,
               (example_file example_header)\<lparr> trace := [Read_op 0 1, Read_op 1 0] \<rparr>)) \<and>
   (0 :: int) \<le> 2047 \<and> 2047 + 2 \<le> total_sectors (example_state 2 [0, VDI_UNALLOCATED] 0) \<and>
   vdi_write_then_read False (example_state 2 [0, VDI_UNALLOCATED] 0)
     ((example_file example_header)\<lparr> trace := [Read_op 0 1, Read_op 1 0] \<rparr>)
     2047 [replicate 512 0xaa, replicate 512 0xbb] 2 [[], []]
     = Some (0, 0, [replicate 512 0, replicate 512 0xbb]) \<and>
   [replicate 512 0, replicate 512 0xbb] \<noteq> [replicate 512 (0xaa :: byte), replicate 512 0xbb]"
proof -
  let ?S = "example_state 2 [0, VDI_UNALLOCATED] 0"
  let ?H = "(example_file example_header)\<lparr> trace := [Read_op 0 1, Read_op 1 0] \<rparr>"
  have ne: "[replicate 512 0, replicate 512 0xbb] \<noteq> [replicate 512 (0xaa :: byte), replicate 512 0xbb]"
    by (simp add: replicate_eq_replicate)
  have o: "vdi_open False (Inr (example_file example_header)) stale_memory = (0, Some (?S, ?H))"
    using vdi_open_example [of 0] unfolding example_header_blocks_allocated .
  have "faults ?H = []" "disk ?H 2049 = zero_sector"
    by (simp_all add: example_file_def)
  then obtain h' where w: "vdi_write False ?S ?H 2047 [replicate 512 0xaa, replicate 512 0xbb] 2
        = Some (0, example_state 2 [0, 0] 1, h')"
    and h: "faults h' = []" "disk h' 2049 = zero_sector" "disk h' 2 = replicate 512 0xbb"
    using write_across_blocks by blast
  obtain h'' where r: "vdi_read False (example_state 2 [0, 0] 1) h' 2047 [[], []] 2
     = Some (0, [zero_sector, replicate 512 0xbb], h'')"
    using read_across_blocks [OF h] by blast
  have "vdi_write_then_read False ?S ?H 2047 [replicate 512 0xaa, replicate 512 0xbb] 2 [[], []]
     = Some (0, 0, [replicate 512 0, replicate 512 0xbb])"
    unfolding vdi_write_then_read_def w by (simp add: r zero_sector_def)
  with o ne show ?thesis
    by (simp add: example_state_simps)
qed

text \<open>
  Claim C6, amended. Take a well-formed opened image: its block map covers the disk
  and has one entry per block of the header, \<open>blocks_allocated\<close> is the number of
  allocated entries, every allocated entry is a physical index below
  \<open>blocks_allocated\<close>, no two blocks share a physical index, and header sector, block
  map and data region follow each other in the file. Take a sector number in the disk,
  a count that stays inside the disk, and a buffer of that many sectors. If
  \<^verbatim>\<open>vdi_write\<close> returns 0 and a \<^verbatim>\<open>vdi_read\<close> of the same range on the resulting
  state and host file returns 0, then the read buffer holds exactly the sectors that
  were written (followed by what the destination buffer held behind them). When the
  host file does not fail, the write and the read do return 0. Blocks that the write
  allocates on the way, also several of them in one call, are covered.
\<close>

theorem vdi_read_after_vdi_write:
  assumes wf: "image_wf be bs"
    and range: "0 \<le> sector_num" "sector_num + nb_sectors \<le> total_sectors bs"
    and len: "length buf = nat nb_sectors"
  shows "(vdi_write be bs host sector_num buf nb_sectors = Some (0, bs', host') \<longrightarrow>
          vdi_read be bs' host' sector_num dst nb_sectors = Some (0, out, host'') \<longrightarrow>
          out = buf @ drop (length buf) dst) \<and>
         (faults host = [] \<longrightarrow>
          (\<exists>bs' host' host''.
             vdi_write be bs host sector_num buf nb_sectors = Some (0, bs', host') \<and>
             vdi_read be bs' host' sector_num dst nb_sectors
               = Some (0, buf @ drop (length buf) dst, host'')))"
proof (intro conjI impI)
  assume w: "vdi_write be bs host sector_num buf nb_sectors = Some (0, bs', host')"
    and r: "vdi_read be bs' host' sector_num dst nb_sectors = Some (0, out, host'')"
  note v = vdi_write_view [OF wf range len w]
  have "sector_num + nb_sectors \<le> total_sectors bs'"
    using v(2) range(2) by simp
  from vdi_read_view(2) [OF r this] show "out = buf @ drop (length buf) dst"
    unfolding v(3) len .
next
  assume nf: "faults host = []"
  have nb: "nat nb_sectors \<le> length buf"
    using len by simp
  obtain bs' host' where w: "vdi_write be bs host sector_num buf nb_sectors = Some (0, bs', host')"
      and nf': "faults host' = []"
    using vdi_write_loop_returns [OF wf range nb nf] range(1) by (auto simp: vdi_write_def)
  note v = vdi_write_view [OF wf range len w]
  have t: "sector_num + nb_sectors \<le> total_sectors bs'"
    using v(2) range(2) by simp
  obtain filled host'' where l: "vdi_read_loop be bs' host' sector_num nb_sectors [] = Some (0, filled, host'')"
    using vdi_read_loop_returns [OF v(1) range(1) t nf'] by blast
  then have r: "vdi_read be bs' host' sector_num dst nb_sectors
      = Some (0, filled @ drop (length filled) dst, host'')"
    using range(1) by (simp add: vdi_read_def)
  from vdi_read_view(2) [OF r t] have "filled @ drop (length filled) dst = buf @ drop (length buf) dst"
    unfolding v(3) len .
  with w r show "\<exists>bs' host' host''.
             vdi_write be bs host sector_num buf nb_sectors = Some (0, bs', host') \<and>
             vdi_read be bs' host' sector_num dst nb_sectors
               = Some (0, buf @ drop (length buf) dst, host'')"
    by auto
qed

text \<open>
  An instance: the 128 MiB image that \<^verbatim>\<open>vdi_create\<close> writes, opened by
  \<^verbatim>\<open>vdi_open\<close>. Its block map fills one sector, which \<^verbatim>\<open>vdi_open\<close> reads, so
  the state is well-formed whatever the allocation of the block map held. Two sectors
  written across the boundary of blocks 0 and 1 are read back.
\<close>

theorem vdi_read_after_vdi_write_witness:
  "\<exists>bs host.
     vdi_create False True [\<lparr> name = ''size'', value_n = 0x8000000 \<rparr>] [] [] =
       (0, concat (map (disk (fresh_image 128)) [0 ..< 2])) \<and>
     vdi_open False (Inr (fresh_image 128)) stale_memory = (0, Some (bs, host)) \<and>
     image_wf False bs \<and>
     (0 :: int) \<le> 2047 \<and> 2047 + 2 \<le> total_sectors bs \<and>
     length [replicate 512 (0xaa :: byte), replicate 512 0xbb] = nat 2 \<and>
     faults host = [] \<and>
     (\<exists>bs' host' host''.
        vdi_write False bs host 2047 [replicate 512 0xaa, replicate 512 0xbb] 2 = Some (0, bs', host') \<and>
        vdi_read False bs' host' 2047 [[], []] 2
          = Some (0, [replicate 512 0xaa, replicate 512 0xbb], host''))"
proof -
  let ?S = "(example_state 128 (replicate 128 VDI_UNALLOCATED) 0)
      \<lparr> opaque := (opaque (example_state 128 (replicate 128 VDI_UNALLOCATED) 0))
          \<lparr> after_blockmap := (\<lambda>j. mem32 False (stale_memory (128 + j div 4)) ! (j mod 4)) \<rparr> \<rparr>"
  let ?H = "(fresh_image 128)\<lparr> trace := [Read_op 0 1, Read_op 1 (128 div 128)] \<rparr>"
  let ?buf = "[replicate 512 (0xaa :: byte), replicate 512 0xbb]"
  have o: "vdi_open False (Inr (fresh_image 128)) stale_memory = (0, Some (?S, ?H))"
    by (rule vdi_open_fresh_image) simp_all
  have wf: "image_wf False ?S"
    by (rule image_wf_fresh) simp_all
  have r: "(0 :: int) \<le> 2047" "2047 + 2 \<le> total_sectors ?S"
    by (simp_all add: example_state_simps)
  have l: "length ?buf = nat 2"
    by simp
  have f: "faults ?H = []"
    by (simp add: fresh_image_def)
  from vdi_read_after_vdi_write [OF wf r l, of ?H _ _ "[[], []]"] f
  have "\<exists>bs' host' host''.
      vdi_write False ?S ?H 2047 ?buf 2 = Some (0, bs', host') \<and>
      vdi_read False bs' host' 2047 [[], []] 2 = Some (0, ?buf, host'')"
    by simp
  with vdi_create_128 o wf r l f show ?thesis
    by blast
qed

subsection \<open>Allocations\<close>

lemma vdi_write_existing_state:
  "vdi_write_existing bs host e sib buf n = Return r x \<or>
   vdi_write_existing bs host e sib buf n = Continue m x \<Longrightarrow> fst x = bs"
  by (auto simp: vdi_write_existing_def Let_def split_beta split: if_splits)

lemma vdi_write_body_alloc_step:
  assumes "vdi_write_body be bs host sector_num buf nb_sectors = Return r x
         \<or> vdi_write_body be bs host sector_num buf nb_sectors = Continue n x"
  shows "fst x = bs \<or> alloc_step be bs (fst x)"
proof -
  let ?bi = "nat (sector_num div uint (block_sectors (opaque bs)))"
  let ?sib = "nat (sector_num mod uint (block_sectors (opaque bs)))"
  let ?n = "min (unat (block_sectors (opaque bs)) - ?sib) (nat nb_sectors)"
  from assms have range: "?bi < length (blockmap (opaque bs))"
    by (auto simp: vdi_write_body_def Let_def split: if_splits)
  show ?thesis
  proof (cases "entry be bs ?bi = VDI_UNALLOCATED")
    case True
    with assms have "vdi_write_allocate be bs host ?bi ?sib buf ?n = Return r x
         \<or> vdi_write_allocate be bs host ?bi ?sib buf ?n = Continue n x"
      by (auto simp: vdi_write_body_def Let_def entry_def split: if_splits)
    then have "fst x = allocated_state be bs ?bi"
      by (rule vdi_write_allocate_state)
    then have "alloc_step be bs (fst x)"
      unfolding alloc_step_def using range True by blast
    then show ?thesis ..
  next
    case False
    with assms have "vdi_write_existing bs host (entry be bs ?bi) ?sib buf ?n = Return r x
         \<or> vdi_write_existing bs host (entry be bs ?bi) ?sib buf ?n = Continue n x"
      by (auto simp: vdi_write_body_def Let_def entry_def split: if_splits)
    then have "fst x = bs"
      by (rule vdi_write_existing_state)
    then show ?thesis ..
  qed
qed

lemma vdi_write_loop_alloc_steps:
  "vdi_write_loop be bs host sector_num buf nb_sectors = Some (r, bs', host') \<Longrightarrow>
   (alloc_step be)\<^sup>*\<^sup>* bs bs'"
proof (induction be bs host sector_num buf nb_sectors rule: vdi_write_loop.induct)
  case (1 be bs host sector_num buf nb_sectors)
  note loop = "1.prems" [unfolded vdi_write_loop.simps [of be bs host sector_num buf nb_sectors]]
  show ?case
  proof (cases "nb_sectors > 0 \<and> sector_num < total_sectors bs")
    case False
    then have "bs' = bs"
      using loop by auto
    then show ?thesis
      by simp
  next
    case True
    show ?thesis
    proof (cases "vdi_write_body be bs host sector_num buf nb_sectors")
      case Undefined
      then show ?thesis
        using loop True by simp
    next
      case (Return r' x)
      then have "fst x = bs \<or> alloc_step be bs (fst x)"
        by (intro vdi_write_body_alloc_step [OF disjI1])
      moreover have "bs' = fst x"
        using loop True Return by simp
      ultimately show ?thesis
        by auto
    next
      case (Continue n x)
      then have s: "fst x = bs \<or> alloc_step be bs (fst x)"
        by (intro vdi_write_body_alloc_step [OF disjI2])
      have "vdi_write_loop be (fst x) (snd x) (sector_num + int n) (drop n buf) (nb_sectors - int n)
          = Some (r, bs', host')"
        using loop True Continue by simp
      then have "(alloc_step be)\<^sup>*\<^sup>* (fst x) bs'"
        by (rule "1.IH" [OF True Continue])
      with s show ?thesis
        by (auto intro: converse_rtranclp_into_rtranclp)
    qed
  qed
qed

lemma vdi_write_alloc_steps:
  assumes w: "vdi_write be bs host sector_num buf nb_sectors = Some (r, bs', host')"
  shows "(alloc_step be)\<^sup>*\<^sup>* bs bs'"
proof (cases "sector_num < 0")
  case True
  then show ?thesis
    using w by (simp add: vdi_write_def)
next
  case False
  with w have "vdi_write_loop be bs host sector_num buf nb_sectors = Some (r, bs', host')"
    by (simp only: vdi_write_def if_False)
  then show ?thesis
    by (rule vdi_write_loop_alloc_steps)
qed

lemma vdi_writes_alloc_steps:
  "vdi_writes be bs host reqs = Some (bs', host') \<Longrightarrow> (alloc_step be)\<^sup>*\<^sup>* bs bs'"
proof (induction reqs arbitrary: bs host)
  case Nil
  then show ?case by simp
next
  case (Cons req reqs)
  then obtain res where w: "vdi_write be bs host (fst req) (fst (snd req)) (snd (snd req)) = Some res"
      and rest: "vdi_writes be (fst (snd res)) (snd (snd res)) reqs = Some (bs', host')"
    by (auto split: option.splits)
  have "(alloc_step be)\<^sup>*\<^sup>* bs (fst (snd res))"
    using w vdi_write_alloc_steps [of be bs host _ _ _ "fst res" "fst (snd res)" "snd (snd res)"] by simp
  moreover have "(alloc_step be)\<^sup>*\<^sup>* (fst (snd res)) bs'"
    by (rule Cons.IH [OF rest])
  ultimately show ?case
    by simp
qed

text \<open>What one allocation, and what any number of allocations, do to the state.\<close>

lemma alloc_step_header:
  "alloc_step be bs bs' \<Longrightarrow>
   header (opaque bs') = (header (opaque bs))\<lparr> blocks_allocated := blocks_allocated (header (opaque bs)) + 1 \<rparr>"
  by (auto simp: alloc_step_def allocated_state_def)

lemma alloc_steps_header:
  "(alloc_step be)\<^sup>*\<^sup>* bs bs' \<Longrightarrow>
   (header (opaque bs'))\<lparr> blocks_allocated := c \<rparr> = (header (opaque bs))\<lparr> blocks_allocated := c \<rparr>"
proof (induction rule: rtranclp_induct)
  case base
  show ?case by simp
next
  case (step bs1 bs2)
  then show ?case
    by (simp add: alloc_step_header)
qed

lemma alloc_step_consistent:
  assumes co: "allocation_consistent be bs" and st: "alloc_step be bs bs'"
  shows "allocation_consistent be bs'"
    and "unat (blocks_allocated (header (opaque bs'))) = Suc (unat (blocks_allocated (header (opaque bs))))"
    and "length (blockmap (opaque bs')) = length (blockmap (opaque bs))"
    and "\<And>i. i < length (blockmap (opaque bs)) \<Longrightarrow>
          entry be bs' i = entry be bs i \<or>
          entry be bs i = VDI_UNALLOCATED \<and> entry be bs' i = blocks_allocated (header (opaque bs))"
proof -
  from st obtain bi where bi: "bi < length (blockmap (opaque bs))"
      and un: "entry be bs bi = VDI_UNALLOCATED" and bs': "bs' = allocated_state be bs bi"
    unfolding alloc_step_def by blast
  note room = alloc_room_consistent [OF co bi un]
  show "unat (blocks_allocated (header (opaque bs'))) = Suc (unat (blocks_allocated (header (opaque bs))))"
    unfolding bs' using room(2) by simp
  then show "allocation_consistent be bs'"
    using co count_allocated_allocated_state [OF co bi un]
    unfolding allocation_consistent_def bs' by simp
  show "length (blockmap (opaque bs')) = length (blockmap (opaque bs))"
    unfolding bs' by simp
  fix i assume "i < length (blockmap (opaque bs))"
  then show "entry be bs' i = entry be bs i \<or>
          entry be bs i = VDI_UNALLOCATED \<and> entry be bs' i = blocks_allocated (header (opaque bs))"
    unfolding bs' using un by (auto simp: entry_allocated_state)
qed

lemma alloc_steps_consistent:
  assumes "(alloc_step be)\<^sup>*\<^sup>* bs bs'" and "allocation_consistent be bs"
  shows "allocation_consistent be bs' \<and>
     unat (blocks_allocated (header (opaque bs))) \<le> unat (blocks_allocated (header (opaque bs'))) \<and>
     length (blockmap (opaque bs')) = length (blockmap (opaque bs)) \<and>
     (\<forall>i < length (blockmap (opaque bs)).
        entry be bs' i = entry be bs i \<or>
        entry be bs i = VDI_UNALLOCATED \<and>
        unat (blocks_allocated (header (opaque bs))) \<le> unat (entry be bs' i) \<and>
        unat (entry be bs' i) < unat (blocks_allocated (header (opaque bs'))))"
  using assms
proof (induction rule: rtranclp_induct)
  case base
  then show ?case by simp
next
  case (step bs1 bs2)
  then have ih: "allocation_consistent be bs1"
      "unat (blocks_allocated (header (opaque bs))) \<le> unat (blocks_allocated (header (opaque bs1)))"
      "length (blockmap (opaque bs1)) = length (blockmap (opaque bs))"
      "\<And>i. i < length (blockmap (opaque bs)) \<Longrightarrow>
        entry be bs1 i = entry be bs i \<or>
        entry be bs i = VDI_UNALLOCATED \<and>
        unat (blocks_allocated (header (opaque bs))) \<le> unat (entry be bs1 i) \<and>
        unat (entry be bs1 i) < unat (blocks_allocated (header (opaque bs1)))"
    by blast+
  note s = alloc_step_consistent [OF ih(1) step.hyps(2)]
  have "\<forall>i < length (blockmap (opaque bs)).
        entry be bs2 i = entry be bs i \<or>
        entry be bs i = VDI_UNALLOCATED \<and>
        unat (blocks_allocated (header (opaque bs))) \<le> unat (entry be bs2 i) \<and>
        unat (entry be bs2 i) < unat (blocks_allocated (header (opaque bs2)))"
  proof (intro allI impI)
    fix i assume i: "i < length (blockmap (opaque bs))"
    then have i1: "i < length (blockmap (opaque bs1))"
      using ih(3) by simp
    from s(4) [OF i1] show "entry be bs2 i = entry be bs i \<or>
        entry be bs i = VDI_UNALLOCATED \<and>
        unat (blocks_allocated (header (opaque bs))) \<le> unat (entry be bs2 i) \<and>
        unat (entry be bs2 i) < unat (blocks_allocated (header (opaque bs2)))"
    proof
      assume e: "entry be bs2 i = entry be bs1 i"
      from ih(4) [OF i] show ?thesis
        unfolding e using s(2) by auto
    next
      assume e: "entry be bs1 i = VDI_UNALLOCATED \<and> entry be bs2 i = blocks_allocated (header (opaque bs1))"
      have "unat (entry be bs1 i) = 2 ^ 32 - 1"
        using e unat_VDI_UNALLOCATED by simp
      moreover have "unat (blocks_allocated (header (opaque bs1))) < 2 ^ 32"
        using unsigned_less [of "blocks_allocated (header (opaque bs1))", where 'a = nat] by simp
      ultimately have "entry be bs1 i = entry be bs i"
        using ih(4) [OF i] by fastforce
      then show ?thesis
        using e ih(2) s(2) by simp
    qed
  qed
  with s(1,2,3) ih(2,3) show ?case
    by simp
qed

subsection \<open>A write that allocates one block\<close>

lemma vdi_write_allocate_chunk:
  assumes range: "0 \<le> sector_num" "0 < nb_sectors" "sector_num < total_sectors bs"
    and bi: "nat sector_num div unat (block_sectors (opaque bs)) < length (blockmap (opaque bs))"
    and un: "entry be bs (nat sector_num div unat (block_sectors (opaque bs))) = VDI_UNALLOCATED"
    and chunk: "nat sector_num mod unat (block_sectors (opaque bs)) + nat nb_sectors
                  \<le> unat (block_sectors (opaque bs))"
    and room: "unat (block_sectors (opaque bs)) \<le> unat (block_size (opaque bs)) div SECTOR_SIZE"
  shows "vdi_write be bs host sector_num buf nb_sectors =
     (let block_index = nat sector_num div unat (block_sectors (opaque bs));
          sector_in_block = nat sector_num mod unat (block_sectors (opaque bs));
          w1 = data_write bs host sector_in_block buf (nat nb_sectors);
          w2 = map_write be bs (snd w1) block_index;
          w3 = header_write be bs (snd w2) block_index
      in if fst w1 < 0 then Some (- 1, allocated_state be bs block_index, snd w1)
         else if fst w2 < 0 then Some (- 1, allocated_state be bs block_index, snd w2)
         else if fst w3 < 0 then Some (- 1, allocated_state be bs block_index, snd w3)
         else Some (0, allocated_state be bs block_index, snd w3))"
proof -
  let ?B = "unat (block_sectors (opaque bs))"
  let ?bi = "nat sector_num div ?B"
  let ?sib = "nat sector_num mod ?B"
  have B: "block_sectors (opaque bs) \<noteq> 0"
    using chunk range(2) by (auto simp: unat_eq_0)
  have n: "min (?B - ?sib) (nat nb_sectors) = nat nb_sectors"
    using chunk by simp
  have body: "vdi_write_body be bs host sector_num buf nb_sectors =
      vdi_write_allocate be bs host ?bi ?sib buf (nat nb_sectors)"
    using un unfolding vdi_write_body_unfold [OF range(1) B bi] Let_def n entry_def by simp
  have fits: "?sib + nat nb_sectors \<le> unat (block_size (opaque bs)) div SECTOR_SIZE"
    using chunk room by simp
  note alloc = vdi_write_allocate_unfold [OF fits room, of be host ?bi buf]
  have stop: "\<And>s h b. vdi_write_loop be s h (sector_num + int (nat nb_sectors)) b
                 (nb_sectors - int (nat nb_sectors)) = Some (0, s, h)"
    using range(2) by (subst vdi_write_loop.simps) simp
  have "vdi_write be bs host sector_num buf nb_sectors =
      vdi_write_loop be bs host sector_num buf nb_sectors"
    using range(1) by (simp add: vdi_write_def)
  also have "\<dots> = (case vdi_write_body be bs host sector_num buf nb_sectors of
           Undefined \<Rightarrow> None
         | Return r x \<Rightarrow> Some (r, fst x, snd x)
         | Continue n x \<Rightarrow>
             vdi_write_loop be (fst x) (snd x) (sector_num + int n) (drop n buf) (nb_sectors - int n))"
    using range(2,3) by (subst vdi_write_loop.simps) simp
  also have "\<dots> = (let w1 = data_write bs host ?sib buf (nat nb_sectors);
          w2 = map_write be bs (snd w1) ?bi;
          w3 = header_write be bs (snd w2) ?bi
      in if fst w1 < 0 then Some (- 1, allocated_state be bs ?bi, snd w1)
         else if fst w2 < 0 then Some (- 1, allocated_state be bs ?bi, snd w2)
         else if fst w3 < 0 then Some (- 1, allocated_state be bs ?bi, snd w3)
         else Some (0, allocated_state be bs ?bi, snd w3))"
    unfolding body alloc Let_def by (simp add: stop)
  finally show ?thesis
    unfolding Let_def .
qed

lemma unat_and_not_127_div: "unat ((k :: u32) AND NOT 127) div 128 = unat k div 128"
proof -
  have m: "(127 :: u32) = mask 7"
    by (simp add: mask_eq_exp_minus_1)
  have "k AND NOT (mask 7) = push_bit 7 (drop_bit 7 k)"
    by (rule bit_word_eqI) (auto simp: bit_simps)
  then have "unat (k AND NOT 127) = unat (push_bit 7 (drop_bit 7 k))"
    unfolding m by simp
  also have "\<dots> = 128 * (unat k div 128)"
  proof -
    have "unat k < 2 ^ 32"
      using unsigned_less [of k, where 'a = nat] by simp
    then have "128 * (unat k div 128) < 2 ^ 32"
      by simp
    then show ?thesis
      by (simp add: push_bit_eq_mult drop_bit_eq_div unat_word_ariths unat_div)
  qed
  finally show ?thesis
    by simp
qed

lemma vdi_write_allocate_chunk_no_faults:
  assumes range: "0 \<le> sector_num" "0 < nb_sectors" "sector_num < total_sectors bs"
    and bi: "nat sector_num div unat (block_sectors (opaque bs)) < length (blockmap (opaque bs))"
    and un: "entry be bs (nat sector_num div unat (block_sectors (opaque bs))) = VDI_UNALLOCATED"
    and chunk: "nat sector_num mod unat (block_sectors (opaque bs)) + nat nb_sectors
                  \<le> unat (block_sectors (opaque bs))"
    and room: "unat (block_sectors (opaque bs)) \<le> unat (block_size (opaque bs)) div SECTOR_SIZE"
    and nf: "faults host = []"
  shows "vdi_write be bs host sector_num buf nb_sectors =
     Some (0, allocated_state be bs (nat sector_num div unat (block_sectors (opaque bs))),
       host\<lparr> trace := trace host @
           [Write_op (unat (offset_data (header (opaque bs))) div SECTOR_SIZE
                       + unat (blocks_allocated (header (opaque bs))) * unat (block_sectors (opaque bs)))
                     (unat (block_sectors (opaque bs))),
            Write_op (unat (offset_blockmap (header (opaque bs))) div SECTOR_SIZE
                       + unat (blocks_allocated (header (opaque bs))) div 128) 1,
            Write_op 0 1],
         disk := store (store (store (disk host)
           (unat (offset_data (header (opaque bs))) div SECTOR_SIZE
              + unat (blocks_allocated (header (opaque bs))) * unat (block_sectors (opaque bs)))
           (memcpy_sectors (replicate (unat (block_size (opaque bs)) div SECTOR_SIZE) zero_sector)
              (nat sector_num mod unat (block_sectors (opaque bs))) (take (nat nb_sectors) buf))
           (unat (block_sectors (opaque bs))))
           (unat (offset_blockmap (header (opaque bs))) div SECTOR_SIZE
              + unat (blocks_allocated (header (opaque bs))) div 128)
           [blockmap_sector be
              (blockmap (opaque (allocated_state be bs (nat sector_num div unat (block_sectors (opaque bs))))))
              (after_blockmap (opaque bs))
              (unat (blocks_allocated (header (opaque bs)) AND NOT 127))] 1)
           0 [mem_of_VdiHeader be (vdi_header_to_le be
                (header (opaque (allocated_state be bs (nat sector_num div unat (block_sectors (opaque bs)))))))] 1 \<rparr>)"
  unfolding vdi_write_allocate_chunk [OF range bi un chunk room] Let_def
    data_write_def map_write_def header_write_def
  using nf by (cases host) (simp add: bdrv_write_def Let_def unat_and_not_127_div [simplified])

lemma vdi_write_allocate_no_faults:
  assumes "sector_in_block + n_sectors \<le> unat (block_size (opaque bs)) div SECTOR_SIZE"
    and "unat (block_sectors (opaque bs)) \<le> unat (block_size (opaque bs)) div SECTOR_SIZE"
    and "faults host = []"
  shows "vdi_write_allocate be bs host block_index sector_in_block buf n_sectors =
     Continue n_sectors (allocated_state be bs block_index,
       snd (header_write be bs (snd (map_write be bs
         (snd (data_write bs host sector_in_block buf n_sectors)) block_index)) block_index))"
  unfolding vdi_write_allocate_unfold [OF assms(1,2)] Let_def
  using assms(3) by (simp add: data_write_def map_write_def header_write_def fst_bdrv_write)

text \<open>The first write of an allocation fails.\<close>

lemma vdi_write_allocate_first_fault:
  assumes "sector_in_block + n_sectors \<le> unat (block_size (opaque bs)) div SECTOR_SIZE"
    and "unat (block_sectors (opaque bs)) \<le> unat (block_size (opaque bs)) div SECTOR_SIZE"
    and "fst (next_fault (faults host))"
  shows "vdi_write_allocate be bs host block_index sector_in_block buf n_sectors =
     Return (- 1) (allocated_state be bs block_index,
       host\<lparr> trace := trace host @
           [Write_op (unat (offset_data (header (opaque bs))) div SECTOR_SIZE
                       + unat (blocks_allocated (header (opaque bs))) * unat (block_sectors (opaque bs)))
                     (unat (block_sectors (opaque bs)))],
         faults := snd (next_fault (faults host)) \<rparr>)"
  unfolding vdi_write_allocate_unfold [OF assms(1,2)] Let_def
  using assms(3) by (simp add: data_write_def bdrv_write_fault EIO_def)

lemma vdi_write_first_fault:
  assumes range: "0 \<le> sector_num" "0 < nb_sectors" "sector_num < total_sectors bs"
    and bi: "nat sector_num div unat (block_sectors (opaque bs)) < length (blockmap (opaque bs))"
    and un: "entry be bs (nat sector_num div unat (block_sectors (opaque bs))) = VDI_UNALLOCATED"
    and B: "block_sectors (opaque bs) \<noteq> 0"
    and room: "unat (block_sectors (opaque bs)) \<le> unat (block_size (opaque bs)) div SECTOR_SIZE"
    and fault: "fst (next_fault (faults host))"
  shows "vdi_write be bs host sector_num buf nb_sectors =
     Some (- 1, allocated_state be bs (nat sector_num div unat (block_sectors (opaque bs))),
       host\<lparr> trace := trace host @
           [Write_op (unat (offset_data (header (opaque bs))) div SECTOR_SIZE
                       + unat (blocks_allocated (header (opaque bs))) * unat (block_sectors (opaque bs)))
                     (unat (block_sectors (opaque bs)))],
         faults := snd (next_fault (faults host)) \<rparr>)"
proof -
  let ?B = "unat (block_sectors (opaque bs))"
  let ?bi = "nat sector_num div ?B"
  let ?sib = "nat sector_num mod ?B"
  let ?n = "min (?B - ?sib) (nat nb_sectors)"
  have pos: "0 < ?B"
    using B by (simp add: unat_gt_0)
  then have "?sib < ?B"
    by simp
  then have fits: "?sib + ?n \<le> unat (block_size (opaque bs)) div SECTOR_SIZE"
    using room by simp
  have body: "vdi_write_body be bs host sector_num buf nb_sectors =
      vdi_write_allocate be bs host ?bi ?sib buf ?n"
    using un unfolding vdi_write_body_unfold [OF range(1) B bi] Let_def entry_def by simp
  have "vdi_write be bs host sector_num buf nb_sectors =
      vdi_write_loop be bs host sector_num buf nb_sectors"
    using range(1) by (simp add: vdi_write_def)
  also have "\<dots> = (case vdi_write_body be bs host sector_num buf nb_sectors of
           Undefined \<Rightarrow> None
         | Return r x \<Rightarrow> Some (r, fst x, snd x)
         | Continue n x \<Rightarrow>
             vdi_write_loop be (fst x) (snd x) (sector_num + int n) (drop n buf) (nb_sectors - int n))"
    using range(2,3) by (subst vdi_write_loop.simps) simp
  finally show ?thesis
    unfolding body vdi_write_allocate_first_fault [OF fits room fault] by simp
qed

subsection \<open>The asynchronous callback\<close>

lemma vdi_aio_write_next_header:
  assumes "vdi_aio_write_next be submitted bs acb ret = Some (bs', acb', ev)"
  shows "header (opaque bs') = header (opaque bs) \<or>
         header (opaque bs') = (header (opaque bs))
           \<lparr> blocks_allocated := blocks_allocated (header (opaque bs)) + 1 \<rparr>"
  using assms by (auto simp: vdi_aio_write_next_def Let_def split: if_splits)

lemma vdi_aio_write_cb_header:
  assumes "vdi_aio_write_cb be submitted bs acb ret = Some (bs', acb', ev)"
  shows "header (opaque bs') = header (opaque bs) \<or>
         header (opaque bs') = (header (opaque bs))
           \<lparr> blocks_allocated := blocks_allocated (header (opaque bs)) + 1 \<rparr>"
proof -
  consider "ret < 0 \<or> acb_state acb = aio_must_write_blockmap"
    | "\<not> ret < 0" "acb_state acb = aio_must_write_header"
    | x where "vdi_aio_write_next be submitted bs x ret = Some (bs', acb', ev)"
    using assms by (auto simp: vdi_aio_write_cb_def Let_def split: if_splits)
  then show ?thesis
  proof cases
    case 1
    then have "bs' = bs"
      using assms by (auto simp: vdi_aio_write_cb_def Let_def split: if_splits)
    then show ?thesis
      by simp
  next
    case 2
    then have "header (opaque bs') = header (opaque bs)"
      using assms by (auto simp: vdi_aio_write_cb_def Let_def split: if_splits option.splits)
    then show ?thesis ..
  next
    case 3
    then show ?thesis
      by (rule vdi_aio_write_next_header)
  qed
qed

lemma vdi_aio_write_cb_must_write_header:
  assumes "vdi_aio_write_cb be submitted bs acb ret = Some (bs', acb', ev)"
    and "0 \<le> ret" and "acb_state acb = aio_must_write_header"
  shows "header (opaque bs') = header (opaque bs)"
    and "ev = bdrv_aio_writev submitted 0
                [mem_of_VdiHeader be (vdi_header_to_le be (header (opaque bs)))] 1 ret"
    and "acb_state acb' = aio_header_written"
  using assms
  by (auto simp: vdi_aio_write_cb_def Let_def memcpy_sectors_def neq_Nil_conv
      split: if_splits option.splits)

lemma vdi_aio_write_cb_must_write_blockmap:
  assumes "0 \<le> ret" and "acb_state acb = aio_must_write_blockmap"
  shows "vdi_aio_write_cb be submitted bs acb ret =
     Some (bs, acb\<lparr> acb_state := aio_must_write_header \<rparr>,
       bdrv_aio_writev submitted
         (unat (offset_blockmap (header (opaque bs))) div SECTOR_SIZE
            + unat (acb_blockmap_entry acb) div 128)
         [blockmap_sector be (blockmap (opaque bs)) (after_blockmap (opaque bs))
               (unat (acb_blockmap_entry acb AND NOT 127))] 1 ret)"
  using assms by (simp add: vdi_aio_write_cb_def Let_def unat_and_not_127_div [simplified])

lemma vdi_aio_write_next_allocates:
  assumes "vdi_aio_write_next be submitted bs acb ret = Some (bs', acb', ev)"
    and "acb_state acb' = aio_must_write_blockmap" and "acb_state acb \<noteq> aio_must_write_blockmap"
  shows "acb_blockmap_entry acb' = blocks_allocated (header (opaque bs))"
  using assms by (auto simp: vdi_aio_write_next_def Let_def split: if_splits)

lemma vdi_aio_write_cb_allocates:
  assumes "vdi_aio_write_cb be submitted bs acb ret = Some (bs', acb', ev)"
    and "acb_state acb' = aio_must_write_blockmap" and "acb_state acb \<noteq> aio_must_write_blockmap"
  shows "acb_blockmap_entry acb' = blocks_allocated (header (opaque bs))"
proof -
  consider "ret < 0" | "\<not> ret < 0" "acb_state acb = aio_must_write_header"
    | x where "vdi_aio_write_next be submitted bs x ret = Some (bs', acb', ev)"
        "acb_state x \<noteq> aio_must_write_blockmap"
    using assms by (auto simp: vdi_aio_write_cb_def Let_def split: if_splits)
  then show ?thesis
  proof cases
    case 1
    then show ?thesis
      using assms by (auto simp: vdi_aio_write_cb_def Let_def split: if_splits)
  next
    case 2
    then show ?thesis
      using assms by (auto simp: vdi_aio_write_cb_def Let_def split: if_splits option.splits)
  next
    case 3
    then show ?thesis
      using assms(2) by (intro vdi_aio_write_next_allocates)
  qed
qed

subsection \<open>The allocation counter\<close>

lemma vdi_write_allocate_chunk_returns:
  assumes "0 \<le> sector_num" "0 < nb_sectors" "sector_num < total_sectors bs"
    and "nat sector_num div unat (block_sectors (opaque bs)) < length (blockmap (opaque bs))"
    and "entry be bs (nat sector_num div unat (block_sectors (opaque bs))) = VDI_UNALLOCATED"
    and "nat sector_num mod unat (block_sectors (opaque bs)) + nat nb_sectors
                  \<le> unat (block_sectors (opaque bs))"
    and "unat (block_sectors (opaque bs)) \<le> unat (block_size (opaque bs)) div SECTOR_SIZE"
    and "faults host = []"
  shows "\<exists>host'. vdi_write be bs host sector_num buf nb_sectors =
            Some (0, allocated_state be bs (nat sector_num div unat (block_sectors (opaque bs))), host')
          \<and> faults host' = []"
  unfolding vdi_write_allocate_chunk_no_faults [OF assms] using assms(8) by simp

text \<open>
  Claim C8, as the spec states it: over any sequence of writes \<open>blocks_allocated\<close>
  never decreases, and after every successful write it is the number of block map
  entries that are not \<^verbatim>\<open>VDI_UNALLOCATED\<close>. Both fail on states that
  \<^verbatim>\<open>vdi_open\<close> returns, because \<^verbatim>\<open>vdi_open\<close> takes \<open>blocks_allocated\<close> from the
  header and checks it against nothing. On the opened 2 MiB image whose block map
  entries are 0 and \<^verbatim>\<open>0xffffffff\<close>, with \<open>blocks_allocated\<close> 0, a write to block 1
  returns 0 and leaves \<open>blocks_allocated\<close> 1 beside two allocated entries. With
  \<^verbatim>\<open>0xffffffff\<close> in the header field, the same write takes \<open>blocks_allocated\<close>
  from 4294967295 to 0.
\<close>

theorem blocks_allocated_counterexample:
  "vdi_open False (Inr (example_file example_header)) stale_memory =
     (0, Some (example_state 2 [0, VDI_UNALLOCATED] 0,
               (example_file example_header)\<lparr> trace := [Read_op 0 1, Read_op 1 0] \<rparr>)) \<and>
   map_option fst
     (vdi_write False (example_state 2 [0, VDI_UNALLOCATED] 0)
        ((example_file example_header)\<lparr> trace := [Read_op 0 1, Read_op 1 0] \<rparr>)
        2048 [replicate 512 0xaa] 1) = Some 0 \<and>
   map_option (fst \<circ> snd)
     (vdi_write False (example_state 2 [0, VDI_UNALLOCATED] 0)
        ((example_file example_header)\<lparr> trace := [Read_op 0 1, Read_op 1 0] \<rparr>)
        2048 [replicate 512 0xaa] 1) = Some (example_state 2 [0, 0] 1) \<and>
   unat (blocks_allocated (header (opaque (example_state 2 [0, 0] 1)))) = 1 \<and>
   count_allocated False (example_state 2 [0, 0] 1) = 2 \<and>
   vdi_open False (Inr (example_file (example_header\<lparr> blocks_allocated := 0xffffffff \<rparr>))) stale_memory =
     (0, Some (example_state 2 [0, VDI_UNALLOCATED] 0xffffffff,
               (example_file (example_header\<lparr> blocks_allocated := 0xffffffff \<rparr>))
                 \<lparr> trace := [Read_op 0 1, Read_op 1 0] \<rparr>)) \<and>
   map_option (fst \<circ> snd)
     (vdi_write False (example_state 2 [0, VDI_UNALLOCATED] 0xffffffff)
        ((example_file (example_header\<lparr> blocks_allocated := 0xffffffff \<rparr>))
           \<lparr> trace := [Read_op 0 1, Read_op 1 0] \<rparr>)
        2048 [replicate 512 0xaa] 1) = Some (example_state 2 [0, VDI_UNALLOCATED] 0) \<and>
   unat (blocks_allocated (header (opaque (example_state 2 [0, VDI_UNALLOCATED] 0xffffffff)))) = 4294967295 \<and>
   unat (blocks_allocated (header (opaque (example_state 2 [0, VDI_UNALLOCATED] 0)))) = 0"
proof -
  let ?S = "example_state 2 [0, VDI_UNALLOCATED] 0"
  let ?H = "(example_file example_header)\<lparr> trace := [Read_op 0 1, Read_op 1 0] \<rparr>"
  let ?T = "example_state 2 [0, VDI_UNALLOCATED] 0xffffffff"
  let ?G = "(example_file (example_header\<lparr> blocks_allocated := 0xffffffff \<rparr>))
              \<lparr> trace := [Read_op 0 1, Read_op 1 0] \<rparr>"
  have o: "vdi_open False (Inr (example_file example_header)) stale_memory = (0, Some (?S, ?H))"
    using vdi_open_example [of 0] unfolding example_header_blocks_allocated .
  have nf: "faults ?H = []" "faults ?G = []"
    by (simp_all add: example_file_def)
  have "\<exists>h. vdi_write False ?S ?H 2048 [replicate 512 0xaa] 1
        = Some (0, allocated_state False ?S (nat 2048 div unat (block_sectors (opaque ?S))), h) \<and> faults h = []"
    by (rule vdi_write_allocate_chunk_returns [OF _ _ _ _ _ _ _ nf(1)])
       (simp_all add: example_state_simps entry_False)
  moreover have "allocated_state False ?S (nat 2048 div unat (block_sectors (opaque ?S))) = example_state 2 [0, 0] 1"
    by (simp add: allocated_state_def example_state_def cpu_to_le32_def)
  ultimately obtain h where w: "vdi_write False ?S ?H 2048 [replicate 512 0xaa] 1
        = Some (0, example_state 2 [0, 0] 1, h)"
    by auto
  have "\<exists>h. vdi_write False ?T ?G 2048 [replicate 512 0xaa] 1
        = Some (0, allocated_state False ?T (nat 2048 div unat (block_sectors (opaque ?T))), h) \<and> faults h = []"
    by (rule vdi_write_allocate_chunk_returns [OF _ _ _ _ _ _ _ nf(2)])
       (simp_all add: example_state_simps entry_False)
  moreover have "allocated_state False ?T (nat 2048 div unat (block_sectors (opaque ?T))) = ?S"
    by (simp add: allocated_state_def example_state_def cpu_to_le32_def VDI_UNALLOCATED_def)
  ultimately obtain g where v: "vdi_write False ?T ?G 2048 [replicate 512 0xaa] 1 = Some (0, ?S, g)"
    by auto
  have c: "count_allocated False (example_state 2 [0, 0] 1) = 2"
    by (simp add: count_allocated_def example_state_simps le32_to_cpu_def VDI_UNALLOCATED_def)
  show ?thesis
    unfolding w v using o vdi_open_example [of "0xffffffff"] c
    by (simp add: example_state_simps)
qed

text \<open>
  Claim C8, amended. Take a driver state in which \<open>blocks_allocated\<close> is the number of
  block map entries that are not \<^verbatim>\<open>VDI_UNALLOCATED\<close> and the block map has one entry
  per block of the header, and any sequence of calls of \<^verbatim>\<open>vdi_write\<close>, whatever they
  return. Afterwards \<open>blocks_allocated\<close> is not smaller than before and is again the
  number of entries that are not \<^verbatim>\<open>VDI_UNALLOCATED\<close>; an entry either is what it was,
  or was \<^verbatim>\<open>VDI_UNALLOCATED\<close> and now holds a physical index from the former
  \<open>blocks_allocated\<close> up to, and less than, the new one. In every outcome of one
  allocation, in any state, the entry of the block is the value that \<open>blocks_allocated\<close>
  had before, and \<open>blocks_allocated\<close> is one more.
\<close>

theorem blocks_allocated_monotone:
  "(allocation_consistent be bs \<longrightarrow> vdi_writes be bs host reqs = Some (bs', host') \<longrightarrow>
      unat (blocks_allocated (header (opaque bs))) \<le> unat (blocks_allocated (header (opaque bs'))) \<and>
      unat (blocks_allocated (header (opaque bs'))) = count_allocated be bs' \<and>
      length (blockmap (opaque bs')) = length (blockmap (opaque bs)) \<and>
      (\<forall>i < length (blockmap (opaque bs)).
         entry be bs' i = entry be bs i \<or>
         entry be bs i = VDI_UNALLOCATED \<and>
         unat (blocks_allocated (header (opaque bs))) \<le> unat (entry be bs' i) \<and>
         unat (entry be bs' i) < unat (blocks_allocated (header (opaque bs'))))) \<and>
   (vdi_write_allocate be bs host block_index sector_in_block buf n_sectors = Return r x \<or>
    vdi_write_allocate be bs host block_index sector_in_block buf n_sectors = Continue m x \<longrightarrow>
      block_index < length (blockmap (opaque bs)) \<longrightarrow>
      entry be (fst x) block_index = blocks_allocated (header (opaque bs)) \<and>
      blocks_allocated (header (opaque (fst x))) = blocks_allocated (header (opaque bs)) + 1)"
proof (intro conjI impI)
  assume co: "allocation_consistent be bs" and w: "vdi_writes be bs host reqs = Some (bs', host')"
  note s = alloc_steps_consistent [OF vdi_writes_alloc_steps [OF w] co]
  from s show "unat (blocks_allocated (header (opaque bs))) \<le> unat (blocks_allocated (header (opaque bs')))"
    by blast
  from s show "unat (blocks_allocated (header (opaque bs'))) = count_allocated be bs'"
    unfolding allocation_consistent_def by blast
  from s show "length (blockmap (opaque bs')) = length (blockmap (opaque bs))"
    by blast
  from s show "\<forall>i < length (blockmap (opaque bs)).
         entry be bs' i = entry be bs i \<or>
         entry be bs i = VDI_UNALLOCATED \<and>
         unat (blocks_allocated (header (opaque bs))) \<le> unat (entry be bs' i) \<and>
         unat (entry be bs' i) < unat (blocks_allocated (header (opaque bs')))"
    by blast
next
  assume a: "vdi_write_allocate be bs host block_index sector_in_block buf n_sectors = Return r x \<or>
    vdi_write_allocate be bs host block_index sector_in_block buf n_sectors = Continue m x"
    and bi: "block_index < length (blockmap (opaque bs))"
  have x: "fst x = allocated_state be bs block_index"
    using a by (rule vdi_write_allocate_state)
  show "entry be (fst x) block_index = blocks_allocated (header (opaque bs))"
    unfolding x using bi by (simp add: entry_allocated_state)
  show "blocks_allocated (header (opaque (fst x))) = blocks_allocated (header (opaque bs)) + 1"
    unfolding x by simp
qed

text \<open>
  An instance: the 128 MiB image that \<^verbatim>\<open>vdi_create\<close> writes, opened by
  \<^verbatim>\<open>vdi_open\<close>, is such a state. A write to block 1 and then a write to block 0
  give block 1 the physical index 0 and block 0 the physical index 1.
\<close>

theorem blocks_allocated_monotone_witness:
  "\<exists>bs host.
     vdi_create False True [\<lparr> name = ''size'', value_n = 0x8000000 \<rparr>] [] [] =
       (0, concat (map (disk (fresh_image 128)) [0 ..< 2])) \<and>
     vdi_open False (Inr (fresh_image 128)) stale_memory = (0, Some (bs, host)) \<and>
     allocation_consistent False bs \<and>
     (\<exists>bs' host'.
        vdi_writes False bs host
          [(2048, [replicate 512 0xaa], 1), (0, [replicate 512 0xbb], 1)] = Some (bs', host') \<and>
        entry False bs' 0 = 1 \<and> entry False bs' 1 = 0 \<and>
        blocks_allocated (header (opaque bs')) = 2 \<and>
        unat (blocks_allocated (header (opaque bs'))) = count_allocated False bs') \<and>
     (\<exists>x. vdi_write_allocate False bs host 1 0 [replicate 512 0xaa] 1 = Continue 1 x \<and>
          (1 :: nat) < length (blockmap (opaque bs)) \<and>
          entry False (fst x) 1 = 0 \<and> blocks_allocated (header (opaque (fst x))) = 1)"
proof -
  let ?S = "(example_state 128 (replicate 128 VDI_UNALLOCATED) 0)
      \<lparr> opaque := (opaque (example_state 128 (replicate 128 VDI_UNALLOCATED) 0))
          \<lparr> after_blockmap := (\<lambda>j. mem32 False (stale_memory (128 + j div 4)) ! (j mod 4)) \<rparr> \<rparr>"
  let ?H = "(fresh_image 128)\<lparr> trace := [Read_op 0 1, Read_op 1 (128 div 128)] \<rparr>"
  let ?A = "allocated_state False ?S 1"
  let ?Z = "allocated_state False ?A 0"
  have o: "vdi_open False (Inr (fresh_image 128)) stale_memory = (0, Some (?S, ?H))"
    by (rule vdi_open_fresh_image) simp_all
  have co: "allocation_consistent False ?S"
    by (rule image_wf_consistent, rule image_wf_fresh) simp_all
  have nf: "faults ?H = []"
    by (simp add: fresh_image_def)
  have e: "entry False ?S i = VDI_UNALLOCATED" if "i < 128" for i
    using that by (simp add: entry_False example_state_simps)
  have "\<exists>h. vdi_write False ?S ?H 2048 [replicate 512 0xaa] 1 = Some (0, allocated_state False ?S (nat 2048 div unat (block_sectors (opaque ?S))), h) \<and> faults h = []"
    by (rule vdi_write_allocate_chunk_returns [OF _ _ _ _ _ _ _ nf])
       (simp_all add: example_state_simps e)
  then obtain h1 where w1: "vdi_write False ?S ?H 2048 [replicate 512 0xaa] 1 = Some (0, ?A, h1)"
      and f1: "faults h1 = []"
    by (auto simp: example_state_simps)
  have "\<exists>h. vdi_write False ?A h1 0 [replicate 512 0xbb] 1 = Some (0, allocated_state False ?A (nat 0 div unat (block_sectors (opaque ?A))), h) \<and> faults h = []"
    by (rule vdi_write_allocate_chunk_returns [OF _ _ _ _ _ _ _ f1])
       (simp_all add: example_state_simps entry_allocated_state e)
  then obtain h2 where w2: "vdi_write False ?A h1 0 [replicate 512 0xbb] 1 = Some (0, ?Z, h2)"
    by (auto simp: example_state_simps)
  have ws: "vdi_writes False ?S ?H [(2048, [replicate 512 0xaa], 1), (0, [replicate 512 0xbb], 1)] = Some (?Z, h2)"
    by (simp only: vdi_writes.simps fst_conv snd_conv w1 w2 option.case)
  have en: "entry False ?Z 0 = 1" "entry False ?Z 1 = 0" and ba: "blocks_allocated (header (opaque ?Z)) = 2"
    by (simp_all add: entry_allocated_state example_state_simps)
  from blocks_allocated_monotone [of False ?S ?H _ ?Z h2] co ws
  have cnt: "unat (blocks_allocated (header (opaque ?Z))) = count_allocated False ?Z"
    by blast
  have al: "vdi_write_allocate False ?S ?H 1 0 [replicate 512 0xaa] 1 =
      Continue 1 (?A, snd (header_write False ?S (snd (map_write False ?S
         (snd (data_write ?S ?H 0 [replicate 512 0xaa] 1)) 1)) 1))"
    by (rule vdi_write_allocate_no_faults [OF _ _ nf]) (simp_all add: example_state_simps)
  have "entry False ?A 1 = 0" "blocks_allocated (header (opaque ?A)) = 1"
    by (simp_all add: entry_allocated_state example_state_simps)
  with al have "\<exists>x. vdi_write_allocate False ?S ?H 1 0 [replicate 512 0xaa] 1 = Continue 1 x \<and>
        (1 :: nat) < length (blockmap (opaque ?S)) \<and>
        entry False (fst x) 1 = 0 \<and> blocks_allocated (header (opaque (fst x))) = 1"
    by (simp add: example_state_simps)
  with vdi_create_128 o co ws en ba cnt show ?thesis
    by blast
qed

subsection \<open>The byte order of the header in memory\<close>

lemma vdi_write_header_frame:
  "vdi_write be bs host sector_num buf nb_sectors = Some (r, bs', host') \<Longrightarrow>
   (header (opaque bs'))\<lparr> blocks_allocated := c \<rparr> = (header (opaque bs))\<lparr> blocks_allocated := c \<rparr>"
  by (rule alloc_steps_header [OF vdi_write_alloc_steps])

lemma bswap32_UNALLOCATED: "bswap32 VDI_UNALLOCATED = VDI_UNALLOCATED"
  by (simp add: bswap32_def VDI_UNALLOCATED_def le_bytes32_def word_of_le32_def)

text \<open>
  Claim C10. The header of the driver state is in host byte order whenever the write
  path is left. After a call of \<^verbatim>\<open>vdi_write\<close>, whatever it returns, the header
  differs from the header before in \<open>blocks_allocated\<close> at most. In every outcome of
  an allocation, the failure of the header write included, it is the header before with
  \<open>blocks_allocated\<close> incremented: \<^verbatim>\<open>vdi_header_to_le\<close> before the header write is
  undone by \<^verbatim>\<open>vdi_header_to_cpu\<close> on both paths. A call of the asynchronous callback
  \<^verbatim>\<open>vdi_aio_write_cb\<close> leaves the header as it was or increments \<open>blocks_allocated\<close>;
  in state \<^verbatim>\<open>aio_must_write_header\<close> it leaves the header as it was and submits the
  little-endian image of the header for sector 0. The conversions are inverse to each
  other on little-endian and on big-endian hosts.
\<close>

theorem header_kept_in_host_order:
  "(vdi_write be bs host sector_num buf nb_sectors = Some (r, bs', host') \<longrightarrow>
      (header (opaque bs'))\<lparr> blocks_allocated := c \<rparr> = (header (opaque bs))\<lparr> blocks_allocated := c \<rparr>) \<and>
   (vdi_write_allocate be bs host block_index sector_in_block buf n_sectors = Return r1 x \<or>
    vdi_write_allocate be bs host block_index sector_in_block buf n_sectors = Continue m x \<longrightarrow>
      header (opaque (fst x)) = (header (opaque bs))
        \<lparr> blocks_allocated := blocks_allocated (header (opaque bs)) + 1 \<rparr>) \<and>
   (vdi_aio_write_cb be submitted bs acb ret = Some (bs2, acb2, ev) \<longrightarrow>
      (header (opaque bs2) = header (opaque bs) \<or>
       header (opaque bs2) = (header (opaque bs))
         \<lparr> blocks_allocated := blocks_allocated (header (opaque bs)) + 1 \<rparr>) \<and>
      (0 \<le> ret \<and> acb_state acb = aio_must_write_header \<longrightarrow>
         header (opaque bs2) = header (opaque bs) \<and>
         ev = bdrv_aio_writev submitted 0
                [mem_of_VdiHeader be (vdi_header_to_le be (header (opaque bs)))] 1 ret)) \<and>
   vdi_header_to_cpu be (vdi_header_to_le be h) = h"
proof (intro conjI impI)
  assume "vdi_write be bs host sector_num buf nb_sectors = Some (r, bs', host')"
  then show "(header (opaque bs'))\<lparr> blocks_allocated := c \<rparr> = (header (opaque bs))\<lparr> blocks_allocated := c \<rparr>"
    by (rule vdi_write_header_frame)
next
  assume "vdi_write_allocate be bs host block_index sector_in_block buf n_sectors = Return r1 x \<or>
    vdi_write_allocate be bs host block_index sector_in_block buf n_sectors = Continue m x"
  then have "fst x = allocated_state be bs block_index"
    by (rule vdi_write_allocate_state)
  then show "header (opaque (fst x)) = (header (opaque bs))
        \<lparr> blocks_allocated := blocks_allocated (header (opaque bs)) + 1 \<rparr>"
    by (simp add: allocated_state_def)
next
  assume "vdi_aio_write_cb be submitted bs acb ret = Some (bs2, acb2, ev)"
  then show "header (opaque bs2) = header (opaque bs) \<or>
       header (opaque bs2) = (header (opaque bs))
         \<lparr> blocks_allocated := blocks_allocated (header (opaque bs)) + 1 \<rparr>"
    by (rule vdi_aio_write_cb_header)
next
  assume cb: "vdi_aio_write_cb be submitted bs acb ret = Some (bs2, acb2, ev)"
    and st: "0 \<le> ret \<and> acb_state acb = aio_must_write_header"
  from st have r: "0 \<le> ret" and s: "acb_state acb = aio_must_write_header"
    by simp_all
  show "header (opaque bs2) = header (opaque bs)"
    by (rule vdi_aio_write_cb_must_write_header(1) [OF cb r s])
  show "ev = bdrv_aio_writev submitted 0
                [mem_of_VdiHeader be (vdi_header_to_le be (header (opaque bs)))] 1 ret"
    by (rule vdi_aio_write_cb_must_write_header(2) [OF cb r s])
next
  show "vdi_header_to_cpu be (vdi_header_to_le be h) = h"
    by simp
qed

theorem header_kept_in_host_order_witness:
  "(\<exists>bs' host'.
      vdi_write True (example_state 2 [VDI_UNALLOCATED, VDI_UNALLOCATED] 0)
        (example_host erased_disk []) 2048 [replicate 512 0xaa] 1 = Some (0, bs', host') \<and>
      (header (opaque bs'))\<lparr> blocks_allocated := 0 \<rparr>
        = header (opaque (example_state 2 [VDI_UNALLOCATED, VDI_UNALLOCATED] 0))) \<and>
   (\<exists>x. vdi_write_allocate True (example_state 2 [VDI_UNALLOCATED, VDI_UNALLOCATED] 0)
          (example_host erased_disk [False, False, True]) 1 0 [replicate 512 0xaa] 1 = Return (- 1) x \<and>
        header (opaque (fst x)) = (header (opaque (example_state 2 [VDI_UNALLOCATED, VDI_UNALLOCATED] 0)))
          \<lparr> blocks_allocated := 1 \<rparr>) \<and>
   (\<exists>bs2 acb2 ev.
      vdi_aio_write_cb True True (example_state 2 [VDI_UNALLOCATED, VDI_UNALLOCATED] 0)
        ((vdi_aio_setup 2048 [replicate 512 0xaa] 1)
           \<lparr> acb_block_buffer := Some [zero_sector], acb_state := aio_must_write_header \<rparr>) 0
        = Some (bs2, acb2, ev) \<and>
      header (opaque bs2) = header (opaque (example_state 2 [VDI_UNALLOCATED, VDI_UNALLOCATED] 0)) \<and>
      ev = Aio_writev 0
             [mem_of_VdiHeader True (vdi_header_to_le True
                (header (opaque (example_state 2 [VDI_UNALLOCATED, VDI_UNALLOCATED] 0))))] 1)"
proof -
  let ?S = "example_state 2 [VDI_UNALLOCATED, VDI_UNALLOCATED] 0"
  let ?H = "example_host erased_disk []"
  let ?F = "example_host erased_disk [False, False, True]"
  let ?A = "allocated_state True ?S 1"
  let ?acb = "(vdi_aio_setup 2048 [replicate 512 0xaa] 1)
           \<lparr> acb_block_buffer := Some [zero_sector], acb_state := aio_must_write_header \<rparr>"
  have nf: "faults ?H = []"
    by (simp add: example_host_def)
  have un: "entry True ?S 1 = VDI_UNALLOCATED"
    by (simp add: entry_def le32_to_cpu_def example_state_simps bswap32_UNALLOCATED)
  have "\<exists>h. vdi_write True ?S ?H 2048 [replicate 512 0xaa] 1 = Some (0, allocated_state True ?S (nat 2048 div unat (block_sectors (opaque ?S))), h) \<and> faults h = []"
    by (rule vdi_write_allocate_chunk_returns [OF _ _ _ _ _ _ _ nf])
       (use un in \<open>simp_all add: example_state_simps\<close>)
  then obtain h1 where w1: "vdi_write True ?S ?H 2048 [replicate 512 0xaa] 1 = Some (0, ?A, h1)"
    by (auto simp: example_state_simps)
  have z: "(header (opaque ?S))\<lparr> blocks_allocated := 0 \<rparr> = header (opaque ?S)"
    by (simp add: example_state_def)
  from header_kept_in_host_order [where be = True and bs = ?S and host = ?H and sector_num = 2048
      and buf = "[replicate 512 0xaa]" and nb_sectors = 1 and r = 0 and bs' = ?A and host' = h1 and c = 0] w1
  have "(header (opaque ?A))\<lparr> blocks_allocated := 0 \<rparr> = header (opaque ?S)"
    unfolding z by blast
  with w1 have one: "\<exists>bs' host'.
      vdi_write True ?S ?H 2048 [replicate 512 0xaa] 1 = Some (0, bs', host') \<and>
      (header (opaque bs'))\<lparr> blocks_allocated := 0 \<rparr> = header (opaque ?S)"
    by blast
  have fits: "0 + 1 \<le> unat (block_size (opaque ?S)) div SECTOR_SIZE"
    and room: "unat (block_sectors (opaque ?S)) \<le> unat (block_size (opaque ?S)) div SECTOR_SIZE"
    by (simp_all add: example_state_simps)
  have "\<exists>x. vdi_write_allocate True ?S ?F 1 0 [replicate 512 0xaa] 1 = Return (- 1) x"
    unfolding vdi_write_allocate_unfold [OF fits room]
    by (simp add: Let_def data_write_def map_write_def header_write_def fst_bdrv_write
        example_host_def next_fault_def EIO_def)
  then obtain x where a: "vdi_write_allocate True ?S ?F 1 0 [replicate 512 0xaa] 1 = Return (- 1) x"
    by blast
  from header_kept_in_host_order [where be = True and bs = ?S and host = ?F and block_index = 1
      and sector_in_block = 0 and buf = "[replicate 512 0xaa]" and n_sectors = 1 and ?r1.0 = "- 1" and x = x] a
  have "header (opaque (fst x)) = (header (opaque ?S))
      \<lparr> blocks_allocated := blocks_allocated (header (opaque ?S)) + 1 \<rparr>"
    by blast
  then have "header (opaque (fst x)) = (header (opaque ?S))\<lparr> blocks_allocated := 1 \<rparr>"
    by (simp add: example_state_simps)
  with a have two: "\<exists>x. vdi_write_allocate True ?S ?F 1 0 [replicate 512 0xaa] 1 = Return (- 1) x \<and>
        header (opaque (fst x)) = (header (opaque ?S))\<lparr> blocks_allocated := 1 \<rparr>"
    by blast
  have "\<exists>bs2 acb2 ev. vdi_aio_write_cb True True ?S ?acb 0 = Some (bs2, acb2, ev)"
    by (simp add: vdi_aio_write_cb_def vdi_aio_setup_def Let_def)
  then obtain bs2 acb2 ev where cb: "vdi_aio_write_cb True True ?S ?acb 0 = Some (bs2, acb2, ev)"
    by blast
  have st: "(0 :: int) \<le> 0 \<and> acb_state ?acb = aio_must_write_header"
    by simp
  from header_kept_in_host_order [where be = True and bs = ?S and submitted = True and acb = ?acb
      and ret = 0 and ?bs2.0 = bs2 and ?acb2.0 = acb2 and ev = ev] cb st
  have "header (opaque bs2) = header (opaque ?S) \<and>
        ev = bdrv_aio_writev True 0 [mem_of_VdiHeader True (vdi_header_to_le True (header (opaque ?S)))] 1 0"
    by blast
  then have "header (opaque bs2) = header (opaque ?S) \<and>
        ev = Aio_writev 0 [mem_of_VdiHeader True (vdi_header_to_le True (header (opaque ?S)))] 1"
    by (simp add: bdrv_aio_writev_def)
  with cb have three: "\<exists>bs2 acb2 ev. vdi_aio_write_cb True True ?S ?acb 0 = Some (bs2, acb2, ev) \<and>
      header (opaque bs2) = header (opaque ?S) \<and>
      ev = Aio_writev 0 [mem_of_VdiHeader True (vdi_header_to_le True (header (opaque ?S)))] 1"
    by blast
  from one two three show ?thesis
    by blast
qed

subsection \<open>Failure of the first write of an allocation\<close>

text \<open>
  Claim C4, as the spec states it: when the first write of an allocation fails, the
  block map entry is \<^verbatim>\<open>VDI_UNALLOCATED\<close> again and \<open>blocks_allocated\<close> has its former
  value. On a fresh image of two blocks, a write of one sector to block 1 whose data
  write fails returns -1 with entry 1 set to 0 and \<open>blocks_allocated\<close> 1; the only
  host operation was the failed data write.
\<close>

theorem vdi_write_no_revert_counterexample:
  "vdi_write False (example_state 2 [VDI_UNALLOCATED, VDI_UNALLOCATED] 0)
     (example_host erased_disk [True]) 2048 [replicate 512 0xaa] 1 =
     Some (- 1, example_state 2 [VDI_UNALLOCATED, 0] 1,
           \<lparr> disk = erased_disk, faults = [], trace = [Write_op 2 2048] \<rparr>) \<and>
   entry False (example_state 2 [VDI_UNALLOCATED, VDI_UNALLOCATED] 0) 1 = VDI_UNALLOCATED \<and>
   blocks_allocated (header (opaque (example_state 2 [VDI_UNALLOCATED, VDI_UNALLOCATED] 0))) = 0 \<and>
   entry False (example_state 2 [VDI_UNALLOCATED, 0] 1) 1 \<noteq> VDI_UNALLOCATED \<and>
   blocks_allocated (header (opaque (example_state 2 [VDI_UNALLOCATED, 0] 1))) = 1"
proof -
  let ?S = "example_state 2 [VDI_UNALLOCATED, VDI_UNALLOCATED] 0"
  let ?H = "example_host erased_disk [True]"
  have f: "fst (next_fault (faults ?H))"
    by (simp add: example_host_def next_fault_def)
  have a: "allocated_state False ?S 1 = example_state 2 [VDI_UNALLOCATED, 0] 1"
    by (simp add: allocated_state_def example_state_def cpu_to_le32_def)
  have "vdi_write False ?S ?H 2048 [replicate 512 0xaa] 1 =
     Some (- 1, allocated_state False ?S (nat 2048 div unat (block_sectors (opaque ?S))),
       ?H\<lparr> trace := trace ?H @
           [Write_op (unat (offset_data (header (opaque ?S))) div SECTOR_SIZE
                       + unat (blocks_allocated (header (opaque ?S))) * unat (block_sectors (opaque ?S)))
                     (unat (block_sectors (opaque ?S)))],
         faults := snd (next_fault (faults ?H)) \<rparr>)"
    by (rule vdi_write_first_fault [OF _ _ _ _ _ _ _ f])
       (simp_all add: example_state_simps entry_False)
  then have "vdi_write False ?S ?H 2048 [replicate 512 0xaa] 1 =
     Some (- 1, example_state 2 [VDI_UNALLOCATED, 0] 1,
           \<lparr> disk = erased_disk, faults = [], trace = [Write_op 2 2048] \<rparr>)"
    using a by (simp add: example_state_simps example_host_def next_fault_def)
  then show ?thesis
    by (simp add: example_state_simps entry_False VDI_UNALLOCATED_def)
qed

text \<open>
  Claim C4, amended. When the first write of an allocation (the data write of the new
  block) fails, \<^verbatim>\<open>vdi_write\<close> returns -1 and the driver state keeps the allocation:
  the block map entry of the block holds the physical index reserved for it, which is
  the former \<open>blocks_allocated\<close>, and \<open>blocks_allocated\<close> is one more than before.
  Nothing else of the state has changed, the host file has its former content, and the
  failed data write is the only operation issued.
\<close>

theorem vdi_write_first_write_fails:
  assumes "0 \<le> sector_num" and "0 < nb_sectors" and "sector_num < total_sectors bs"
    and "nat sector_num div unat (block_sectors (opaque bs)) < length (blockmap (opaque bs))"
    and "entry be bs (nat sector_num div unat (block_sectors (opaque bs))) = VDI_UNALLOCATED"
    and "block_sectors (opaque bs) \<noteq> 0"
    and "unat (block_sectors (opaque bs)) \<le> unat (block_size (opaque bs)) div SECTOR_SIZE"
    and "fst (next_fault (faults host))"
  shows "\<exists>bs' host'.
     vdi_write be bs host sector_num buf nb_sectors = Some (- 1, bs', host') \<and>
     entry be bs' (nat sector_num div unat (block_sectors (opaque bs)))
       = blocks_allocated (header (opaque bs)) \<and>
     blocks_allocated (header (opaque bs')) = blocks_allocated (header (opaque bs)) + 1 \<and>
     bs' = allocated_state be bs (nat sector_num div unat (block_sectors (opaque bs))) \<and>
     disk host' = disk host \<and>
     trace host' = trace host @
       [Write_op (unat (offset_data (header (opaque bs))) div SECTOR_SIZE
                   + unat (blocks_allocated (header (opaque bs))) * unat (block_sectors (opaque bs)))
                 (unat (block_sectors (opaque bs)))]"
  unfolding vdi_write_first_fault [OF assms]
  using assms(4) by (simp add: entry_allocated_state)

theorem vdi_write_first_write_fails_witness:
  "(\<exists>bs' host'.
     vdi_write True (example_state 2 [0, VDI_UNALLOCATED] 1)
       (example_host erased_disk [True]) 4000 [replicate 512 0xaa, replicate 512 0xbb] 2
       = Some (- 1, bs', host') \<and>
     entry True bs' 1 = 1 \<and>
     blocks_allocated (header (opaque bs')) = 2 \<and>
     disk host' = erased_disk \<and>
     trace host' = [Write_op 2050 2048])"
proof -
  let ?S = "example_state 2 [0, VDI_UNALLOCATED] 1"
  let ?H = "example_host erased_disk [True]"
  have f: "fst (next_fault (faults ?H))"
    by (simp add: example_host_def next_fault_def)
  have un: "entry True ?S (nat 4000 div unat (block_sectors (opaque ?S))) = VDI_UNALLOCATED"
    by (simp add: entry_def le32_to_cpu_def example_state_simps bswap32_UNALLOCATED)
  have "\<exists>bs' host'.
     vdi_write True ?S ?H 4000 [replicate 512 0xaa, replicate 512 0xbb] 2 = Some (- 1, bs', host') \<and>
     entry True bs' (nat 4000 div unat (block_sectors (opaque ?S)))
       = blocks_allocated (header (opaque ?S)) \<and>
     blocks_allocated (header (opaque bs')) = blocks_allocated (header (opaque ?S)) + 1 \<and>
     bs' = allocated_state True ?S (nat 4000 div unat (block_sectors (opaque ?S))) \<and>
     disk host' = disk ?H \<and>
     trace host' = trace ?H @
       [Write_op (unat (offset_data (header (opaque ?S))) div SECTOR_SIZE
                   + unat (blocks_allocated (header (opaque ?S))) * unat (block_sectors (opaque ?S)))
                 (unat (block_sectors (opaque ?S)))]"
    by (rule vdi_write_first_write_fails [OF _ _ _ _ un _ _ f])
       (simp_all add: example_state_simps)
  then show ?thesis
    by (auto simp: example_state_simps example_host_def)
qed

subsection \<open>The block map sector that an allocation writes\<close>

lemma store_outside:
  "\<not> (off \<le> i \<and> i < off + n) \<Longrightarrow> store d off buf n i = d i"
  by (auto simp: store_def)

text \<open>
  Claim C1. The spec has the second write of an allocation go to the block map sector
  that holds the entry of the logical block, sector \<open>block_index * 4 div 512\<close> of the
  block map. The code takes the sector from the physical index instead. A write that
  stays inside one unallocated block, on a host that does not fail, issues three writes:
  the new block at its place in the data region, one sector at block map sector
  \<open>k div 128\<close> where \<open>k\<close> is the former \<open>blocks_allocated\<close>, and the header; every
  other sector of the host file is left as it was. The asynchronous callback does the
  same: an allocation records the former \<open>blocks_allocated\<close> in
  \<^verbatim>\<open>acb->blockmap_entry\<close>, and in state \<^verbatim>\<open>aio_must_write_blockmap\<close> the callback
  submits one sector at block map sector \<open>acb->blockmap_entry div 128\<close>.
\<close>

theorem vdi_write_map_sector_of_physical_index:
  "(0 \<le> sector_num \<and> 0 < nb_sectors \<and> sector_num < total_sectors bs \<and>
    nat sector_num div unat (block_sectors (opaque bs)) < length (blockmap (opaque bs)) \<and>
    entry be bs (nat sector_num div unat (block_sectors (opaque bs))) = VDI_UNALLOCATED \<and>
    nat sector_num mod unat (block_sectors (opaque bs)) + nat nb_sectors
      \<le> unat (block_sectors (opaque bs)) \<and>
    unat (block_sectors (opaque bs)) \<le> unat (block_size (opaque bs)) div SECTOR_SIZE \<and>
    faults host = [] \<longrightarrow>
    (\<exists>host'.
       vdi_write be bs host sector_num buf nb_sectors =
         Some (0, allocated_state be bs (nat sector_num div unat (block_sectors (opaque bs))), host') \<and>
       trace host' = trace host @
         [Write_op (unat (offset_data (header (opaque bs))) div SECTOR_SIZE
                     + unat (blocks_allocated (header (opaque bs))) * unat (block_sectors (opaque bs)))
                   (unat (block_sectors (opaque bs))),
          Write_op (unat (offset_blockmap (header (opaque bs))) div SECTOR_SIZE
                     + unat (blocks_allocated (header (opaque bs))) div 128) 1,
          Write_op 0 1] \<and>
       (\<forall>i. i \<noteq> 0 \<longrightarrow>
            i \<noteq> unat (offset_blockmap (header (opaque bs))) div SECTOR_SIZE
                  + unat (blocks_allocated (header (opaque bs))) div 128 \<longrightarrow>
            \<not> (unat (offset_data (header (opaque bs))) div SECTOR_SIZE
                  + unat (blocks_allocated (header (opaque bs))) * unat (block_sectors (opaque bs)) \<le> i \<and>
               i < unat (offset_data (header (opaque bs))) div SECTOR_SIZE
                  + unat (blocks_allocated (header (opaque bs))) * unat (block_sectors (opaque bs))
                  + unat (block_sectors (opaque bs))) \<longrightarrow>
            disk host' i = disk host i))) \<and>
   (vdi_aio_write_cb be submitted bs acb ret = Some (bs1, acb1, ev) \<longrightarrow>
      acb_state acb \<noteq> aio_must_write_blockmap \<longrightarrow> acb_state acb1 = aio_must_write_blockmap \<longrightarrow>
      acb_blockmap_entry acb1 = blocks_allocated (header (opaque bs))) \<and>
   (0 \<le> ret \<longrightarrow> acb_state acb = aio_must_write_blockmap \<longrightarrow>
      vdi_aio_write_cb be submitted bs acb ret =
        Some (bs, acb\<lparr> acb_state := aio_must_write_header \<rparr>,
          bdrv_aio_writev submitted
            (unat (offset_blockmap (header (opaque bs))) div SECTOR_SIZE
               + unat (acb_blockmap_entry acb) div 128)
            [blockmap_sector be (blockmap (opaque bs)) (after_blockmap (opaque bs))
               (unat (acb_blockmap_entry acb AND NOT 127))] 1 ret))"
proof (intro conjI impI)
  assume c: "0 \<le> sector_num \<and> 0 < nb_sectors \<and> sector_num < total_sectors bs \<and>
    nat sector_num div unat (block_sectors (opaque bs)) < length (blockmap (opaque bs)) \<and>
    entry be bs (nat sector_num div unat (block_sectors (opaque bs))) = VDI_UNALLOCATED \<and>
    nat sector_num mod unat (block_sectors (opaque bs)) + nat nb_sectors
      \<le> unat (block_sectors (opaque bs)) \<and>
    unat (block_sectors (opaque bs)) \<le> unat (block_size (opaque bs)) div SECTOR_SIZE \<and>
    faults host = []"
  then have c1: "0 \<le> sector_num" and c2: "0 < nb_sectors" and c3: "sector_num < total_sectors bs"
    and c4: "nat sector_num div unat (block_sectors (opaque bs)) < length (blockmap (opaque bs))"
    and c5: "entry be bs (nat sector_num div unat (block_sectors (opaque bs))) = VDI_UNALLOCATED"
    and c6: "nat sector_num mod unat (block_sectors (opaque bs)) + nat nb_sectors
      \<le> unat (block_sectors (opaque bs))"
    and c7: "unat (block_sectors (opaque bs)) \<le> unat (block_size (opaque bs)) div SECTOR_SIZE"
    and c8: "faults host = []"
    by simp_all
  show "\<exists>host'.
       vdi_write be bs host sector_num buf nb_sectors =
         Some (0, allocated_state be bs (nat sector_num div unat (block_sectors (opaque bs))), host') \<and>
       trace host' = trace host @
         [Write_op (unat (offset_data (header (opaque bs))) div SECTOR_SIZE
                     + unat (blocks_allocated (header (opaque bs))) * unat (block_sectors (opaque bs)))
                   (unat (block_sectors (opaque bs))),
          Write_op (unat (offset_blockmap (header (opaque bs))) div SECTOR_SIZE
                     + unat (blocks_allocated (header (opaque bs))) div 128) 1,
          Write_op 0 1] \<and>
       (\<forall>i. i \<noteq> 0 \<longrightarrow>
            i \<noteq> unat (offset_blockmap (header (opaque bs))) div SECTOR_SIZE
                  + unat (blocks_allocated (header (opaque bs))) div 128 \<longrightarrow>
            \<not> (unat (offset_data (header (opaque bs))) div SECTOR_SIZE
                  + unat (blocks_allocated (header (opaque bs))) * unat (block_sectors (opaque bs)) \<le> i \<and>
               i < unat (offset_data (header (opaque bs))) div SECTOR_SIZE
                  + unat (blocks_allocated (header (opaque bs))) * unat (block_sectors (opaque bs))
                  + unat (block_sectors (opaque bs))) \<longrightarrow>
            disk host' i = disk host i)"
    unfolding vdi_write_allocate_chunk_no_faults [OF c1 c2 c3 c4 c5 c6 c7 c8]
    by (simp add: store_outside)
next
  assume "vdi_aio_write_cb be submitted bs acb ret = Some (bs1, acb1, ev)"
    and "acb_state acb \<noteq> aio_must_write_blockmap" and "acb_state acb1 = aio_must_write_blockmap"
  then show "acb_blockmap_entry acb1 = blocks_allocated (header (opaque bs))"
    by (intro vdi_aio_write_cb_allocates)
next
  assume "0 \<le> ret" and "acb_state acb = aio_must_write_blockmap"
  then show "vdi_aio_write_cb be submitted bs acb ret =
        Some (bs, acb\<lparr> acb_state := aio_must_write_header \<rparr>,
          bdrv_aio_writev submitted
            (unat (offset_blockmap (header (opaque bs))) div SECTOR_SIZE
               + unat (acb_blockmap_entry acb) div 128)
            [blockmap_sector be (blockmap (opaque bs)) (after_blockmap (opaque bs))
               (unat (acb_blockmap_entry acb AND NOT 127))] 1 ret)"
    by (rule vdi_aio_write_cb_must_write_blockmap)
qed

text \<open>
  An instance: the 256 MiB image that \<^verbatim>\<open>vdi_create\<close> writes, opened by
  \<^verbatim>\<open>vdi_open\<close>. Its block map has the sectors 1 and 2 of the file, and the entry of
  block 128 is in sector 2. The first write to block 128, synchronous or asynchronous,
  writes the sectors 3 to 2050, sector 1 and sector 0, and sector 2 keeps its content.
\<close>

lemma aio_fresh_run:
  "\<exists>bs' host'.
     vdi_aio_writev (Suc (Suc (Suc (Suc 0)))) False
       ((example_state 256 (replicate 256 VDI_UNALLOCATED) 0)
          \<lparr> opaque := (opaque (example_state 256 (replicate 256 VDI_UNALLOCATED) 0))
              \<lparr> after_blockmap := t \<rparr> \<rparr>)
       ((fresh_image 256)\<lparr> trace := [Read_op 0 1, Read_op 1 2] \<rparr>)
       262144 [replicate 512 0xaa] 1 = Some (0, bs', host') \<and>
     trace host' = [Read_op 0 1, Read_op 1 2, Write_op 3 2048, Write_op 1 1, Write_op 0 1] \<and>
     disk host' 2 = replicate 512 0xff \<and>
     entry False bs' 128 = 0"
  by (simp add: vdi_aio_writev_def vdi_aio_write_cb_def vdi_aio_write_next_def vdi_aio_setup_def Let_def
        example_state_simps int64_div_def int64_mod_def le32_to_cpu_def bdrv_aio_writev_def
        memcpy_sectors_def example_state_def example_header_def zero_VdiHeader_def
        bdrv_write_def next_fault_def fresh_image_def store_def entry_def cpu_to_le32_def)

theorem vdi_write_map_sector_of_physical_index_witness:
  "\<exists>bs host.
     vdi_create False True [\<lparr> name = ''size'', value_n = 0x10000000 \<rparr>] [] [] =
       (0, concat (map (disk (fresh_image 256)) [0 ..< 3])) \<and>
     vdi_open False (Inr (fresh_image 256)) stale_memory = (0, Some (bs, host)) \<and>
     entry False bs 128 = VDI_UNALLOCATED \<and>
     nat 262144 div unat (block_sectors (opaque bs)) = 128 \<and>
     unat (offset_blockmap (header (opaque bs))) div SECTOR_SIZE + 128 * 4 div 512 = 2 \<and>
     (\<exists>host'.
        vdi_write False bs host 262144 [replicate 512 0xaa] 1 =
          Some (0, allocated_state False bs 128, host') \<and>
        trace host' = [Read_op 0 1, Read_op 1 2, Write_op 3 2048, Write_op 1 1, Write_op 0 1] \<and>
        disk host 2 = replicate 512 0xff \<and>
        disk host' 2 = replicate 512 0xff) \<and>
     (\<exists>bs' host'.
        vdi_aio_writev (Suc (Suc (Suc (Suc 0)))) False bs host 262144 [replicate 512 0xaa] 1
          = Some (0, bs', host') \<and>
        trace host' = [Read_op 0 1, Read_op 1 2, Write_op 3 2048, Write_op 1 1, Write_op 0 1] \<and>
        disk host' 2 = replicate 512 0xff \<and>
        entry False bs' 128 = 0)"
proof -
  let ?S = "(example_state 256 (replicate 256 VDI_UNALLOCATED) 0)
      \<lparr> opaque := (opaque (example_state 256 (replicate 256 VDI_UNALLOCATED) 0))
          \<lparr> after_blockmap := (\<lambda>j. mem32 False (stale_memory (256 + j div 4)) ! (j mod 4)) \<rparr> \<rparr>"
  let ?H = "(fresh_image 256)\<lparr> trace := [Read_op 0 1, Read_op 1 2] \<rparr>"
  have "vdi_open False (Inr (fresh_image 256)) stale_memory =
      (0, Some (?S, (fresh_image 256)\<lparr> trace := [Read_op 0 1, Read_op 1 (256 div 128)] \<rparr>))"
    by (rule vdi_open_fresh_image) simp_all
  then have o: "vdi_open False (Inr (fresh_image 256)) stale_memory = (0, Some (?S, ?H))"
    by simp
  have e: "entry False ?S 128 = VDI_UNALLOCATED"
    and b: "nat 262144 div unat (block_sectors (opaque ?S)) = 128"
    and m: "unat (offset_blockmap (header (opaque ?S))) div SECTOR_SIZE + 128 * 4 div 512 = 2"
    by (simp_all add: example_state_simps entry_False)
  have c: "0 \<le> (262144 :: int) \<and> (0 :: int) < 1 \<and> 262144 < total_sectors ?S \<and>
    nat 262144 div unat (block_sectors (opaque ?S)) < length (blockmap (opaque ?S)) \<and>
    entry False ?S (nat 262144 div unat (block_sectors (opaque ?S))) = VDI_UNALLOCATED \<and>
    nat 262144 mod unat (block_sectors (opaque ?S)) + nat 1 \<le> unat (block_sectors (opaque ?S)) \<and>
    unat (block_sectors (opaque ?S)) \<le> unat (block_size (opaque ?S)) div SECTOR_SIZE \<and>
    faults ?H = []"
    by (simp add: example_state_simps entry_False fresh_image_def)
  from vdi_write_map_sector_of_physical_index [where be = False and bs = ?S and host = ?H
      and sector_num = 262144 and buf = "[replicate 512 0xaa]" and nb_sectors = 1] c
  obtain host' where
    w: "vdi_write False ?S ?H 262144 [replicate 512 0xaa] 1 =
         Some (0, allocated_state False ?S (nat 262144 div unat (block_sectors (opaque ?S))), host')"
    and t: "trace host' = trace ?H @
         [Write_op (unat (offset_data (header (opaque ?S))) div SECTOR_SIZE
                     + unat (blocks_allocated (header (opaque ?S))) * unat (block_sectors (opaque ?S)))
                   (unat (block_sectors (opaque ?S))),
          Write_op (unat (offset_blockmap (header (opaque ?S))) div SECTOR_SIZE
                     + unat (blocks_allocated (header (opaque ?S))) div 128) 1,
          Write_op 0 1]"
    and d: "\<forall>i. i \<noteq> 0 \<longrightarrow>
            i \<noteq> unat (offset_blockmap (header (opaque ?S))) div SECTOR_SIZE
                  + unat (blocks_allocated (header (opaque ?S))) div 128 \<longrightarrow>
            \<not> (unat (offset_data (header (opaque ?S))) div SECTOR_SIZE
                  + unat (blocks_allocated (header (opaque ?S))) * unat (block_sectors (opaque ?S)) \<le> i \<and>
               i < unat (offset_data (header (opaque ?S))) div SECTOR_SIZE
                  + unat (blocks_allocated (header (opaque ?S))) * unat (block_sectors (opaque ?S))
                  + unat (block_sectors (opaque ?S))) \<longrightarrow>
            disk host' i = disk ?H i"
    by blast
  have w': "vdi_write False ?S ?H 262144 [replicate 512 0xaa] 1 =
         Some (0, allocated_state False ?S 128, host')"
    using w unfolding b .
  have t': "trace host' = [Read_op 0 1, Read_op 1 2, Write_op 3 2048, Write_op 1 1, Write_op 0 1]"
    using t by (simp add: example_state_simps)
  have d0: "disk ?H 2 = replicate 512 0xff"
    by (simp add: fresh_image_def)
  have "disk host' 2 = disk ?H 2"
    using d [rule_format, of 2] by (simp add: example_state_simps)
  then have d': "disk host' 2 = replicate 512 0xff"
    unfolding d0 .
  from vdi_create_256 o e b m w' t' d0 d'
    aio_fresh_run [of "\<lambda>j. mem32 False (stale_memory (256 + j div 4)) ! (j mod 4)"]
  show ?thesis
    by blast
qed

end
